(* ===== verification/Mqss_Prelude.thy ===== *)
theory Mqss_Prelude
  imports Complex_Main "HOL-Library.Word" "HOL-Library.Sublist"
begin

text \<open>
  Shared material of the development: the fixed-width integer types and the implicit
  conversions between them, the parts of the C++ standard library the sources call on strings
  (\<^verbatim>\<open>std::from_chars\<close>, \<^verbatim>\<open>std::to_string\<close>, \<^verbatim>\<open>std::getline\<close>, \<^verbatim>\<open>std::filesystem::path\<close>
  concatenation), the conversion of a 64-bit count to a \<^verbatim>\<open>double\<close>, and the named collections
  of simplification rules that the component theories extend.
\<close>

named_theorems op_defs "definitions of the operations of a component, for unfolding"
named_theorems store_simps "equations of the task store and its containers"
named_theorems num_simps "conversions between integer widths and decimal text"
named_theorems returns_iff "when a computation that may fail returns a value"

section \<open>Fixed-width integers\<close>

type_synonym int32 = "32 word"
type_synonym uint32 = "32 word"
type_synonym uint64 = "64 word"

text \<open>
  An \<^typ>\<open>int32\<close> is read with \<^term>\<open>sint\<close>. Passing a \<^verbatim>\<open>std::uint64_t\<close> to a protobuf
  \<^verbatim>\<open>int32\<close> setter keeps the low 32 bits, and \<^verbatim>\<open>static_cast<std::uint64_t>\<close> of an
  \<^verbatim>\<open>int32\<close> extends the sign (both modular since C++20).
\<close>

definition to_int32 :: "uint64 \<Rightarrow> int32" where
  "to_int32 w = ucast w"

definition to_uint64 :: "int32 \<Rightarrow> uint64" where
  "to_uint64 w = scast w"

definition fits_int32 :: "uint64 \<Rightarrow> bool" where
  "fits_int32 w \<longleftrightarrow> unat w < 2 ^ 31"

definition int32_max :: int where
  "int32_max = 2147483647"

definition int32_min :: int where
  "int32_min = - 2147483648"

section \<open>Decimal text\<close>

definition is_digit :: "char \<Rightarrow> bool" where
  "is_digit c \<longleftrightarrow> 48 \<le> (of_char c :: nat) \<and> (of_char c :: nat) \<le> 57"

definition digit_val :: "char \<Rightarrow> nat" where
  "digit_val c = of_char c - 48"

definition digit_char :: "nat \<Rightarrow> char" where
  "digit_char d = char_of (48 + d)"

fun to_string :: "nat \<Rightarrow> string" where
  "to_string n = (if n < 10 then [digit_char n] else to_string (n div 10) @ [digit_char (n mod 10)])"

declare to_string.simps [simp del]

definition digits_value :: "string \<Rightarrow> nat" where
  "digits_value ds = foldl (\<lambda>acc c. 10 * acc + digit_val c) 0 ds"

text \<open>
  \<^verbatim>\<open>std::from_chars\<close> in base 10: no leading white space, no plus sign, a minus sign for
  signed types only. The remaining text stands for the returned pointer.
\<close>

datatype from_chars_result =
    FcInvalid
  | FcOutOfRange string
  | FcOk int string

definition from_chars :: "bool \<Rightarrow> int \<Rightarrow> int \<Rightarrow> string \<Rightarrow> from_chars_result" where
  "from_chars is_signed lo hi text =
     (let neg = (is_signed \<and> text \<noteq> [] \<and> hd text = CHR ''-'');
          body = (if neg then tl text else text);
          ds = takeWhile is_digit body;
          rest = dropWhile is_digit body;
          value = (if neg then - int (digits_value ds) else int (digits_value ds))
      in if ds = [] then FcInvalid
         else if value < lo \<or> hi < value then FcOutOfRange rest
         else FcOk value rest)"

text \<open>The test \<^verbatim>\<open>error == std::errc{} && ptr == end\<close> that every caller makes.\<close>

definition parse_whole :: "bool \<Rightarrow> int \<Rightarrow> int \<Rightarrow> string \<Rightarrow> int option" where
  "parse_whole is_signed lo hi text =
     (case from_chars is_signed lo hi text of
        FcOk v rest \<Rightarrow> if rest = [] then Some v else None
      | _ \<Rightarrow> None)"

section \<open>Lines and paths\<close>

text \<open>\<^verbatim>\<open>std::getline\<close>: fails only when no character is left, drops the delimiter.\<close>

definition std_getline :: "char \<Rightarrow> string \<Rightarrow> (string \<times> string) option" where
  "std_getline c s =
     (if s = [] then None
      else Some (takeWhile (\<lambda>x. x \<noteq> c) s, tl (dropWhile (\<lambda>x. x \<noteq> c) s)))"

function getlines :: "char \<Rightarrow> string \<Rightarrow> string list" where
  "getlines c s = (case std_getline c s of None \<Rightarrow> [] | Some (line, rest) \<Rightarrow> line # getlines c rest)"
  by pat_completeness auto
termination
proof (relation "measure (\<lambda>(c, s). length s)", goal_cases)
  case (2 c s p line rest)
  have "length (tl (dropWhile (\<lambda>x. x \<noteq> c) s)) < length s" if "s \<noteq> []"
  proof -
    have "length (dropWhile (\<lambda>x. x \<noteq> c) s) \<le> length s" by (rule length_dropWhile_le)
    moreover have "0 < length s" using that by simp
    ultimately show ?thesis unfolding length_tl by linarith
  qed
  with 2 show ?case by (auto simp: std_getline_def split: if_splits)
qed auto

declare getlines.simps [simp del]

text \<open>\<^verbatim>\<open>std::filesystem::path / std::string_view\<close> on POSIX, as a string.\<close>

definition path_append :: "string \<Rightarrow> string \<Rightarrow> string" where
  "path_append dir file =
     (if file \<noteq> [] \<and> hd file = CHR ''/'' then file
      else if dir = [] \<or> last dir = CHR ''/'' then dir @ file
      else dir @ ''/'' @ file)"

section \<open>Doubles\<close>

text \<open>
  The values of a \<^verbatim>\<open>double\<close>; a finite one is represented by the rational number it denotes.
  \<open>double_of_nat\<close> is the conversion of an unsigned 64-bit integer: round to nearest, ties to
  even, with a 53-bit significand.
\<close>

datatype double = Finite rat | PosInf | NegInf | NaN

fun bit_length :: "nat \<Rightarrow> nat" where
  "bit_length n = (if n = 0 then 0 else Suc (bit_length (n div 2)))"

declare bit_length.simps [simp del]

definition round53 :: "nat \<Rightarrow> nat" where
  "round53 n =
     (if n < 2 ^ 53 then n
      else let e = bit_length n - 53;
               q = n div 2 ^ e;
               r = n mod 2 ^ e;
               half = 2 ^ (e - 1);
               q' = (if half < r \<or> (r = half \<and> odd q) then Suc q else q)
           in q' * 2 ^ e)"

definition double_of_nat :: "nat \<Rightarrow> double" where
  "double_of_nat n = Finite (of_nat (round53 n))"

definition double_of_int32 :: "int32 \<Rightarrow> double" where
  "double_of_int32 w = Finite (of_int (sint w))"

section \<open>Lemmas on widths\<close>

lemma to_int32_to_uint64 [simp, num_simps]: "to_int32 (to_uint64 x) = x"
  unfolding to_int32_def to_uint64_def
  by (rule bit_word_eqI) (auto simp: bit_simps)

lemma to_uint64_to_int32_iff:
  "to_uint64 (to_int32 w) = w \<longleftrightarrow> - (2 ^ 31) \<le> sint w \<and> sint w < 2 ^ 31"
proof -
  have "to_uint64 (to_int32 w) = w \<longleftrightarrow> sint (to_uint64 (to_int32 w)) = sint w"
    by (auto intro: signed_word_eqI)
  also have "sint (to_uint64 (to_int32 w)) = signed_take_bit 31 (sint w)"
    unfolding to_int32_def to_uint64_def
    by (rule bit_eqI) (auto simp: bit_simps min_def)
  also have "(signed_take_bit 31 (sint w) = sint w) \<longleftrightarrow> - (2 ^ 31) \<le> sint w \<and> sint w < 2 ^ 31"
    by (simp add: signed_take_bit_int_eq_self_iff)
  finally show ?thesis .
qed

lemma fits_int32_uint: "fits_int32 w \<longleftrightarrow> uint w < 2 ^ 31"
proof -
  have "fits_int32 w \<longleftrightarrow> int (unat w) < int (2 ^ 31)"
    unfolding fits_int32_def by (simp only: of_nat_less_iff)
  also have "int (unat w) = uint w" by simp
  finally show ?thesis by simp
qed

lemma sint_fits_int32: "fits_int32 w \<Longrightarrow> sint w = uint w"
  unfolding fits_int32_uint sint_uint
  by (rule signed_take_bit_int_eq_self) (auto intro: order_trans [of _ 0])

lemma to_uint64_to_int32 [num_simps]: "fits_int32 w \<Longrightarrow> to_uint64 (to_int32 w) = w"
  unfolding to_uint64_to_int32_iff
  by (auto simp: sint_fits_int32 fits_int32_uint intro: order_trans [of _ 0])

section \<open>Lemmas on decimal text\<close>

lemma of_char_digit_char: "d < 10 \<Longrightarrow> (of_char (digit_char d) :: nat) = 48 + d"
  by (simp add: digit_char_def)

lemma is_digit_digit_char [simp]: "d < 10 \<Longrightarrow> is_digit (digit_char d)"
  by (simp add: is_digit_def of_char_digit_char)

lemma digit_val_digit_char [simp]: "d < 10 \<Longrightarrow> digit_val (digit_char d) = d"
  by (simp add: digit_val_def of_char_digit_char)

lemma not_is_digit_minus [simp]: "\<not> is_digit CHR ''-''"
  by (simp add: is_digit_def)

lemma digits_value_snoc [simp]: "digits_value (ds @ [c]) = 10 * digits_value ds + digit_val c"
  by (simp add: digits_value_def)

lemma to_string_digits: "c \<in> set (to_string n) \<Longrightarrow> is_digit c"
proof (induction n rule: to_string.induct)
  case (1 n)
  then show ?case
    by (subst (asm) to_string.simps) (auto split: if_splits)
qed

lemma to_string_nonempty [simp]: "to_string n \<noteq> []"
  by (subst to_string.simps) simp

lemma digits_value_to_string [simp]: "digits_value (to_string n) = n"
proof (induction n rule: to_string.induct)
  case (1 n)
  show ?case
  proof (cases "n < 10")
    case True
    then show ?thesis by (subst to_string.simps) (simp add: digits_value_def)
  next
    case False
    then show ?thesis using 1 by (subst to_string.simps) simp
  qed
qed

lemma takeWhile_dropWhile_digits:
  assumes "\<And>c. c \<in> set t \<Longrightarrow> is_digit c"
  shows "takeWhile is_digit t = t" and "dropWhile is_digit t = []"
  using assms by (simp_all add: takeWhile_eq_all_conv dropWhile_eq_Nil_conv)

lemma parse_whole_unsigned_iff:
  "parse_whole False 0 hi t = Some v \<longleftrightarrow>
     t \<noteq> [] \<and> list_all is_digit t \<and> v = int (digits_value t) \<and> v \<le> hi"
proof (cases "list_all is_digit t")
  case True
  then have eqs: "takeWhile is_digit t = t" "dropWhile is_digit t = []"
    by (auto simp: list_all_iff intro!: takeWhile_dropWhile_digits)
  show ?thesis
    unfolding parse_whole_def from_chars_def Let_def if_False simp_thms eqs using True by auto
next
  case False
  then have "dropWhile is_digit t \<noteq> []" by (auto simp: list_all_iff)
  with False show ?thesis
    unfolding parse_whole_def from_chars_def Let_def by (auto simp del: dropWhile_eq_Nil_conv)
qed

lemma parse_whole_to_string [num_simps]:
  assumes "lo \<le> 0" and "int n \<le> hi"
  shows "parse_whole is_signed lo hi (to_string n) = Some (int n)"
proof -
  have digits: "is_digit c" if "c \<in> set (to_string n)" for c
    using that by (rule to_string_digits)
  then have "is_digit (hd (to_string n))" by simp
  then have "hd (to_string n) \<noteq> CHR ''-''" by auto
  with assms show ?thesis
    by (simp add: parse_whole_def from_chars_def Let_def takeWhile_dropWhile_digits digits)
qed

section \<open>Lemmas on lines\<close>

lemma getlines_Nil [simp]: "getlines c [] = []"
  by (subst getlines.simps) (simp add: std_getline_def)

lemma getlines_line [simp]: "c \<notin> set l \<Longrightarrow> getlines c (l @ c # rest) = l # getlines c rest"
  by (subst getlines.simps) (auto simp: std_getline_def takeWhile_append1 dropWhile_append1
      takeWhile_eq_all_conv dropWhile_append)

lemma getlines_last [simp]: "c \<notin> set l \<Longrightarrow> l \<noteq> [] \<Longrightarrow> getlines c l = [l]"
proof -
  assume l: "c \<notin> set l" "l \<noteq> []"
  then have eqs: "takeWhile (\<lambda>x. x \<noteq> c) l = l" "dropWhile (\<lambda>x. x \<noteq> c) l = []"
    by (auto simp: takeWhile_eq_all_conv)
  show ?thesis
    unfolding getlines.simps [of c l] std_getline_def eqs using l(2) by simp
qed

lemma getlines_no_delimiter: "l \<in> set (getlines c s) \<Longrightarrow> c \<notin> set l"
proof (induction c s rule: getlines.induct)
  case (1 c s)
  from "1.prems" consider "s \<noteq> []" "l = takeWhile (\<lambda>x. x \<noteq> c) s"
    | "s \<noteq> []" "l \<in> set (getlines c (tl (dropWhile (\<lambda>x. x \<noteq> c) s)))"
    by (subst (asm) getlines.simps) (auto simp: std_getline_def split: if_splits)
  then show ?case
  proof cases
    case 1
    then show ?thesis by (auto dest: set_takeWhileD)
  next
    case 2
    then show ?thesis using "1.IH" by (simp add: std_getline_def)
  qed
qed

lemma getlines_concat:
  "(\<And>l. l \<in> set ls \<Longrightarrow> c \<notin> set l) \<Longrightarrow> getlines c (concat (map (\<lambda>l. l @ [c]) ls)) = ls"
  by (induction ls) auto

section \<open>Lemmas on doubles\<close>

lemma bit_length_power: "bit_length (2 ^ k) = Suc k"
proof (induction k)
  case 0
  show ?case by (simp add: bit_length.simps)
next
  case (Suc k)
  then show ?case by (subst bit_length.simps) simp
qed

lemma round53_exact: "n \<le> 2 ^ 53 \<Longrightarrow> round53 n = n"
proof (cases "n = 2 ^ 53")
  case True
  then have "bit_length n = 54" using bit_length_power [of 53] by simp
  then show ?thesis using True by (simp add: round53_def Let_def)
qed (simp add: round53_def)

end
