(* ===== verification/Hash_Map.thy ===== *)
theory Hash_Map
  imports Mqss_Prelude "HOL-Library.AList"
begin

text \<open>
  \<^verbatim>\<open>std::unordered_map\<close> and the protobuf map fields: a list of key/value pairs with distinct
  keys, in the (unspecified) order in which the container is iterated. The locale
  \<open>unordered_map\<close> is the interface the components rely on; it is interpreted on the list
  operations, and every later fact about a container is a fact of that interpretation.
\<close>

type_synonym ('k, 'v) umap = "('k \<times> 'v) list"

definition um_wf :: "('k, 'v) umap \<Rightarrow> bool" where
  "um_wf m \<longleftrightarrow> distinct (map fst m)"

definition um_find :: "('k, 'v) umap \<Rightarrow> 'k \<Rightarrow> 'v option" where
  "um_find m = map_of m"

definition um_contains :: "('k, 'v) umap \<Rightarrow> 'k \<Rightarrow> bool" where
  "um_contains m k \<longleftrightarrow> k \<in> set (map fst m)"

definition um_insert_or_assign :: "'k \<Rightarrow> 'v \<Rightarrow> ('k, 'v) umap \<Rightarrow> ('k, 'v) umap" where
  "um_insert_or_assign k v m = AList.update k v m"

definition um_emplace :: "'k \<Rightarrow> 'v \<Rightarrow> ('k, 'v) umap \<Rightarrow> ('k, 'v) umap" where
  "um_emplace k v m = (if k \<in> set (map fst m) then m else m @ [(k, v)])"

definition um_erase :: "'k \<Rightarrow> ('k, 'v) umap \<Rightarrow> ('k, 'v) umap" where
  "um_erase k m = AList.delete k m"

definition um_size :: "('k, 'v) umap \<Rightarrow> nat" where
  "um_size m = length m"

lemmas um_defs = um_wf_def um_find_def um_contains_def um_insert_or_assign_def um_emplace_def
  um_erase_def um_size_def

locale unordered_map =
  fixes empty :: 'm
    and find :: "'m \<Rightarrow> 'k \<Rightarrow> 'v option"
    and contains :: "'m \<Rightarrow> 'k \<Rightarrow> bool"
    and assign :: "'k \<Rightarrow> 'v \<Rightarrow> 'm \<Rightarrow> 'm"
    and emplace :: "'k \<Rightarrow> 'v \<Rightarrow> 'm \<Rightarrow> 'm"
    and erase :: "'k \<Rightarrow> 'm \<Rightarrow> 'm"
    and size_of :: "'m \<Rightarrow> nat"
    and wf :: "'m \<Rightarrow> bool"
  assumes find_empty: "find empty = Map.empty"
    and find_assign: "find (assign k v m) = (find m)(k \<mapsto> v)"
    and find_emplace: "find (emplace k v m) = (if find m k = None then (find m)(k \<mapsto> v) else find m)"
    and find_erase: "find (erase k m) = (find m)(k := None)"
    and contains_find: "contains m k \<longleftrightarrow> find m k \<noteq> None"
    and finite_find: "finite (dom (find m))"
    and size_card: "wf m \<Longrightarrow> size_of m = card (dom (find m))"
    and wf_empty: "wf empty"
    and wf_assign: "wf m \<Longrightarrow> wf (assign k v m)"
    and wf_emplace: "wf m \<Longrightarrow> wf (emplace k v m)"
    and wf_erase: "wf m \<Longrightarrow> wf (erase k m)"
begin

lemma size_empty: "size_of empty = 0"
  by (simp add: size_card wf_empty find_empty)

lemma size_assign:
  "wf m \<Longrightarrow> size_of (assign k v m) = (if find m k = None then Suc (size_of m) else size_of m)"
  by (auto simp: size_card wf_assign find_assign finite_find domIff card_insert_if)

lemma size_erase:
  "wf m \<Longrightarrow> size_of (erase k m) = (if find m k = None then size_of m else size_of m - 1)"
  by (auto simp: size_card wf_erase find_erase finite_find domIff card_Diff_singleton_if)

lemma size_zero_iff: "wf m \<Longrightarrow> size_of m = 0 \<longleftrightarrow> (\<forall>k. find m k = None)"
  by (auto simp: size_card finite_find)

lemma fill_emplace:
  "find (foldl (\<lambda>m (k, v). emplace k v m) m xs) = map_of xs ++ find m"
proof (induction xs arbitrary: m)
  case (Cons p xs)
  obtain k v where p: "p = (k, v)" by (cases p)
  show ?case
    by (auto simp: p Cons.IH find_emplace fun_eq_iff map_add_def split: option.splits)
qed simp

lemma fill_assign:
  "find (foldl (\<lambda>m (k, v). assign k v m) m xs) = find m ++ map_of (rev xs)"
proof (induction xs arbitrary: m)
  case (Cons p xs)
  obtain k v where p: "p = (k, v)" by (cases p)
  show ?case
    by (auto simp: p Cons.IH find_assign fun_eq_iff map_add_def split: option.splits)
qed simp

lemma wf_fill_emplace: "wf m \<Longrightarrow> wf (foldl (\<lambda>m (k, v). emplace k v m) m xs)"
  by (induction xs arbitrary: m) (auto simp: wf_emplace)

lemma wf_fill_assign: "wf m \<Longrightarrow> wf (foldl (\<lambda>m (k, v). assign k v m) m xs)"
  by (induction xs arbitrary: m) (auto simp: wf_assign)

end

interpretation um: unordered_map "[]" um_find um_contains um_insert_or_assign um_emplace um_erase
  um_size um_wf
proof (unfold_locales, goal_cases)
  case (7 m)
  then have "card (fst ` set m) = length m"
    by (metis um_wf_def distinct_card length_map set_map)
  then show ?case by (simp add: um_defs dom_map_of_conv_image_fst)
next
  case (3 k v m)
  have "k \<in> fst ` set m \<longleftrightarrow> map_of m k \<noteq> None" by (simp add: map_of_eq_None_iff)
  then show ?case
    by (cases "map_of m k") (auto simp: um_defs fun_eq_iff map_add_def split: option.splits)
next
  case (6 m)
  show ?case by (simp add: um_defs finite_dom_map_of)
qed (auto simp: um_defs update_conv' delete_conv' distinct_update distinct_delete 
    map_of_eq_None_iff)

lemmas um_laws [store_simps] = um.find_empty um.find_assign um.find_emplace um.find_erase
  um.contains_find um.size_empty um.size_assign um.size_erase um.wf_empty um.wf_assign
  um.wf_emplace um.wf_erase

text \<open>With distinct keys the order of the pairs does not matter.\<close>

lemma map_of_rev_distinct: "distinct (map fst xs) \<Longrightarrow> map_of (rev xs) = map_of xs"
  by (rule map_of_eqI) (auto simp: map_of_eq_Some_iff rev_map [symmetric])

lemma map_of_rev_zip: "distinct ks \<Longrightarrow> map_of (rev (zip ks vs)) = map_of (zip ks vs)"
  by (rule map_of_rev_distinct) (simp add: map_fst_zip_take)

end
