(* ===== verification/Proto_Messages.thy ===== *)
theory Proto_Messages
  imports Hash_Map
begin

text \<open>
  The messages of the protocol, from the schema \<^verbatim>\<open>protocol/proto/v1/messages.proto\<close>
  (aliased in \<^verbatim>\<open>include/mqss/protocol/ProtoProtocol.hpp\<close>). An \<^verbatim>\<open>int32\<close> field is a 32-bit word
  read with \<^term>\<open>sint\<close>, a message with one field is that field, a \<^verbatim>\<open>oneof\<close> is a datatype with a constructor for the unset case, a map
  field is an \<^typ>\<open>('k, 'v) umap\<close>. \<open>pb_value\<close> and \<open>Struct\<close> are the JSON-like values of the
  imported \<^verbatim>\<open>google/protobuf/struct.proto\<close>.
\<close>

datatype pb_value =
    KindNotSet
  | NullValue
  | NumberValue double
  | StringValue string
  | BoolValue bool
  | StructValue "(string \<times> pb_value) list"
  | ListValue "pb_value list"

type_synonym Struct = "(string, pb_value) umap"

record QuantumTask =
  qt_task_id :: int32
  qt_n_qbits :: int32
  qt_n_shots :: int32
  qt_circuit_files :: "string list"
  qt_circuit_file_type :: string
  qt_result_destination :: string
  qt_preferred_qpu :: string
  qt_scheduled_qpu :: string
  qt_priority :: int32
  qt_optimisation_level :: int32
  qt_no_modify :: bool
  qt_transpiler_flag :: bool
  qt_result_type :: int32
  qt_submit_time :: string
  qt_circuits_qiskit :: "pb_value list"
  qt_additional_information :: string
  qt_restricted_resource_names :: "string list"
  qt_user_identity :: string
  qt_token :: string
  qt_via_hpc :: bool

definition QuantumTask_default :: QuantumTask where
  "QuantumTask_default = \<lparr>
     qt_task_id = 0, qt_n_qbits = 0, qt_n_shots = 0, qt_circuit_files = [],
     qt_circuit_file_type = [], qt_result_destination = [], qt_preferred_qpu = [],
     qt_scheduled_qpu = [], qt_priority = 0, qt_optimisation_level = 0, qt_no_modify = False,
     qt_transpiler_flag = False, qt_result_type = 0, qt_submit_time = [], qt_circuits_qiskit = [],
     qt_additional_information = [], qt_restricted_resource_names = [], qt_user_identity = [],
     qt_token = [], qt_via_hpc = False\<rparr>"

type_synonym Counts = "(string, int32) umap"

record CircuitResult =
  counts :: Counts

record QuantumResult =
  qr_task_id :: int32
  qr_results :: "CircuitResult list"
  qr_destination :: string
  qr_execution_status :: bool
  qr_executed_qpu :: string
  qr_executed_circuits :: "string list"
  qr_additional_information :: string
  qr_execution_time :: double

definition QuantumResult_default :: QuantumResult where
  "QuantumResult_default = \<lparr>
     qr_task_id = 0, qr_results = [], qr_destination = [], qr_execution_status = False,
     qr_executed_qpu = [], qr_executed_circuits = [], qr_additional_information = [],
     qr_execution_time = Finite 0\<rparr>"

text \<open>
  The messages by which quantum servers register with a resource manager and report to it. They are part of the
  protocol that the library offers; no program of the repository sends them.
\<close>

record QSRegisterEntry =
  qsr_qpu_name :: string
  qsr_queue_name :: string
  qsr_control_queue_name :: string
  qsr_n_qbits :: int32
  qsr_qpu_type :: int32
  qsr_deregister :: bool

record QSRegistrationInfo =
  qsi_uid :: int32
  qsi_heartbeat_queue :: string
  qsi_heartbeat_interval :: int32
  qsi_deregistered :: bool

datatype QsStatus =
    QS_STATUS_UNSPECIFIED
  | QS_STATUS_INIT
  | QS_STATUS_RUNNING
  | QS_STATUS_MAINTENANCE
  | QS_STATUS_CALIBRATION
  | QS_STATUS_CONNECTION_TIMEOUT

record QHeartBeat =
  qhb_uid :: int32
  qhb_qpu_name :: string
  qhb_queue_name :: string
  qhb_status :: QsStatus
  qhb_queue_length :: int32

record QResourceInfo =
  qri_name :: string
  qri_num_qubits :: int32
  qri_connectivity :: string
  qri_instructions :: string

datatype CircuitFormat =
    CIRCUIT_FORMAT_UNSPECIFIED
  | CIRCUIT_FORMAT_QASM2
  | CIRCUIT_FORMAT_QASM3
  | CIRCUIT_FORMAT_QIR
  | CIRCUIT_FORMAT_QIRBASESTRING
  | CIRCUIT_FORMAT_QIRBASEMODULE
  | CIRCUIT_FORMAT_QIRADAPTIVESTRING
  | CIRCUIT_FORMAT_QIRADAPTIVEMODULE
  | CIRCUIT_FORMAT_CALIBRATION
  | CIRCUIT_FORMAT_QPY
  | CIRCUIT_FORMAT_IQMJSON
  | CIRCUIT_FORMAT_BATCHJOB

datatype BackendType =
    BACKEND_TYPE_UNSPECIFIED
  | BACKEND_TYPE_SUPERCONDUCTING
  | BACKEND_TYPE_TRAPPED_ION
  | BACKEND_TYPE_NEUTRAL_ATOM
  | BACKEND_TYPE_PHOTONIC
  | BACKEND_TYPE_SIMULATOR

datatype BackendStatus =
    BACKEND_STATUS_UNSPECIFIED
  | BACKEND_STATUS_OFFLINE
  | BACKEND_STATUS_IDLE
  | BACKEND_STATUS_BUSY
  | BACKEND_STATUS_ERROR
  | BACKEND_STATUS_MAINTENANCE
  | BACKEND_STATUS_CALIBRATION

record QubitPair =
  qp_qubit1 :: "32 word"
  qp_qubit2 :: "32 word"

text \<open>The load is a \<^verbatim>\<open>float\<close>, whose values are among those of a \<^verbatim>\<open>double\<close>.\<close>

record Backend =
  be_name :: string
  be_num_qubits :: "32 word"
  be_type :: BackendType
  be_status :: BackendStatus
  be_queue_length :: "32 word"
  be_current_load :: double
  be_queue_name :: string
  be_instructions :: "string list"
  be_connectivity :: "QubitPair list"
  be_supported_circuit_formats :: "CircuitFormat list"

record CreateTaskRequest =
  ctr_shots :: int32
  ctr_circuit :: "string list"
  ctr_circuit_format :: string
  ctr_resource_name :: string
  ctr_no_modify :: bool

datatype typed_request =
    TYPED_REQUEST_NOT_SET
  | ReqCreateTask CreateTaskRequest
  | ReqTaskStatus int32
  | ReqTaskResult int32
  | ReqCancelReason int32
  | ReqListResources
  | ReqResourceInfo string
  | ReqPendingTasks string

record APIRequest =
  req_authorization :: string
  req_method :: string
  req_request :: string
  req_data :: Struct
  req_response_queue :: string
  req_typed_request :: typed_request

datatype ApiTaskStatus =
    API_TASK_STATUS_UNSPECIFIED
  | API_TASK_STATUS_WAITING
  | API_TASK_STATUS_COMPLETED
  | API_TASK_STATUS_CANCELLED

record TaskResultResponse =
  trr_result :: "CircuitResult list"
  trr_timestamp_submitted :: string
  trr_timestamp_scheduled :: string
  trr_timestamp_completed :: string

record ResourceInfoResponse =
  rir_name :: string
  rir_num_qubits :: int32
  rir_online :: bool

datatype typed_response =
    TYPED_RESPONSE_NOT_SET
  | RespCreateTask int32
  | RespTaskStatus ApiTaskStatus
  | RespTaskResult TaskResultResponse
  | RespCancelReason string
  | RespResources "string list"
  | RespResourceInfo ResourceInfoResponse
  | RespPendingTasks int32
  | RespError string

record APIResponse =
  resp_response_body :: "Struct option"
  resp_destination_queue :: string
  resp_typed_response :: typed_response

definition APIResponse_default :: APIResponse where
  "APIResponse_default = \<lparr>resp_response_body = None, resp_destination_queue = [],
     resp_typed_response = TYPED_RESPONSE_NOT_SET\<rparr>"

definition APIRequest_default :: APIRequest where
  "APIRequest_default = \<lparr>req_authorization = [], req_method = [], req_request = [], req_data = [],
     req_response_queue = [], req_typed_request = TYPED_REQUEST_NOT_SET\<rparr>"

end
