(* ===== verification/Task_Store.thy ===== *)
theory Task_Store
  imports Proto_Messages
begin

text \<open>
  The task store of QOffload (\<^verbatim>\<open>TaskStore.hpp\<close>, \<^verbatim>\<open>TaskStore.cpp\<close>): pending tasks and completed
  control tasks, each member function one critical section of the store's mutex. The abstract
  specification is a pair of partial maps; the locale \<open>task_store\<close> is the contract that
  forwarding and control handling rely on, interpreted on the member functions.
\<close>

datatype PendingTaskKind = DirectTask | ControlTask

datatype TaskStatus = Waiting | Completed | Cancelled | NotFound

record PendingTask =
  kind :: PendingTaskKind
  forwarded_task_id :: uint64
  original_task_id :: uint64
  original_result_destination :: string

record CompletedControlTask =
  ct_task_id :: uint64
  execution_status :: bool
  result_counts :: "Counts list"
  cancel_reason :: string
  timestamp_scheduled :: string
  timestamp_submitted :: string
  timestamp_completed :: string

definition CompletedControlTask_default :: CompletedControlTask where
  "CompletedControlTask_default = \<lparr>ct_task_id = 0, execution_status = False, result_counts = [],
     cancel_reason = [], timestamp_scheduled = [], timestamp_submitted = [],
     timestamp_completed = []\<rparr>"

record TaskStore =
  pending :: "(uint64, PendingTask) umap"
  completed_control_tasks :: "(uint64, CompletedControlTask) umap"

definition TaskStore_empty :: TaskStore where
  "TaskStore_empty = \<lparr>pending = [], completed_control_tasks = []\<rparr>"

definition addDirectTask :: "PendingTask \<Rightarrow> TaskStore \<Rightarrow> TaskStore" where
  "addDirectTask task s =
     s\<lparr>pending := um_insert_or_assign (forwarded_task_id task) task (pending s)\<rparr>"

definition addControlTask :: "uint64 \<Rightarrow> TaskStore \<Rightarrow> TaskStore" where
  "addControlTask task_id s =
     addDirectTask \<lparr>kind = ControlTask, forwarded_task_id = task_id, original_task_id = task_id,
       original_result_destination = []\<rparr> s"

definition takePending :: "uint64 \<Rightarrow> TaskStore \<Rightarrow> PendingTask option \<times> TaskStore" where
  "takePending task_id s =
     (case um_find (pending s) task_id of
        None \<Rightarrow> (None, s)
      | Some task \<Rightarrow> (Some task, s\<lparr>pending := um_erase task_id (pending s)\<rparr>))"

definition status :: "uint64 \<Rightarrow> TaskStore \<Rightarrow> TaskStatus" where
  "status task_id s =
     (if um_contains (pending s) task_id then Waiting
      else case um_find (completed_control_tasks s) task_id of
          None \<Rightarrow> NotFound
        | Some completed \<Rightarrow> if execution_status completed then Completed else Cancelled)"

definition pendingCount :: "TaskStore \<Rightarrow> uint64" where
  "pendingCount s = of_nat (um_size (pending s))"

definition storeCompletedControlTask :: "CompletedControlTask \<Rightarrow> TaskStore \<Rightarrow> TaskStore" where
  "storeCompletedControlTask result s =
     s\<lparr>completed_control_tasks :=
         um_insert_or_assign (ct_task_id result) result (completed_control_tasks s)\<rparr>"

definition takeCompletedControlTask ::
  "uint64 \<Rightarrow> TaskStore \<Rightarrow> CompletedControlTask option \<times> TaskStore" where
  "takeCompletedControlTask task_id s =
     (case um_find (completed_control_tasks s) task_id of
        None \<Rightarrow> (None, s)
      | Some result \<Rightarrow>
          (Some result, s\<lparr>completed_control_tasks := um_erase task_id (completed_control_tasks s)\<rparr>))"

lemmas [op_defs] = addDirectTask_def addControlTask_def takePending_def status_def pendingCount_def
  storeCompletedControlTask_def takeCompletedControlTask_def

text \<open>The abstract store: what is pending and what is completed, as partial maps.\<close>

definition pending_map :: "TaskStore \<Rightarrow> uint64 \<Rightarrow> PendingTask option" where
  "pending_map s = um_find (pending s)"

definition completed_map :: "TaskStore \<Rightarrow> uint64 \<Rightarrow> CompletedControlTask option" where
  "completed_map s = um_find (completed_control_tasks s)"

definition store_wf :: "TaskStore \<Rightarrow> bool" where
  "store_wf s \<longleftrightarrow> um_wf (pending s) \<and> um_wf (completed_control_tasks s) \<and>
     (\<forall>k p. pending_map s k = Some p \<longrightarrow> forwarded_task_id p = k) \<and>
     (\<forall>k c. completed_map s k = Some c \<longrightarrow> ct_task_id c = k)"

definition control_entry :: "uint64 \<Rightarrow> PendingTask" where
  "control_entry k = \<lparr>kind = ControlTask, forwarded_task_id = k, original_task_id = k,
     original_result_destination = []\<rparr>"

text \<open>The status a client sees, as a function of the two maps.\<close>

definition abstract_status ::
  "(uint64 \<Rightarrow> PendingTask option) \<Rightarrow> (uint64 \<Rightarrow> CompletedControlTask option) \<Rightarrow> uint64 \<Rightarrow> TaskStatus" where
  "abstract_status P C k =
     (if P k \<noteq> None then Waiting
      else case C k of None \<Rightarrow> NotFound
        | Some c \<Rightarrow> if execution_status c then Completed else Cancelled)"

text \<open>
  Sequences of calls. Every member function holds the mutex for its whole body, so what
  concurrent callers observe is one such sequence.
\<close>

datatype store_op =
    OpAddDirect PendingTask
  | OpAddControl uint64
  | OpTakePending uint64
  | OpStatus uint64
  | OpPendingCount
  | OpStoreCompleted CompletedControlTask
  | OpTakeCompleted uint64

datatype store_out =
    OutVoid
  | OutPending "PendingTask option"
  | OutStatus TaskStatus
  | OutCount uint64
  | OutCompleted "CompletedControlTask option"

fun store_call :: "store_op \<Rightarrow> TaskStore \<Rightarrow> store_out \<times> TaskStore" where
  "store_call (OpAddDirect p) s = (OutVoid, addDirectTask p s)"
| "store_call (OpAddControl k) s = (OutVoid, addControlTask k s)"
| "store_call (OpTakePending k) s = (let (r, s') = takePending k s in (OutPending r, s'))"
| "store_call (OpStatus k) s = (OutStatus (status k s), s)"
| "store_call OpPendingCount s = (OutCount (pendingCount s), s)"
| "store_call (OpStoreCompleted c) s = (OutVoid, storeCompletedControlTask c s)"
| "store_call (OpTakeCompleted k) s =
     (let (r, s') = takeCompletedControlTask k s in (OutCompleted r, s'))"

type_synonym abstract_store =
  "(uint64 \<Rightarrow> PendingTask option) \<times> (uint64 \<Rightarrow> CompletedControlTask option)"

fun abstract_call :: "store_op \<Rightarrow> abstract_store \<Rightarrow> store_out \<times> abstract_store" where
  "abstract_call (OpAddDirect p) (P, C) = (OutVoid, P(forwarded_task_id p \<mapsto> p), C)"
| "abstract_call (OpAddControl k) (P, C) = (OutVoid, P(k \<mapsto> control_entry k), C)"
| "abstract_call (OpTakePending k) (P, C) = (OutPending (P k), P(k := None), C)"
| "abstract_call (OpStatus k) (P, C) = (OutStatus (abstract_status P C k), P, C)"
| "abstract_call OpPendingCount (P, C) = (OutCount (of_nat (card (dom P))), P, C)"
| "abstract_call (OpStoreCompleted c) (P, C) = (OutVoid, P, C(ct_task_id c \<mapsto> c))"
| "abstract_call (OpTakeCompleted k) (P, C) = (OutCompleted (C k), P, C(k := None))"

fun run_calls :: "('o \<Rightarrow> 's \<Rightarrow> 'r \<times> 's) \<Rightarrow> 'o list \<Rightarrow> 's \<Rightarrow> 'r list \<times> 's" where
  "run_calls f [] s = ([], s)"
| "run_calls f (c # cs) s =
     (let (r, s1) = f c s; (rs, s2) = run_calls f cs s1 in (r # rs, s2))"

definition abs_store :: "TaskStore \<Rightarrow> abstract_store" where
  "abs_store s = (pending_map s, completed_map s)"

locale task_store =
  fixes add_direct :: "PendingTask \<Rightarrow> 's \<Rightarrow> 's"
    and add_control :: "uint64 \<Rightarrow> 's \<Rightarrow> 's"
    and take_pending :: "uint64 \<Rightarrow> 's \<Rightarrow> PendingTask option \<times> 's"
    and status_of :: "uint64 \<Rightarrow> 's \<Rightarrow> TaskStatus"
    and pending_count :: "'s \<Rightarrow> uint64"
    and store_completed :: "CompletedControlTask \<Rightarrow> 's \<Rightarrow> 's"
    and take_completed :: "uint64 \<Rightarrow> 's \<Rightarrow> CompletedControlTask option \<times> 's"
    and P :: "'s \<Rightarrow> uint64 \<Rightarrow> PendingTask option"
    and C :: "'s \<Rightarrow> uint64 \<Rightarrow> CompletedControlTask option"
    and wf :: "'s \<Rightarrow> bool"
  assumes add_direct_maps: "P (add_direct p s) = (P s)(forwarded_task_id p \<mapsto> p)"
      "C (add_direct p s) = C s"
    and add_control_maps: "P (add_control k s) = (P s)(k \<mapsto> control_entry k)"
      "C (add_control k s) = C s"
    and take_pending_result: "fst (take_pending k s) = P s k"
    and take_pending_maps: "P (snd (take_pending k s)) = (P s)(k := None)"
      "C (snd (take_pending k s)) = C s"
    and status_maps: "status_of k s = abstract_status (P s) (C s) k"
    and count_maps: "wf s \<Longrightarrow> pending_count s = of_nat (card (dom (P s)))"
    and store_completed_maps: "P (store_completed c s) = P s"
      "C (store_completed c s) = (C s)(ct_task_id c \<mapsto> c)"
    and take_completed_result: "fst (take_completed k s) = C s k"
    and take_completed_maps: "P (snd (take_completed k s)) = P s"
      "C (snd (take_completed k s)) = (C s)(k := None)"
    and wf_keys: "wf s \<Longrightarrow> P s k = Some p \<Longrightarrow> forwarded_task_id p = k"
      "wf s \<Longrightarrow> C s k = Some c \<Longrightarrow> ct_task_id c = k"
    and wf_ops: "wf s \<Longrightarrow> wf (add_direct p s)" "wf s \<Longrightarrow> wf (add_control k s)"
      "wf s \<Longrightarrow> wf (snd (take_pending k s))" "wf s \<Longrightarrow> wf (store_completed c s)"
      "wf s \<Longrightarrow> wf (snd (take_completed k s))"
begin

lemmas maps = add_direct_maps add_control_maps take_pending_result take_pending_maps
  store_completed_maps take_completed_result take_completed_maps

lemma take_pending_Some:
  assumes "P s k = Some p"
  obtains s1 where "take_pending k s = (Some p, s1)" "P s1 = (P s)(k := None)" "C s1 = C s"
    "wf s \<longrightarrow> wf s1"
  using assms take_pending_result [of k s] take_pending_maps [of k s] wf_ops(3) [of s k]
  by (cases "take_pending k s") auto

text \<open>A registered task is handed out once.\<close>

lemma take_once: "fst (take_pending k (snd (take_pending k s))) = None"
  by (simp add: maps)

lemma fetch_once: "fst (take_completed k (snd (take_completed k s))) = None"
  by (simp add: maps)

lemma take_other: "k \<noteq> k' \<Longrightarrow> fst (take_pending k (snd (take_pending k' s))) = fst (take_pending k s)"
  by (simp add: maps)

lemma status_waiting_iff: "status_of k s = Waiting \<longleftrightarrow> P s k \<noteq> None"
  by (auto simp: status_maps abstract_status_def split: option.splits)

lemma status_not_found_iff: "status_of k s = NotFound \<longleftrightarrow> P s k = None \<and> C s k = None"
  by (auto simp: status_maps abstract_status_def split: option.splits)

text \<open>The life of a control task: waiting, completed or cancelled, gone once fetched.\<close>

lemma control_life_cycle:
  assumes "ct_task_id c = k" and "C s k = None"
  defines "s1 \<equiv> add_control k s"
    and "s2 \<equiv> store_completed c (snd (take_pending k (add_control k s)))"
  shows "status_of k s1 = Waiting"
    and "fst (take_pending k s1) = Some (control_entry k)"
    and "status_of k s2 = (if execution_status c then Completed else Cancelled)"
    and "fst (take_completed k s2) = Some c"
    and "status_of k (snd (take_completed k s2)) = NotFound"
  using assms(1,2) by (simp_all add: s1_def s2_def status_maps abstract_status_def maps)

end

lemmas store_maps_defs = pending_map_def completed_map_def

interpretation ts: task_store addDirectTask addControlTask takePending status pendingCount
  storeCompletedControlTask takeCompletedControlTask pending_map completed_map store_wf
proof (unfold_locales, goal_cases)
  case (9 s)
  then show ?case
    by (simp add: pendingCount_def store_maps_defs store_wf_def um.size_card)
qed (auto simp: op_defs store_maps_defs store_wf_def control_entry_def abstract_status_def um_laws
    split: option.splits)

lemmas store_laws [store_simps] = ts.maps ts.wf_ops ts.status_waiting_iff ts.status_not_found_iff

lemma store_wf_empty [simp]: "store_wf TaskStore_empty"
  by (simp add: store_wf_def TaskStore_empty_def store_maps_defs um_laws)

lemma maps_empty [simp]: "pending_map TaskStore_empty = Map.empty"
  "completed_map TaskStore_empty = Map.empty"
  by (simp_all add: TaskStore_empty_def store_maps_defs um_laws)

section \<open>Refinement\<close>

lemma store_call_refines:
  assumes "store_wf s" and "store_call c s = (r, s')"
  shows "abstract_call c (abs_store s) = (r, abs_store s') \<and> store_wf s'"
proof (cases c)
  case (OpTakePending k)
  then show ?thesis
    using assms ts.maps(5-7) [of k s] ts.wf_ops(3) [of s k]
    by (auto simp: abs_store_def split: prod.splits)
next
  case (OpTakeCompleted k)
  then show ?thesis
    using assms ts.maps(10-12) [of k s] ts.wf_ops(5) [of s k]
    by (auto simp: abs_store_def split: prod.splits)
qed (use assms in \<open>auto simp: abs_store_def ts.maps ts.wf_ops ts.status_maps ts.count_maps\<close>)

lemma store_run_refines:
  assumes "store_wf s"
  shows "run_calls abstract_call cs (abs_store s) =
    (fst (run_calls store_call cs s), abs_store (snd (run_calls store_call cs s))) \<and>
    store_wf (snd (run_calls store_call cs s))"
  using assms
proof (induction cs arbitrary: s)
  case (Cons c cs)
  obtain r s' where c: "store_call c s = (r, s')" by (cases "store_call c s")
  with Cons.prems have "abstract_call c (abs_store s) = (r, abs_store s')" "store_wf s'"
    by (auto dest: store_call_refines)
  with Cons.IH [of s'] c show ?case by (auto split: prod.splits)
qed simp

section \<open>Properties\<close>

text \<open>
  C15: the store refines its specification. For every sequence of calls on a new store, each call
  returns exactly what it returns on a pair of partial maps (pending tasks by forwarded id,
  completed control tasks by id); in particular a task is handed out at most once per
  registration and the pending count is the number of pending ids.
\<close>

theorem task_store_refinement:
  "fst (run_calls store_call cs TaskStore_empty) =
   fst (run_calls abstract_call cs (Map.empty, Map.empty))"
  using store_run_refines [OF store_wf_empty, of cs] by (simp add: abs_store_def)

text \<open>
  The store invariant. After any sequence of calls on a new store the containers hold one
  entry per key, every pending entry is filed under its forwarded id and every completed entry
  under its task id.
\<close>

theorem task_store_invariant:
  "store_wf (snd (run_calls store_call cs TaskStore_empty))"
  using store_run_refines [OF store_wf_empty, of cs] by simp

text \<open>
  The life cycle of a control task. From its registration a task is reported as waiting;
  when its result is taken over it is completed or cancelled according to the execution status;
  the stored result can be fetched once, and after that the task is not found.
\<close>

theorem control_task_life_cycle:
  assumes "ct_task_id c = k" and "completed_map s k = None"
  shows "let s1 = addControlTask k s; s2 = storeCompletedControlTask c (snd (takePending k s1));
             s3 = snd (takeCompletedControlTask k s2)
         in status k s1 = Waiting \<and>
            status k s2 = (if execution_status c then Completed else Cancelled) \<and>
            fst (takeCompletedControlTask k s2) = Some c \<and>
            status k s3 = NotFound \<and> fst (takeCompletedControlTask k s3) = None"
  unfolding Let_def using ts.control_life_cycle [OF assms] ts.fetch_once by auto

theorem control_task_life_cycle_witness:
  "completed_map TaskStore_empty 7 = None \<and>
   status 7 (storeCompletedControlTask
      (CompletedControlTask_default\<lparr>ct_task_id := 7, execution_status := True\<rparr>)
      (snd (takePending 7 (addControlTask 7 TaskStore_empty)))) = Completed"
  using control_task_life_cycle
    [of "CompletedControlTask_default\<lparr>ct_task_id := 7, execution_status := True\<rparr>" 7 TaskStore_empty]
  by (simp add: Let_def)

end
