(* ===== verification/Forward.thy ===== *)
theory Forward
  imports Task_Store
begin

text \<open>
  Task forwarding and result correlation (\<^verbatim>\<open>Forward.hpp\<close>, \<^verbatim>\<open>Forward.cpp\<close>). The two settings of
  the configuration that the component reads, the result queue and the HPC policy, are a record
  of their own here; the configuration theory builds it from the whole configuration.
\<close>

record forward_config =
  fc_result_queue :: string
  fc_hpc_node :: bool

datatype ResultProcessingKind = UnknownTask | DirectResult | ControlResultStored

record ResultProcessingOutcome =
  outcome_kind :: ResultProcessingKind
  direct_result :: "QuantumResult option"
  direct_result_destination :: string

record Forward =
  instance_uid :: uint64
  next_task_index :: uint64

definition Forward_init :: "uint64 \<Rightarrow> Forward" where
  "Forward_init uid = \<lparr>instance_uid = uid, next_task_index = 0\<rparr>"

text \<open>\<^verbatim>\<open>fetch_add\<close> and the product wrap around at 64 bits.\<close>

definition nextTaskId :: "Forward \<Rightarrow> uint64 \<times> Forward" where
  "nextTaskId f =
     (next_task_index f * 10000 + instance_uid f, f\<lparr>next_task_index := next_task_index f + 1\<rparr>)"

definition forwardDirectTask ::
  "QuantumTask \<Rightarrow> forward_config \<Rightarrow> Forward \<Rightarrow> TaskStore \<Rightarrow> QuantumTask \<times> Forward \<times> TaskStore" where
  "forwardDirectTask request config f tasks =
     (let (forwarded_id, f') = nextTaskId f;
          forwarded = request\<lparr>qt_task_id := to_int32 forwarded_id,
            qt_result_destination := fc_result_queue config\<rparr>;
          forwarded = (if fc_hpc_node config then forwarded\<lparr>qt_priority := 1\<rparr> else forwarded);
          tasks' = addDirectTask
            \<lparr>kind = DirectTask, forwarded_task_id = forwarded_id,
             original_task_id = to_uint64 (qt_task_id request),
             original_result_destination = qt_result_destination request\<rparr> tasks
      in (forwarded, f', tasks'))"

definition createControlTask ::
  "QuantumTask \<Rightarrow> forward_config \<Rightarrow> Forward \<Rightarrow> TaskStore \<Rightarrow> QuantumTask \<times> Forward \<times> TaskStore" where
  "createControlTask task config f tasks =
     (let (task_id, f') = nextTaskId f;
          task = task\<lparr>qt_task_id := to_int32 task_id,
            qt_result_destination := fc_result_queue config\<rparr>;
          task = (if fc_hpc_node config then task\<lparr>qt_priority := 1\<rparr> else task);
          tasks' = addControlTask task_id tasks
      in (task, f', tasks'))"

text \<open>The inner loops of \<^verbatim>\<open>processResult\<close> over the circuit results and their counts.\<close>

definition copy_counts :: "CircuitResult \<Rightarrow> Counts" where
  "copy_counts cr = foldl (\<lambda>m (k, v). um_emplace k v m) [] (counts cr)"

definition completed_task :: "PendingTask \<Rightarrow> QuantumResult \<Rightarrow> CompletedControlTask" where
  "completed_task p result = CompletedControlTask_default
     \<lparr>ct_task_id := original_task_id p, execution_status := qr_execution_status result,
      result_counts := map copy_counts (qr_results result)\<rparr>"

definition processResult ::
  "QuantumResult \<Rightarrow> TaskStore \<Rightarrow> ResultProcessingOutcome \<times> TaskStore" where
  "processResult result tasks =
     (let forwarded_id = to_uint64 (qr_task_id result);
          (pending, tasks1) = takePending forwarded_id tasks
      in case pending of
           None \<Rightarrow> (\<lparr>outcome_kind = UnknownTask, direct_result = None,
                     direct_result_destination = []\<rparr>, tasks1)
         | Some p \<Rightarrow>
             (if kind p = ControlTask
              then (\<lparr>outcome_kind = ControlResultStored, direct_result = None,
                     direct_result_destination = []\<rparr>,
                    storeCompletedControlTask (completed_task p result) tasks1)
              else (\<lparr>outcome_kind = DirectResult,
                     direct_result = Some (result\<lparr>qr_task_id := to_int32 (original_task_id p),
                       qr_destination := original_result_destination p\<rparr>),
                     direct_result_destination = original_result_destination p\<rparr>, tasks1)))"

text \<open>The identifier of the \<open>i\<close>-th task of an instance, before it is cut to 32 bits.\<close>

definition task_id_at :: "uint64 \<Rightarrow> nat \<Rightarrow> uint64" where
  "task_id_at uid i = of_nat i * 10000 + uid"

section \<open>Identifiers\<close>

lemma nextTaskId_simps [simp]:
  "fst (nextTaskId f) = next_task_index f * 10000 + instance_uid f"
  "instance_uid (snd (nextTaskId f)) = instance_uid f"
  "next_task_index (snd (nextTaskId f)) = next_task_index f + 1"
  by (simp_all add: nextTaskId_def)

lemma unat_task_id_at:
  assumes "i * 10000 + unat uid < 2 ^ 64"
  shows "unat (task_id_at uid i) = i * 10000 + unat uid"
proof -
  have "task_id_at uid i = of_nat (i * 10000 + unat uid)"
    by (simp add: task_id_at_def)
  then have "unat (task_id_at uid i) = take_bit 64 (i * 10000 + unat uid)"
    by (simp only: unsigned_of_nat) simp
  then show ?thesis using assms by (simp only: take_bit_nat_eq_self)
qed

lemma task_id_at_inject:
  assumes "i * 10000 + unat uid < 2 ^ 64" and "j * 10000 + unat uid < 2 ^ 64"
  shows "task_id_at uid i = task_id_at uid j \<longleftrightarrow> i = j"
proof
  assume "task_id_at uid i = task_id_at uid j"
  then have "unat (task_id_at uid i) = unat (task_id_at uid j)" by simp
  then show "i = j"
    using unat_task_id_at [OF assms(1)] unat_task_id_at [OF assms(2)] by simp
qed simp

lemma fits_task_id_at:
  assumes "i * 10000 + unat uid < 2 ^ 31"
  shows "fits_int32 (task_id_at uid i)"
  using assms unat_task_id_at [of i uid] by (simp add: fits_int32_def)

section \<open>Lemmas on the operations\<close>

lemma forwardDirectTask_eqs:
  assumes "forwardDirectTask request config f tasks = (fwd, f', tasks')"
  defines "k \<equiv> fst (nextTaskId f)"
  shows "f' = snd (nextTaskId f)"
    and "fwd = (if fc_hpc_node config then \<lambda>t. t\<lparr>qt_priority := 1\<rparr> else id)
           (request\<lparr>qt_task_id := to_int32 k, qt_result_destination := fc_result_queue config\<rparr>)"
    and "pending_map tasks' = (pending_map tasks)(k \<mapsto>
           \<lparr>kind = DirectTask, forwarded_task_id = k,
            original_task_id = to_uint64 (qt_task_id request),
            original_result_destination = qt_result_destination request\<rparr>)"
    and "completed_map tasks' = completed_map tasks"
    and "store_wf tasks \<Longrightarrow> store_wf tasks'"
  using assms
  by (auto simp: forwardDirectTask_def nextTaskId_def Let_def ts.maps ts.wf_ops)

lemma createControlTask_eqs:
  assumes "createControlTask task config f tasks = (fwd, f', tasks')"
  defines "k \<equiv> fst (nextTaskId f)"
  shows "f' = snd (nextTaskId f)"
    and "fwd = (if fc_hpc_node config then \<lambda>t. t\<lparr>qt_priority := 1\<rparr> else id)
           (task\<lparr>qt_task_id := to_int32 k, qt_result_destination := fc_result_queue config\<rparr>)"
    and "pending_map tasks' = (pending_map tasks)(k \<mapsto> control_entry k)"
    and "completed_map tasks' = completed_map tasks"
    and "store_wf tasks \<Longrightarrow> store_wf tasks'"
  using assms
  by (auto simp: createControlTask_def nextTaskId_def Let_def ts.maps ts.wf_ops)

lemma qt_task_id_prio [simp]:
  "qt_task_id ((if b then \<lambda>t. t\<lparr>qt_priority := 1\<rparr> else id) t) = qt_task_id t"
  "qt_result_destination ((if b then \<lambda>t. t\<lparr>qt_priority := 1\<rparr> else id) t) = qt_result_destination t"
  by auto

lemma copy_counts_find [simp]: "um_find (copy_counts cr) = um_find (counts cr)"
  using um.fill_emplace [of "[]" "counts cr"]
  by (simp add: copy_counts_def um.find_empty) (simp add: um_find_def)

lemma copy_counts_wf [simp]: "um_wf (copy_counts cr)"
  by (simp add: copy_counts_def um.wf_fill_emplace um.wf_empty)

lemma ct_task_id_completed_task [simp]: "ct_task_id (completed_task p r) = original_task_id p"
  by (simp add: completed_task_def)

lemma execution_status_completed_task [simp]:
  "execution_status (completed_task p r) = qr_execution_status r"
  by (simp add: completed_task_def)

text \<open>The three branches of \<^verbatim>\<open>processResult\<close>, in terms of the abstract maps.\<close>

lemma processResult_unknown:
  "pending_map tasks (to_uint64 (qr_task_id r)) = None \<Longrightarrow>
   processResult r tasks =
     (\<lparr>outcome_kind = UnknownTask, direct_result = None, direct_result_destination = []\<rparr>, tasks)"
  by (simp add: processResult_def takePending_def pending_map_def)

lemma processResult_direct:
  assumes "pending_map tasks (to_uint64 (qr_task_id r)) = Some p" and "kind p = DirectTask"
  shows "\<exists>tasks'. processResult r tasks =
      (\<lparr>outcome_kind = DirectResult,
        direct_result = Some (r\<lparr>qr_task_id := to_int32 (original_task_id p),
          qr_destination := original_result_destination p\<rparr>),
        direct_result_destination = original_result_destination p\<rparr>, tasks') \<and>
    pending_map tasks' = (pending_map tasks)(to_uint64 (qr_task_id r) := None) \<and>
    completed_map tasks' = completed_map tasks \<and> (store_wf tasks \<longrightarrow> store_wf tasks')"
proof -
  obtain tasks1 where "takePending (to_uint64 (qr_task_id r)) tasks = (Some p, tasks1)"
    "pending_map tasks1 = (pending_map tasks)(to_uint64 (qr_task_id r) := None)"
    "completed_map tasks1 = completed_map tasks" "store_wf tasks \<longrightarrow> store_wf tasks1"
    using assms(1) by (rule ts.take_pending_Some)
  with assms(2) show ?thesis
    by (auto simp: processResult_def Let_def ts.maps ts.wf_ops)
qed

lemma processResult_control:
  assumes "pending_map tasks (to_uint64 (qr_task_id r)) = Some p" and "kind p = ControlTask"
  shows "\<exists>tasks'. processResult r tasks =
      (\<lparr>outcome_kind = ControlResultStored, direct_result = None,
        direct_result_destination = []\<rparr>, tasks') \<and>
    pending_map tasks' = (pending_map tasks)(to_uint64 (qr_task_id r) := None) \<and>
    completed_map tasks' = (completed_map tasks)(original_task_id p \<mapsto> completed_task p r) \<and>
    (store_wf tasks \<longrightarrow> store_wf tasks')"
proof -
  obtain tasks1 where "takePending (to_uint64 (qr_task_id r)) tasks = (Some p, tasks1)"
    "pending_map tasks1 = (pending_map tasks)(to_uint64 (qr_task_id r) := None)"
    "completed_map tasks1 = completed_map tasks" "store_wf tasks \<longrightarrow> store_wf tasks1"
    using assms(1) by (rule ts.take_pending_Some)
  with assms(2) show ?thesis
    by (auto simp: processResult_def Let_def ts.maps ts.wf_ops)
qed

text \<open>\<^verbatim>\<open>processResult\<close> only ever removes the entry of the result's own id.\<close>

lemma processResult_pending:
  "pending_map (snd (processResult r tasks)) =
   (pending_map tasks)(to_uint64 (qr_task_id r) := None)"
proof (cases "pending_map tasks (to_uint64 (qr_task_id r))")
  case None
  then show ?thesis by (simp add: processResult_unknown fun_upd_idem)
next
  case (Some p)
  then show ?thesis
    using processResult_direct [OF Some] processResult_control [OF Some]
    by (cases "kind p") auto
qed

text \<open>The result of a forwarded task finds the client's entry.\<close>

lemma forwarded_result:
  assumes "fits_int32 (fst (nextTaskId f))"
    and "forwardDirectTask request config f tasks = (fwd, f', tasks')"
    and "qr_task_id result = qt_task_id fwd"
  shows "\<exists>tasks''. processResult result tasks' =
      (\<lparr>outcome_kind = DirectResult,
        direct_result = Some (result\<lparr>qr_task_id := qt_task_id request,
          qr_destination := qt_result_destination request\<rparr>),
        direct_result_destination = qt_result_destination request\<rparr>, tasks'') \<and>
    pending_map tasks'' = (pending_map tasks)(fst (nextTaskId f) := None) \<and>
    completed_map tasks'' = completed_map tasks"
proof -
  note eqs = forwardDirectTask_eqs [OF assms(2)]
  let ?p = "\<lparr>kind = DirectTask, forwarded_task_id = fst (nextTaskId f),
    original_task_id = to_uint64 (qt_task_id request),
    original_result_destination = qt_result_destination request\<rparr>"
  have id: "to_uint64 (qr_task_id result) = fst (nextTaskId f)"
    using assms(1,3) eqs(2) by (simp add: to_uint64_to_int32)
  then have "pending_map tasks' (to_uint64 (qr_task_id result)) = Some ?p"
    using eqs(3) by simp
  from processResult_direct [OF this] show ?thesis
    using id eqs(3,4) by auto
qed

section \<open>Properties\<close>

text \<open>
  C19: a direct task comes back to its client. If the identifier assigned by QOffload is below
  \<open>2 ^ 31\<close>, the result that carries the identifier of the forwarded task is delivered as a direct
  result, with the client's own task id and result queue restored and everything else unchanged;
  the mapping is consumed and every other mapping is kept.
\<close>

theorem direct_task_roundtrip:
  assumes "fits_int32 (fst (nextTaskId f))"
    and "forwardDirectTask request config f tasks = (fwd, f', tasks')"
    and "qr_task_id result = qt_task_id fwd"
  shows "\<exists>tasks''. processResult result tasks' =
      (\<lparr>outcome_kind = DirectResult,
        direct_result = Some (result\<lparr>qr_task_id := qt_task_id request,
          qr_destination := qt_result_destination request\<rparr>),
        direct_result_destination = qt_result_destination request\<rparr>, tasks'') \<and>
    pending_map tasks'' = (pending_map tasks)(fst (nextTaskId f) := None) \<and>
    completed_map tasks'' = completed_map tasks"
  using assms by (rule forwarded_result)

theorem direct_task_roundtrip_witness:
  "fits_int32 (fst (nextTaskId (Forward_init 11))) \<and>
   outcome_kind (fst (processResult (QuantumResult_default\<lparr>qr_task_id := 11\<rparr>)
     (snd (snd (forwardDirectTask
        (QuantumTask_default\<lparr>qt_task_id := 1234, qt_result_destination := ''client''\<rparr>)
        \<lparr>fc_result_queue = ''results'', fc_hpc_node = True\<rparr> (Forward_init 11) TaskStore_empty)))))
   = DirectResult"
proof -
  let ?req = "QuantumTask_default\<lparr>qt_task_id := 1234, qt_result_destination := ''client''\<rparr>"
  let ?cfg = "\<lparr>fc_result_queue = ''results'', fc_hpc_node = True\<rparr>"
  obtain fwd f' tasks' where
    fwd: "forwardDirectTask ?req ?cfg (Forward_init 11) TaskStore_empty = (fwd, f', tasks')"
    by (metis prod_cases3)
  have fits: "fits_int32 (fst (nextTaskId (Forward_init 11)))"
    by (simp add: Forward_init_def fits_int32_def)
  have "qr_task_id (QuantumResult_default\<lparr>qr_task_id := 11\<rparr>) = qt_task_id fwd"
    using forwardDirectTask_eqs(2) [OF fwd] by (simp add: Forward_init_def to_int32_def)
  from direct_task_roundtrip [OF fits fwd this] fits fwd show ?thesis by auto
qed

text \<open>
  C36: where that bound fails, the result is lost. The protobuf task id has 32 bits and the
  lookup sign-extends it, so when the 64-bit identifier does not survive the two conversions
  (this holds from \<open>2 ^ 31\<close> on, for example) and its 32-bit image is not pending itself, the
  result of the task is reported as unknown and the task stays pending.
\<close>

theorem direct_result_lost:
  assumes "to_uint64 (to_int32 (fst (nextTaskId f))) \<noteq> fst (nextTaskId f)"
    and "pending_map tasks (to_uint64 (to_int32 (fst (nextTaskId f)))) = None"
    and "forwardDirectTask request config f tasks = (fwd, f', tasks')"
    and "qr_task_id result = qt_task_id fwd"
  shows "outcome_kind (fst (processResult result tasks')) = UnknownTask \<and>
    status (fst (nextTaskId f)) (snd (processResult result tasks')) = Waiting"
proof -
  note eqs = forwardDirectTask_eqs [OF assms(3)]
  have "to_uint64 (qr_task_id result) = to_uint64 (to_int32 (fst (nextTaskId f)))"
    using assms(4) eqs(2) by simp
  then have "pending_map tasks' (to_uint64 (qr_task_id result)) = None"
    using assms(1,2) eqs(3) by simp
  from processResult_unknown [OF this] show ?thesis
    using eqs(3) by (simp add: ts.status_waiting_iff)
qed

theorem direct_result_lost_witness:
  "\<exists>f. next_task_index f = 214749 \<and> instance_uid f = 0 \<and>
     outcome_kind (fst (processResult (QuantumResult_default\<lparr>qr_task_id := - 2147477296\<rparr>)
       (snd (snd (forwardDirectTask QuantumTask_default
          \<lparr>fc_result_queue = ''results'', fc_hpc_node = False\<rparr> f TaskStore_empty))))) = UnknownTask"
proof -
  let ?f = "\<lparr>instance_uid = 0, next_task_index = 214749\<rparr>"
  let ?cfg = "\<lparr>fc_result_queue = ''results'', fc_hpc_node = False\<rparr>"
  obtain fwd f' tasks' where
    fwd: "forwardDirectTask QuantumTask_default ?cfg ?f TaskStore_empty = (fwd, f', tasks')"
    by (metis prod_cases3)
  have neq: "to_uint64 (to_int32 (fst (nextTaskId ?f))) \<noteq> fst (nextTaskId ?f)"
    by (simp add: to_uint64_def to_int32_def)
  have "qr_task_id (QuantumResult_default\<lparr>qr_task_id := - 2147477296\<rparr>) = qt_task_id fwd"
    using forwardDirectTask_eqs(2) [OF fwd] by (simp add: to_int32_def)
  from direct_result_lost [OF neq _ fwd this] fwd show ?thesis
    by (intro exI [of _ ?f]) auto
qed

text \<open>
  A control task is completed by its result. If the assigned identifier is below \<open>2 ^ 31\<close>,
  the result that carries the identifier of the forwarded task is stored under that identifier,
  with its execution status and, for each circuit, the same counts; the task's status changes from
  waiting to completed or cancelled.
\<close>

lemma control_task_roundtrip:
  assumes "fits_int32 (fst (nextTaskId f))"
    and "createControlTask task config f tasks = (fwd, f', tasks')"
    and "qr_task_id result = qt_task_id fwd"
  shows "status (fst (nextTaskId f)) tasks' = Waiting \<and>
    (\<exists>tasks'' c. processResult result tasks' =
      (\<lparr>outcome_kind = ControlResultStored, direct_result = None, direct_result_destination = []\<rparr>,
       tasks'') \<and>
     status (fst (nextTaskId f)) tasks'' =
       (if qr_execution_status result then Completed else Cancelled) \<and>
     fst (takeCompletedControlTask (fst (nextTaskId f)) tasks'') = Some c \<and>
     map um_find (result_counts c) = map (um_find \<circ> counts) (qr_results result))"
proof -
  note eqs = createControlTask_eqs [OF assms(2)]
  let ?k = "fst (nextTaskId f)"
  have id: "to_uint64 (qr_task_id result) = ?k"
    using assms(1,3) eqs(2) by (simp add: to_uint64_to_int32)
  then have "pending_map tasks' (to_uint64 (qr_task_id result)) = Some (control_entry ?k)"
    using eqs(3) by simp
  from processResult_control [OF this] obtain tasks'' where
    t: "processResult result tasks' =
      (\<lparr>outcome_kind = ControlResultStored, direct_result = None, direct_result_destination = []\<rparr>,
       tasks'')"
    "pending_map tasks'' = (pending_map tasks')(?k := None)"
    "completed_map tasks'' = (completed_map tasks')(?k \<mapsto> completed_task (control_entry ?k) result)"
    by (auto simp: id control_entry_def)
  have "status ?k tasks' = Waiting" using eqs(3) by (simp add: ts.status_waiting_iff)
  moreover have "map um_find (result_counts (completed_task (control_entry ?k) result)) =
      map (um_find \<circ> counts) (qr_results result)"
    by (simp add: completed_task_def)
  ultimately show ?thesis
    using t by (auto simp: ts.status_maps abstract_status_def ts.maps)
qed

text \<open>
  Identifiers of different instances do not collide. If both instance uids are below 10000
  (as the factor in the identifier presumes) and no identifier overflows 64 bits, two tasks get
  the same identifier only if they are the same task of the same instance.
\<close>

theorem task_ids_unique:
  assumes "unat u < 10000" and "unat v < 10000"
    and "i * 10000 + unat u < 2 ^ 64" and "j * 10000 + unat v < 2 ^ 64"
    and "task_id_at u i = task_id_at v j"
  shows "i = j \<and> u = v"
proof -
  have "i * 10000 + unat u = j * 10000 + unat v"
    using unat_task_id_at [OF assms(3)] unat_task_id_at [OF assms(4)] assms(5) by simp
  moreover have "(i * 10000 + unat u) div 10000 = i" "(j * 10000 + unat v) div 10000 = j"
    using assms(1,2) by simp_all
  ultimately have "i = j" by metis
  moreover from this and \<open>i * 10000 + unat u = j * 10000 + unat v\<close> have "unat u = unat v" by simp
  ultimately show ?thesis by (simp add: word_unat_eq_iff)
qed

theorem task_ids_unique_witness:
  "unat (11 :: uint64) < 10000 \<and> task_id_at 11 3 = 30011 \<and> task_id_at (11 + 1) 3 \<noteq> task_id_at 11 3 \<and>
   (3 :: nat) = 3 \<and> (11 :: uint64) = 11"
  using task_ids_unique [of 11 11 3 3] by (simp add: task_id_at_def)

text \<open>
  A result is delivered at most once and only its own task is touched. After a result has
  been processed, a second copy of it is unknown and changes nothing, and every other pending task
  is still pending.
\<close>

theorem result_processed_once:
  "let tasks1 = snd (processResult r tasks) in
     processResult r tasks1 =
       (\<lparr>outcome_kind = UnknownTask, direct_result = None, direct_result_destination = []\<rparr>, tasks1) \<and>
     (\<forall>k. k = to_uint64 (qr_task_id r) \<or> pending_map tasks1 k = pending_map tasks k)"
  unfolding Let_def by (simp add: processResult_unknown processResult_pending)

end
