(* ===== verification/Resource_Registry.thy ===== *)
theory Resource_Registry
  imports Mqss_Prelude
begin

text \<open>The static resource catalogue (\<^verbatim>\<open>ResourceRegistry.hpp\<close>).\<close>

record ResourceInfo =
  ri_name :: string
  ri_qubits :: uint32
  ri_online :: bool

type_synonym ResourceRegistry = "ResourceInfo list"

definition ResourceRegistry_init :: ResourceRegistry where
  "ResourceRegistry_init =
     [\<lparr>ri_name = ''QLM'', ri_qubits = 38, ri_online = False\<rparr>,
      \<lparr>ri_name = ''Q5'', ri_qubits = 5, ri_online = False\<rparr>,
      \<lparr>ri_name = ''Q20'', ri_qubits = 20, ri_online = True\<rparr>,
      \<lparr>ri_name = ''AQT20'', ri_qubits = 20, ri_online = True\<rparr>,
      \<lparr>ri_name = ''QExa20'', ri_qubits = 20, ri_online = True\<rparr>]"

definition resources :: "ResourceRegistry \<Rightarrow> ResourceInfo list" where
  "resources r = r"

fun find_resource :: "ResourceRegistry \<Rightarrow> string \<Rightarrow> ResourceInfo option" where
  "find_resource [] n = None"
| "find_resource (x # xs) n = (if ri_name x = n then Some x else find_resource xs n)"

fun_cases find_resource_SomeE: "find_resource r n = Some x"

lemma find_resource_Some: "find_resource r n = Some x \<Longrightarrow> x \<in> set r \<and> ri_name x = n"
  by (induction r) (auto split: if_splits)

lemma find_resource_None_iff: "find_resource r n = None \<longleftrightarrow> n \<notin> ri_name ` set r"
  by (induction r) auto

lemma find_resource_distinct:
  "distinct (map ri_name r) \<Longrightarrow> x \<in> set r \<Longrightarrow> find_resource r (ri_name x) = Some x"
  by (induction r) (auto simp: rev_image_eqI)

lemma ResourceRegistry_init_distinct: "distinct (map ri_name ResourceRegistry_init)"
  by (simp add: ResourceRegistry_init_def)

end
