(* ===== verification/Control_Protocol.thy ===== *)
theory Control_Protocol
  imports Task_Store Resource_Registry
begin

text \<open>
  The command model of the Control interface and the adapter interface of its protocols
  (\<^verbatim>\<open>src/control/ControlProtocol.hpp\<close>). The locale \<open>control_protocol\<close> states what
  \<^verbatim>\<open>Control::process\<close> relies on in an adapter: the reply queue is carried over, and a client can
  tell an error response from every other response.
\<close>

record CreateQuantumTaskCommand =
  cmd_shots :: int32
  cmd_circuit_files :: "string list"
  cmd_circuit_format :: string
  cmd_resource_name :: string
  cmd_no_modify :: bool

datatype ControlCommand =
    CreateQuantumTask CreateQuantumTaskCommand
  | GetTaskStatusCommand uint64
  | GetTaskResultCommand uint64
  | GetCancelReasonCommand uint64
  | ListResourcesCommand
  | GetResourceInfoCommand string
  | QueryPendingTasksCommand string
  | InvalidControlCommand string

datatype ControlResult =
    TaskCreatedResult uint64
  | TaskStatusResult TaskStatus
  | TaskResultResult CompletedControlTask
  | CancelReasonResult string
  | ResourceListResult "ResourceInfo list"
  | ResourceInfoResult ResourceInfo
  | PendingTasksResult uint64
  | ControlError string

record DecodedControlRequest =
  dec_command :: ControlCommand
  dec_response_queue :: string

text \<open>The virtual functions of an adapter.\<close>

record ControlProtocol =
  protocol_decode :: "APIRequest \<Rightarrow> DecodedControlRequest"
  protocol_encode :: "ControlResult \<Rightarrow> string \<Rightarrow> APIResponse"

text \<open>The results a client is told as an error.\<close>

fun reports_error :: "ControlResult \<Rightarrow> bool" where
  "reports_error (TaskStatusResult NotFound) = True"
| "reports_error (ControlError m) = True"
| "reports_error r = False"

locale control_protocol =
  fixes decode :: "APIRequest \<Rightarrow> DecodedControlRequest"
    and encode :: "ControlResult \<Rightarrow> string \<Rightarrow> APIResponse"
    and error_of :: "APIResponse \<Rightarrow> string option"
  assumes decode_queue: "dec_response_queue (decode r) = req_response_queue r"
    and encode_queue: "resp_destination_queue (encode c q) = q"
    and encode_error: "error_of (encode c q) \<noteq> None \<longleftrightarrow> reports_error c"
    and encode_error_message: "error_of (encode (ControlError m) q) = Some m"
begin

lemma reply_queue: "resp_destination_queue (encode c (dec_response_queue (decode r))) = req_response_queue r"
  by (simp add: decode_queue encode_queue)

lemma no_error_iff: "error_of (encode c q) = None \<longleftrightarrow> \<not> reports_error c"
  using encode_error by blast

end

end
