(* ===== verification/Typed_Protocol.thy ===== *)
theory Typed_Protocol
  imports Control_Protocol
begin

text \<open>The adapter of the typed protobuf protocol (\<^verbatim>\<open>src/control/TypedControlProtocol.cpp\<close>).\<close>

definition typed_invalid :: "string \<Rightarrow> ControlCommand" where
  "typed_invalid message = InvalidControlCommand message"

definition makeCreateCommand :: "CreateTaskRequest \<Rightarrow> CreateQuantumTaskCommand" where
  "makeCreateCommand request =
     \<lparr>cmd_shots = ctr_shots request, cmd_circuit_files = ctr_circuit request,
      cmd_circuit_format = ctr_circuit_format request,
      cmd_resource_name = ctr_resource_name request, cmd_no_modify = ctr_no_modify request\<rparr>"

definition typed_setResource :: "ResourceInfo \<Rightarrow> ResourceInfoResponse" where
  "typed_setResource resource =
     \<lparr>rir_name = ri_name resource, rir_num_qubits = ri_qubits resource,
      rir_online = ri_online resource\<rparr>"

definition typed_setTaskResult :: "CompletedControlTask \<Rightarrow> TaskResultResponse" where
  "typed_setTaskResult task =
     \<lparr>trr_result = map (\<lambda>cs. \<lparr>counts = foldl (\<lambda>m (k, v). um_insert_or_assign k v m) [] cs\<rparr>)
        (result_counts task),
      trr_timestamp_submitted = timestamp_submitted task,
      trr_timestamp_scheduled = timestamp_scheduled task,
      trr_timestamp_completed = timestamp_completed task\<rparr>"

definition typed_decode :: "APIRequest \<Rightarrow> DecodedControlRequest" where
  "typed_decode request =
     \<lparr>dec_command = (case req_typed_request request of
        ReqCreateTask c \<Rightarrow> CreateQuantumTask (makeCreateCommand c)
      | ReqTaskStatus uuid \<Rightarrow> GetTaskStatusCommand (to_uint64 uuid)
      | ReqTaskResult uuid \<Rightarrow> GetTaskResultCommand (to_uint64 uuid)
      | ReqCancelReason uuid \<Rightarrow> GetCancelReasonCommand (to_uint64 uuid)
      | ReqListResources \<Rightarrow> ListResourcesCommand
      | ReqResourceInfo n \<Rightarrow> GetResourceInfoCommand n
      | ReqPendingTasks n \<Rightarrow> QueryPendingTasksCommand n
      | TYPED_REQUEST_NOT_SET \<Rightarrow> typed_invalid ''INVALID CONTROL REQUEST''),
      dec_response_queue = req_response_queue request\<rparr>"

text \<open>
  Setting a member of the \<^verbatim>\<open>oneof\<close> clears the others, so the status member that is opened before
  the \<^verbatim>\<open>switch\<close> does not survive the \<^verbatim>\<open>NotFound\<close> case.
\<close>

fun typed_response_for :: "ControlResult \<Rightarrow> typed_response" where
  "typed_response_for (TaskCreatedResult k) = RespCreateTask (to_int32 k)"
| "typed_response_for (TaskStatusResult st) =
     (case st of
        Waiting \<Rightarrow> RespTaskStatus API_TASK_STATUS_WAITING
      | Completed \<Rightarrow> RespTaskStatus API_TASK_STATUS_COMPLETED
      | Cancelled \<Rightarrow> RespTaskStatus API_TASK_STATUS_CANCELLED
      | NotFound \<Rightarrow> RespError ''JOB NOT FOUND'')"
| "typed_response_for (TaskResultResult task) = RespTaskResult (typed_setTaskResult task)"
| "typed_response_for (CancelReasonResult r) = RespCancelReason r"
| "typed_response_for (ResourceListResult rs) = RespResources (map ri_name rs)"
| "typed_response_for (ResourceInfoResult r) = RespResourceInfo (typed_setResource r)"
| "typed_response_for (PendingTasksResult n) = RespPendingTasks (to_int32 n)"
| "typed_response_for (ControlError m) = RespError m"

definition typed_encode :: "ControlResult \<Rightarrow> string \<Rightarrow> APIResponse" where
  "typed_encode result destination_queue = APIResponse_default
     \<lparr>resp_destination_queue := destination_queue, resp_typed_response := typed_response_for result\<rparr>"

definition TypedControlProtocol :: ControlProtocol where
  "TypedControlProtocol = \<lparr>protocol_decode = typed_decode, protocol_encode = typed_encode\<rparr>"

definition typed_error_of :: "APIResponse \<Rightarrow> string option" where
  "typed_error_of r = (case resp_typed_response r of RespError m \<Rightarrow> Some m | _ \<Rightarrow> None)"

interpretation typed: control_protocol typed_decode typed_encode typed_error_of
proof (unfold_locales, goal_cases)
  case (3 c q)
  show ?case
    by (cases c rule: reports_error.cases) (auto simp: typed_error_of_def typed_encode_def)
qed (simp_all add: typed_decode_def typed_encode_def typed_error_of_def)

text \<open>Copying a well-formed map entry by entry keeps every lookup.\<close>

lemma assign_copy:
  assumes "um_wf cs"
  shows "um_find (foldl (\<lambda>m (k, v). um_insert_or_assign k v m) [] cs) = um_find cs"
proof -
  have "map_of (rev cs) = map_of cs"
    using assms by (intro map_of_inject_set [THEN iffD2]) (simp_all add: um_wf_def flip: rev_map)
  then show ?thesis
    using um.fill_assign [of "[]" cs] by (simp add: um.find_empty) (simp add: um_find_def)
qed

lemma trr_result_find:
  "list_all um_wf (result_counts task) \<Longrightarrow>
   map (um_find \<circ> counts) (trr_result (typed_setTaskResult task)) = map um_find (result_counts task)"
  by (auto simp: typed_setTaskResult_def list_all_iff assign_copy)

section \<open>Properties\<close>

text \<open>
  The typed protocol passes a result on unchanged. The response to a fetched task has, per
  circuit and bitstring, exactly the stored counts, and the stored timestamps.
\<close>

theorem typed_task_result_faithful:
  assumes "list_all um_wf (result_counts task)"
  shows "\<exists>rs. resp_typed_response (typed_encode (TaskResultResult task) q) =
      RespTaskResult \<lparr>trr_result = rs, trr_timestamp_submitted = timestamp_submitted task,
        trr_timestamp_scheduled = timestamp_scheduled task,
        trr_timestamp_completed = timestamp_completed task\<rparr> \<and>
    map (um_find \<circ> counts) rs = map um_find (result_counts task)"
  using trr_result_find [OF assms] by (simp add: typed_encode_def typed_setTaskResult_def)

theorem typed_task_result_faithful_witness:
  "\<exists>rs. resp_typed_response (typed_encode (TaskResultResult
        (CompletedControlTask_default\<lparr>result_counts := [[(''00'', 8), (''11'', 2)]]\<rparr>)) ''q'') =
      RespTaskResult \<lparr>trr_result = rs, trr_timestamp_submitted = [], trr_timestamp_scheduled = [],
        trr_timestamp_completed = []\<rparr> \<and>
     map (um_find \<circ> counts) rs = [um_find [(''00'', 8), (''11'', 2)]]"
  using typed_task_result_faithful
    [of "CompletedControlTask_default\<lparr>result_counts := [[(''00'', 8), (''11'', 2)]]\<rparr>" "''q''"]
  by (simp add: um_wf_def CompletedControlTask_default_def)

end
