(* ===== verification/Rest_Protocol.thy ===== *)
theory Rest_Protocol
  imports Control_Protocol
begin

text \<open>
  The adapter of the REST-like protocol (\<^verbatim>\<open>src/control/RestControlProtocol.cpp\<close>): splitting of
  the path, parsing of task ids, typed access to the request data, and the response bodies.
\<close>

definition rest_invalid :: "string \<Rightarrow> ControlCommand" where
  "rest_invalid message = InvalidControlCommand message"

text \<open>The two loops that strip slashes, and the loop that cuts the path into parts.\<close>

fun strip_front :: "string \<Rightarrow> string" where
  "strip_front [] = []"
| "strip_front (c # cs) = (if c = CHR ''/'' then strip_front cs else c # cs)"

function strip_back :: "string \<Rightarrow> string" where
  "strip_back p = (if p \<noteq> [] \<and> last p = CHR ''/'' then strip_back (butlast p) else p)"
  by pat_completeness auto
termination
  by (relation "measure length") auto

declare strip_back.simps [simp del]

function split_loop :: "string \<Rightarrow> string list" where
  "split_loop path =
     (if path = [] then []
      else let part = takeWhile (\<lambda>c. c \<noteq> CHR ''/'') path
           in if length part = length path then [part]
              else part # split_loop (drop (length part + 1) path))"
  by pat_completeness auto
termination
  by (relation "measure length") auto

declare split_loop.simps [simp del]

definition splitPath :: "string \<Rightarrow> string list" where
  "splitPath path = split_loop (strip_back (strip_front path))"

definition parseTaskId :: "string \<Rightarrow> uint64 option" where
  "parseTaskId text =
     (if text = [] then None
      else map_option (\<lambda>v. of_int v) (parse_whole False 0 (2 ^ 64 - 1) text))"

definition findField :: "Struct \<Rightarrow> string \<Rightarrow> pb_value option" where
  "findField data key = um_find data key"

definition trunc_rat :: "rat \<Rightarrow> int" where
  "trunc_rat q = (if 0 \<le> q then \<lfloor>q\<rfloor> else \<lceil>q\<rceil>)"

definition requiredInt :: "Struct \<Rightarrow> string \<Rightarrow> int32 option" where
  "requiredInt data key =
     (case findField data key of
        Some (NumberValue number) \<Rightarrow>
          (case number of
             Finite q \<Rightarrow>
               if of_int (trunc_rat q) \<noteq> q \<or> q < of_int int32_min \<or> q > of_int int32_max then None
               else Some (of_int (trunc_rat q))
           | _ \<Rightarrow> None)
      | _ \<Rightarrow> None)"

definition requiredBool :: "Struct \<Rightarrow> string \<Rightarrow> bool option" where
  "requiredBool data key =
     (case findField data key of Some (BoolValue b) \<Rightarrow> Some b | _ \<Rightarrow> None)"

definition requiredString :: "Struct \<Rightarrow> string \<Rightarrow> string option" where
  "requiredString data key =
     (case findField data key of Some (StringValue s) \<Rightarrow> Some s | _ \<Rightarrow> None)"

fun string_values :: "pb_value list \<Rightarrow> string list option" where
  "string_values [] = Some []"
| "string_values (v # vs) =
     (case v of StringValue s \<Rightarrow> map_option ((#) s) (string_values vs) | _ \<Rightarrow> None)"

definition requiredStringList :: "Struct \<Rightarrow> string \<Rightarrow> string list option" where
  "requiredStringList data key =
     (case findField data key of Some (ListValue vs) \<Rightarrow> string_values vs | _ \<Rightarrow> None)"

definition createTaskCommand :: "APIRequest \<Rightarrow> ControlCommand" where
  "createTaskCommand request =
     (if req_method request \<noteq> ''POST'' then rest_invalid ''INVALID METHOD''
      else case (requiredInt (req_data request) ''shots'',
                 requiredStringList (req_data request) ''circuit'',
                 requiredString (req_data request) ''circuit_format'',
                 requiredString (req_data request) ''resource_name'',
                 requiredBool (req_data request) ''no_modify'') of
          (Some shots, Some circuit, Some circuit_format, Some resource_name, Some no_modify) \<Rightarrow>
            if sint shots < 0 then rest_invalid ''INVALID JOB REQUEST''
            else CreateQuantumTask
              \<lparr>cmd_shots = shots, cmd_circuit_files = circuit,
               cmd_circuit_format = circuit_format, cmd_resource_name = resource_name,
               cmd_no_modify = no_modify\<rparr>
        | _ \<Rightarrow> rest_invalid ''INVALID JOB REQUEST'')"

definition rest_command :: "APIRequest \<Rightarrow> ControlCommand" where
  "rest_command request =
     (let path = splitPath (req_request request) in
      if path = [''job''] then createTaskCommand request
      else if req_method request \<noteq> ''GET'' then rest_invalid ''INVALID METHOD''
      else case path of
          [p0, p1, p2] \<Rightarrow>
            if p0 = ''job'' then
              (case parseTaskId p1 of
                 None \<Rightarrow> rest_invalid ''INVALID JOB ID''
               | Some task_id \<Rightarrow>
                   if p2 = ''status'' then GetTaskStatusCommand task_id
                   else if p2 = ''result'' then GetTaskResultCommand task_id
                   else if p2 = ''cancel_reason'' then GetCancelReasonCommand task_id
                   else rest_invalid ''UNKNOWN CONTROL REQUEST'')
            else if p0 = ''resources'' \<and> p1 \<noteq> [] \<and> p2 = ''num_pending_jobs''
            then QueryPendingTasksCommand p1
            else rest_invalid ''UNKNOWN CONTROL REQUEST''
        | [p0] \<Rightarrow> if p0 = ''resources'' then ListResourcesCommand
                  else rest_invalid ''UNKNOWN CONTROL REQUEST''
        | [p0, p1] \<Rightarrow> if p0 = ''resources'' \<and> p1 \<noteq> [] then GetResourceInfoCommand p1
                      else rest_invalid ''UNKNOWN CONTROL REQUEST''
        | _ \<Rightarrow> rest_invalid ''UNKNOWN CONTROL REQUEST'')"

definition rest_decode :: "APIRequest \<Rightarrow> DecodedControlRequest" where
  "rest_decode request =
     \<lparr>dec_command = rest_command request, dec_response_queue = req_response_queue request\<rparr>"

section \<open>Response bodies\<close>

definition setString :: "string \<Rightarrow> string \<Rightarrow> Struct \<Rightarrow> Struct" where
  "setString key value body = um_insert_or_assign key (StringValue value) body"

definition setNumber :: "string \<Rightarrow> double \<Rightarrow> Struct \<Rightarrow> Struct" where
  "setNumber key value body = um_insert_or_assign key (NumberValue value) body"

definition setBool :: "string \<Rightarrow> bool \<Rightarrow> Struct \<Rightarrow> Struct" where
  "setBool key value body = um_insert_or_assign key (BoolValue value) body"

definition setError :: "string \<Rightarrow> Struct \<Rightarrow> Struct" where
  "setError message body = setString ''Error'' message body"

text \<open>\<^verbatim>\<open>mutable_list_value()\<close>: the list stored under the key, or a new one.\<close>

definition mutable_list :: "string \<Rightarrow> Struct \<Rightarrow> pb_value list" where
  "mutable_list key body = (case um_find body key of Some (ListValue vs) \<Rightarrow> vs | _ \<Rightarrow> [])"

definition counts_struct :: "Counts \<Rightarrow> Struct" where
  "counts_struct cs = foldl (\<lambda>m (k, v). setNumber k (double_of_int32 v) m) [] cs"

definition rest_setTaskResult :: "CompletedControlTask \<Rightarrow> Struct \<Rightarrow> Struct" where
  "rest_setTaskResult task body =
     (let results = mutable_list ''result'' body @
            map (\<lambda>cs. StructValue (counts_struct cs)) (result_counts task);
          body = um_insert_or_assign ''result'' (ListValue results) body;
          body = setString ''timestamp_scheduled'' (timestamp_scheduled task) body;
          body = setString ''timestamp_submitted'' (timestamp_submitted task) body
      in setString ''timestamp_completed'' (timestamp_completed task) body)"

definition rest_setResource :: "ResourceInfo \<Rightarrow> Struct \<Rightarrow> Struct" where
  "rest_setResource resource body =
     setBool ''online'' (ri_online resource)
       (setNumber ''qubits'' (double_of_nat (unat (ri_qubits resource)))
         (setString ''name'' (ri_name resource) body))"

definition rest_setResources :: "ResourceInfo list \<Rightarrow> Struct \<Rightarrow> Struct" where
  "rest_setResources rs body =
     um_insert_or_assign ''resources''
       (ListValue (mutable_list ''resources'' body @
          map (\<lambda>r. StructValue (rest_setResource r [])) rs)) body"

fun rest_body :: "ControlResult \<Rightarrow> Struct \<Rightarrow> Struct" where
  "rest_body (TaskCreatedResult k) body = setString ''uuid'' (to_string (unat k)) body"
| "rest_body (TaskStatusResult st) body =
     (case st of
        Waiting \<Rightarrow> setString ''status'' ''WAITING'' body
      | Completed \<Rightarrow> setString ''status'' ''COMPLETED'' body
      | Cancelled \<Rightarrow> setString ''status'' ''CANCELLED'' body
      | NotFound \<Rightarrow> setError ''JOB NOT FOUND'' body)"
| "rest_body (TaskResultResult task) body = rest_setTaskResult task body"
| "rest_body (CancelReasonResult r) body = setString ''cancel_reason'' r body"
| "rest_body (ResourceListResult rs) body = rest_setResources rs body"
| "rest_body (ResourceInfoResult r) body = rest_setResource r body"
| "rest_body (PendingTasksResult n) body = setNumber ''num_pending_jobs'' (double_of_nat (unat n)) body"
| "rest_body (ControlError m) body = setError m body"

definition rest_encode :: "ControlResult \<Rightarrow> string \<Rightarrow> APIResponse" where
  "rest_encode result destination_queue = APIResponse_default
     \<lparr>resp_destination_queue := destination_queue,
      resp_response_body := Some (rest_body result [])\<rparr>"

definition RestControlProtocol :: ControlProtocol where
  "RestControlProtocol = \<lparr>protocol_decode = rest_decode, protocol_encode = rest_encode\<rparr>"

definition rest_error_of :: "APIResponse \<Rightarrow> string option" where
  "rest_error_of r = (case resp_response_body r of
       None \<Rightarrow> None
     | Some body \<Rightarrow> (case um_find body ''Error'' of Some (StringValue m) \<Rightarrow> Some m | _ \<Rightarrow> None))"

section \<open>A client's reading of a response\<close>

text \<open>
  What a client learns from a body, by the keys and the kinds of the values only; a reader that is not part of the
  repository, as the specification of the encoding. Counts are read as the server reads numbers
  (\<open>requiredInt\<close>), one function from bitstrings per circuit.
\<close>

datatype rest_reply =
    RestError string
  | RestCreated uint64
  | RestStatus TaskStatus
  | RestResult "(string \<Rightarrow> int32 option) list" string string string
  | RestReason string
  | RestResources "ResourceInfo list"
  | RestResource ResourceInfo
  | RestPending nat

definition read_nat :: "Struct \<Rightarrow> string \<Rightarrow> nat option" where
  "read_nat body key = (case findField body key of
       Some (NumberValue (Finite q)) \<Rightarrow> if 0 \<le> q \<and> of_int \<lfloor>q\<rfloor> = q then Some (nat \<lfloor>q\<rfloor>) else None
     | _ \<Rightarrow> None)"

definition read_resource :: "Struct \<Rightarrow> ResourceInfo option" where
  "read_resource body = (case (requiredString body ''name'', read_nat body ''qubits'', requiredBool body ''online'') of
       (Some n, Some q, Some b) \<Rightarrow> Some \<lparr>ri_name = n, ri_qubits = of_nat q, ri_online = b\<rparr>
     | _ \<Rightarrow> None)"

fun read_structs :: "(Struct \<Rightarrow> 'a option) \<Rightarrow> pb_value list \<Rightarrow> 'a list option" where
  "read_structs f [] = Some []"
| "read_structs f (v # vs) = (case v of
       StructValue m \<Rightarrow> (case (f m, read_structs f vs) of (Some x, Some xs) \<Rightarrow> Some (x # xs) | _ \<Rightarrow> None)
     | _ \<Rightarrow> None)"

definition read_list :: "Struct \<Rightarrow> string \<Rightarrow> (Struct \<Rightarrow> 'a option) \<Rightarrow> 'a list option" where
  "read_list body key f = (case findField body key of Some (ListValue vs) \<Rightarrow> read_structs f vs | _ \<Rightarrow> None)"

definition read_result :: "Struct \<Rightarrow> rest_reply option" where
  "read_result body = (case (read_list body ''result'' (\<lambda>m. Some (requiredInt m)),
        requiredString body ''timestamp_submitted'', requiredString body ''timestamp_scheduled'',
        requiredString body ''timestamp_completed'') of
       (Some rs, Some t1, Some t2, Some t3) \<Rightarrow> Some (RestResult rs t1 t2 t3)
     | _ \<Rightarrow> None)"

definition read_status :: "string \<Rightarrow> rest_reply option" where
  "read_status t = (if t = ''WAITING'' then Some (RestStatus Waiting)
     else if t = ''COMPLETED'' then Some (RestStatus Completed)
     else if t = ''CANCELLED'' then Some (RestStatus Cancelled) else None)"

definition rest_read :: "Struct \<Rightarrow> rest_reply option" where
  "rest_read body =
     (if um_contains body ''Error'' then map_option RestError (requiredString body ''Error'')
      else if um_contains body ''uuid'' then Option.bind (requiredString body ''uuid'') (map_option RestCreated \<circ> parseTaskId)
      else if um_contains body ''status'' then Option.bind (requiredString body ''status'') read_status
      else if um_contains body ''cancel_reason'' then map_option RestReason (requiredString body ''cancel_reason'')
      else if um_contains body ''num_pending_jobs'' then map_option RestPending (read_nat body ''num_pending_jobs'')
      else if um_contains body ''result'' then read_result body
      else if um_contains body ''resources'' then map_option RestResources (read_list body ''resources'' read_resource)
      else map_option RestResource (read_resource body))"

text \<open>What the client should learn, and when: counts with distinct bitstrings, a number a \<^verbatim>\<open>double\<close> can represent.\<close>

fun reply_of :: "ControlResult \<Rightarrow> rest_reply" where
  "reply_of (TaskCreatedResult k) = RestCreated k"
| "reply_of (TaskStatusResult st) = (if st = NotFound then RestError ''JOB NOT FOUND'' else RestStatus st)"
| "reply_of (TaskResultResult task) = RestResult (map um_find (result_counts task))
     (timestamp_submitted task) (timestamp_scheduled task) (timestamp_completed task)"
| "reply_of (CancelReasonResult r) = RestReason r"
| "reply_of (ResourceListResult rs) = RestResources rs"
| "reply_of (ResourceInfoResult r) = RestResource r"
| "reply_of (PendingTasksResult n) = RestPending (unat n)"
| "reply_of (ControlError m) = RestError m"

fun rest_exact :: "ControlResult \<Rightarrow> bool" where
  "rest_exact (TaskResultResult task) = list_all um_wf (result_counts task)"
| "rest_exact (PendingTasksResult n) = (unat n \<le> 2 ^ 53)"
| "rest_exact r = True"

text \<open>The reference for splitting: parts joined by single slashes.\<close>

fun join_path :: "string list \<Rightarrow> string" where
  "join_path [] = []"
| "join_path [p] = p"
| "join_path (p # ps) = p @ CHR ''/'' # join_path ps"

text \<open>A path to a task, with \<open>m\<close> slashes before and \<open>n\<close> slashes after it.\<close>

definition job_path :: "nat \<Rightarrow> uint64 \<Rightarrow> string \<Rightarrow> nat \<Rightarrow> string" where
  "job_path m k l n = replicate m CHR ''/'' @ join_path [''job'', to_string (unat k), l] @
     replicate n CHR ''/''"

lemmas body_defs = setString_def setNumber_def setBool_def setError_def rest_setTaskResult_def
  rest_setResource_def rest_setResources_def mutable_list_def

interpretation rest: control_protocol rest_decode rest_encode rest_error_of
proof (unfold_locales, goal_cases)
  case (3 c q)
  show ?case
    by (cases c rule: reports_error.cases)
      (simp_all add: rest_error_of_def rest_encode_def body_defs um_laws Let_def)
qed (simp_all add: rest_decode_def rest_encode_def rest_error_of_def body_defs um_laws)

section \<open>Paths\<close>

lemma strip_front_eq: "strip_front p = dropWhile (\<lambda>c. c = CHR ''/'') p"
  by (induction p) auto

lemma strip_back_eq: "strip_back p = rev (dropWhile (\<lambda>c. c = CHR ''/'') (rev p))"
proof (induction p rule: rev_induct)
  case Nil
  show ?case by (simp add: strip_back.simps)
next
  case (snoc c cs)
  then show ?case by (subst strip_back.simps) simp
qed

lemma split_loop_last: "CHR ''/'' \<notin> set p \<Longrightarrow> p \<noteq> [] \<Longrightarrow> split_loop p = [p]"
proof -
  assume p: "CHR ''/'' \<notin> set p" "p \<noteq> []"
  then have "takeWhile (\<lambda>c. c \<noteq> CHR ''/'') p = p" by (auto simp: takeWhile_eq_all_conv)
  with p(2) show ?thesis unfolding split_loop.simps [of p] Let_def by (simp only: if_False if_True refl)
qed

lemma split_loop_part:
  assumes "CHR ''/'' \<notin> set l"
  shows "split_loop (l @ CHR ''/'' # rest) = l # split_loop rest"
proof -
  have tw: "takeWhile (\<lambda>c. c \<noteq> CHR ''/'') (l @ CHR ''/'' # rest) = l"
    using assms by (subst takeWhile_append2) auto
  show ?thesis
    unfolding split_loop.simps [of "l @ CHR ''/'' # rest"] Let_def tw by simp
qed

lemma path_cases:
  obtains (empty) "p = []" | (last) "p \<noteq> []" "c \<notin> set p"
  | (part) l rest where "p = l @ c # rest" "c \<notin> set l" "length rest < length p"
proof (cases "c \<in> set p")
  case True
  then obtain l rest where "p = l @ c # rest" "c \<notin> set l" by (meson split_list_first)
  then show thesis by (intro part) auto
qed (use empty last in blast)

lemma split_loop_getlines: "split_loop p = getlines CHR ''/'' p"
proof (induction p rule: length_induct)
  case (1 p)
  show ?case
  proof (rule path_cases [where p = p and c = "CHR ''/''"])
    assume "p = []"
    then show ?thesis by (simp add: split_loop.simps)
  next
    assume "p \<noteq> []" "CHR ''/'' \<notin> set p"
    then show ?thesis by (simp add: split_loop_last)
  next
    fix l rest assume "p = l @ CHR ''/'' # rest" "CHR ''/'' \<notin> set l" "length rest < length p"
    then show ?thesis using 1 by (simp add: split_loop_part)
  qed
qed

lemma split_loop_join:
  "ps \<noteq> [] \<Longrightarrow> last ps \<noteq> [] \<Longrightarrow> \<forall>p \<in> set ps. CHR ''/'' \<notin> set p \<Longrightarrow> split_loop (join_path ps) = ps"
  by (induction ps rule: join_path.induct) (auto simp: split_loop_last split_loop_part)

lemma join_path_first:
  "ps \<noteq> [] \<Longrightarrow> hd ps \<noteq> [] \<Longrightarrow> join_path ps \<noteq> [] \<and> hd (join_path ps) = hd (hd ps)"
  by (cases ps rule: join_path.cases) auto

lemma join_path_last:
  "ps \<noteq> [] \<Longrightarrow> last ps \<noteq> [] \<Longrightarrow> join_path ps \<noteq> [] \<and> last (join_path ps) = last (last ps)"
  by (induction ps rule: join_path.induct) auto

lemma splitPath_join:
  assumes "ps \<noteq> []" and "hd ps \<noteq> []" and "last ps \<noteq> []" and no: "\<forall>p \<in> set ps. CHR ''/'' \<notin> set p"
  shows "splitPath (replicate m CHR ''/'' @ join_path ps @ replicate n CHR ''/'') = ps"
proof -
  let ?j = "join_path ps"
  from assms(1,2) have h: "?j \<noteq> []" "hd ?j \<noteq> CHR ''/''"
    using join_path_first [of ps] no by (auto dest: hd_in_set)
  from assms(1,3) have l: "last ?j \<noteq> CHR ''/''"
    using join_path_last [of ps] no by (metis last_in_set)
  have "strip_front (replicate m CHR ''/'' @ ?j @ replicate n CHR ''/'') = ?j @ replicate n CHR ''/''"
    using h by (cases ?j) (auto simp: strip_front_eq dropWhile_append)
  moreover have "strip_back (?j @ replicate n CHR ''/'') = ?j"
    using h l by (cases ?j rule: rev_cases) (auto simp: strip_back_eq dropWhile_append)
  ultimately show ?thesis
    using split_loop_join [OF assms(1,3,4)] by (simp add: splitPath_def)
qed

section \<open>Task identifiers and numbers\<close>

lemma digits_no_slash: "CHR ''/'' \<notin> set (to_string n)"
  using to_string_digits [of "CHR ''/''" n] by (auto simp: is_digit_def)

lemma parseTaskId_to_string [simp]: "parseTaskId (to_string (unat k)) = Some k"
proof -
  have "int (unat k) \<le> 2 ^ 64 - 1" using uint_bounded [of k] by simp
  then have "parse_whole False 0 (2 ^ 64 - 1) (to_string (unat k)) = Some (int (unat k))"
    by (intro parse_whole_to_string) auto
  then show ?thesis by (simp add: parseTaskId_def)
qed

lemma trunc_rat_of_int [simp]: "trunc_rat (of_int n) = n"
  by (simp add: trunc_rat_def)

lemma sint_of_int_int32:
  "int32_min \<le> n \<Longrightarrow> n \<le> int32_max \<Longrightarrow> sint (of_int n :: int32) = n"
  by (simp add: signed_of_int signed_take_bit_int_eq_self int32_min_def int32_max_def)

lemma requiredInt_iff:
  "requiredInt data key = Some w \<longleftrightarrow>
   (\<exists>n. findField data key = Some (NumberValue (Finite (of_int n))) \<and>
      int32_min \<le> n \<and> n \<le> int32_max \<and> w = of_int n)"
proof
  assume "requiredInt data key = Some w"
  then obtain q where q: "findField data key = Some (NumberValue (Finite q))"
    "of_int (trunc_rat q) = q" "\<not> q < of_int int32_min" "\<not> q > of_int int32_max"
    "w = of_int (trunc_rat q)"
    by (auto simp: requiredInt_def split: option.splits pb_value.splits double.splits if_splits)
  have "int32_min \<le> trunc_rat q" "trunc_rat q \<le> int32_max"
    using q(2-4) by (metis not_less of_int_less_iff)+
  with q show "\<exists>n. findField data key = Some (NumberValue (Finite (of_int n))) \<and>
      int32_min \<le> n \<and> n \<le> int32_max \<and> w = of_int n"
    by (intro exI [of _ "trunc_rat q"]) simp
next
  assume "\<exists>n. findField data key = Some (NumberValue (Finite (of_int n))) \<and>
      int32_min \<le> n \<and> n \<le> int32_max \<and> w = of_int n"
  then show "requiredInt data key = Some w" by (auto simp: requiredInt_def)
qed

lemma requiredInt_sint_iff:
  "requiredInt data key = Some w \<longleftrightarrow>
   findField data key = Some (NumberValue (Finite (of_int (sint w))))"
proof -
  have range: "int32_min \<le> sint w" "sint w \<le> int32_max"
    using sint_greater_eq [of w] sint_less [of w] by (simp_all add: int32_min_def int32_max_def)
  have w: "w = of_int (sint w)" by simp
  show ?thesis
    unfolding requiredInt_iff using range w by (metis sint_of_int_int32)
qed

lemma string_values_iff: "string_values vs = Some ss \<longleftrightarrow> vs = map StringValue ss"
  by (induction vs arbitrary: ss) (auto split: pb_value.splits)

lemma required_iffs:
  "requiredBool data key = Some b \<longleftrightarrow> findField data key = Some (BoolValue b)"
  "requiredString data key = Some s \<longleftrightarrow> findField data key = Some (StringValue s)"
  "requiredStringList data key = Some ss \<longleftrightarrow> findField data key = Some (ListValue (map StringValue ss))"
  by (auto simp: requiredBool_def requiredString_def requiredStringList_def string_values_iff
      split: option.splits pb_value.splits)

lemma createTaskCommand_iff:
  "createTaskCommand r = CreateQuantumTask c \<longleftrightarrow>
    req_method r = ''POST'' \<and>
    findField (req_data r) ''shots'' = Some (NumberValue (Finite (of_int (sint (cmd_shots c))))) \<and>
    0 \<le> sint (cmd_shots c) \<and>
    findField (req_data r) ''circuit'' = Some (ListValue (map StringValue (cmd_circuit_files c))) \<and>
    findField (req_data r) ''circuit_format'' = Some (StringValue (cmd_circuit_format c)) \<and>
    findField (req_data r) ''resource_name'' = Some (StringValue (cmd_resource_name c)) \<and>
    findField (req_data r) ''no_modify'' = Some (BoolValue (cmd_no_modify c))"
proof -
  have "createTaskCommand r = CreateQuantumTask c \<longleftrightarrow>
      req_method r = ''POST'' \<and> requiredInt (req_data r) ''shots'' = Some (cmd_shots c) \<and>
      0 \<le> sint (cmd_shots c) \<and>
      requiredStringList (req_data r) ''circuit'' = Some (cmd_circuit_files c) \<and>
      requiredString (req_data r) ''circuit_format'' = Some (cmd_circuit_format c) \<and>
      requiredString (req_data r) ''resource_name'' = Some (cmd_resource_name c) \<and>
      requiredBool (req_data r) ''no_modify'' = Some (cmd_no_modify c)"
    by (cases c) (auto simp: createTaskCommand_def rest_invalid_def split: option.splits)
  then show ?thesis by (simp only: requiredInt_sint_iff required_iffs)
qed

lemma mutable_list_empty [simp]: "mutable_list k [] = []"
  by (simp add: mutable_list_def um_find_def)

text \<open>The reader undoes the setters.\<close>

lemma read_set:
  "requiredString (setString k t m) k' = (if k' = k then Some t else requiredString m k')"
  "requiredBool (setBool k b m) k' = (if k' = k then Some b else requiredBool m k')"
  "k' \<noteq> k \<Longrightarrow> requiredString (setNumber k d m) k' = requiredString m k'"
  "k' \<noteq> k \<Longrightarrow> requiredString (setBool k b m) k' = requiredString m k'"
  "k' \<noteq> k \<Longrightarrow> read_nat (setString k t m) k' = read_nat m k'"
  "k' \<noteq> k \<Longrightarrow> read_nat (setBool k b m) k' = read_nat m k'"
  "k' \<noteq> k \<Longrightarrow> read_list (setString k t m) k' f = read_list m k' f"
  by (simp_all add: requiredString_def requiredBool_def read_nat_def read_list_def setString_def setBool_def
      setNumber_def findField_def um_laws)

lemma contains_set:
  "um_contains (setString k t m) k' \<longleftrightarrow> k' = k \<or> um_contains m k'"
  "um_contains (setBool k b m) k' \<longleftrightarrow> k' = k \<or> um_contains m k'"
  "um_contains (setNumber k d m) k' \<longleftrightarrow> k' = k \<or> um_contains m k'"
  "um_contains (um_insert_or_assign k v m) k' \<longleftrightarrow> k' = k \<or> um_contains m k'" "\<not> um_contains [] k'"
  by (simp_all add: setString_def setBool_def setNumber_def um_laws)

lemma read_set_same:
  "requiredString (um_insert_or_assign k (ListValue vs) m) k' = (if k' = k then None else requiredString m k')"
  "read_list (um_insert_or_assign k (ListValue vs) m) k f = read_structs f vs"
  by (simp_all add: requiredString_def read_list_def findField_def um_laws)

lemma read_set_nat: "n \<le> 2 ^ 53 \<Longrightarrow> read_nat (setNumber k (double_of_nat n) m) k = Some n"
  by (simp add: read_nat_def setNumber_def findField_def um_laws double_of_nat_def round53_exact)

lemma read_resource_set: "read_resource (rest_setResource r m) = Some r"
proof -
  have "unat (ri_qubits r) \<le> 2 ^ 53" using uint_bounded [of "ri_qubits r"] by (simp flip: of_nat_le_iff [where ?'a = int])
  then show ?thesis by (simp add: read_resource_def rest_setResource_def read_set read_set_nat)
qed

lemma read_structs_map: "(\<And>x. x \<in> set xs \<Longrightarrow> f (g x) = Some (h x)) \<Longrightarrow> read_structs f (map (StructValue \<circ> g) xs) = Some (map h xs)"
  by (induction xs) auto

lemma counts_struct_find:
  "um_find (foldl (\<lambda>m (k, v). setNumber k (double_of_int32 v) m) m cs) x =
   (case map_of (rev cs) x of Some v \<Rightarrow> Some (NumberValue (double_of_int32 v)) | None \<Rightarrow> um_find m x)"
  by (induction cs arbitrary: m) (auto simp: setNumber_def um_laws map_add_def split: option.splits)

lemma read_counts:
  assumes "um_wf cs"
  shows "requiredInt (counts_struct cs) = um_find cs"
proof
  fix x
  have "map_of (rev cs) = map_of cs" using assms by (simp add: um_wf_def map_of_rev_distinct)
  then have f: "findField (counts_struct cs) x = map_option (\<lambda>v. NumberValue (double_of_int32 v)) (um_find cs x)"
    using counts_struct_find [of "[]" cs x]
    by (simp add: counts_struct_def findField_def um.find_empty um_find_def split: option.split)
  show "requiredInt (counts_struct cs) x = um_find cs x"
  proof (cases "um_find cs x")
    case None
    then show ?thesis using f by (simp add: requiredInt_def)
  next
    case (Some v)
    then show ?thesis using f by (simp add: requiredInt_sint_iff double_of_int32_def)
  qed
qed

section \<open>Properties\<close>

text \<open>
  Splitting a path inverts joining. For non-empty first and last parts without slashes, the
  path made of the parts joined by single slashes, with any number of slashes before and after
  it, splits into exactly those parts.
\<close>

theorem split_path_inverts_join:
  assumes "ps \<noteq> []" and "hd ps \<noteq> []" and "last ps \<noteq> []"
    and "\<forall>p \<in> set ps. CHR ''/'' \<notin> set p"
  shows "splitPath (replicate m CHR ''/'' @ join_path ps @ replicate n CHR ''/'') = ps"
  using assms by (rule splitPath_join)

theorem split_path_inverts_join_witness:
  "splitPath ''///job/123/result//'' = [''job'', ''123'', ''result'']"
  using split_path_inverts_join [of "[''job'', ''123'', ''result'']" 3 2]
  by (simp add: numeral_eq_Suc)

text \<open>
  The identifier a REST client is given addresses its task. The response to a creation
  carries the identifier as decimal text, and a GET request for the status, the result or the
  cancel reason under that text decodes to the command for the same 64-bit identifier, whatever
  slashes surround the path.
\<close>

theorem rest_uuid_roundtrip:
  "um_find (the (resp_response_body (rest_encode (TaskCreatedResult k) q))) ''uuid'' =
      Some (StringValue (to_string (unat k))) \<and>
    dec_command (rest_decode (r\<lparr>req_method := ''GET'', req_request := job_path m k ''status'' n\<rparr>)) =
      GetTaskStatusCommand k \<and>
    dec_command (rest_decode (r\<lparr>req_method := ''GET'', req_request := job_path m k ''result'' n\<rparr>)) =
      GetTaskResultCommand k \<and>
    dec_command (rest_decode (r\<lparr>req_method := ''GET'', req_request := job_path m k ''cancel_reason'' n\<rparr>)) =
      GetCancelReasonCommand k"
proof -
  have split: "splitPath (job_path m k l n) = [''job'', to_string (unat k), l]"
    if "l \<in> {''status'', ''result'', ''cancel_reason''}" for l
    unfolding job_path_def using that digits_no_slash by (intro splitPath_join) auto
  show ?thesis
    by (simp add: rest_encode_def body_defs um_laws rest_decode_def rest_command_def split)
qed

text \<open>
  Which creation requests the REST protocol accepts: exactly the POST requests to the job
  path whose data has a non-negative integral shot count within \<^verbatim>\<open>int\<close>, a list of strings as
  circuits, strings for the format and the resource, and a Boolean; the command carries exactly
  these values.
\<close>

theorem rest_create_iff:
  assumes "splitPath (req_request r) = [''job'']"
  shows "dec_command (rest_decode r) = CreateQuantumTask c \<longleftrightarrow>
    req_method r = ''POST'' \<and>
    findField (req_data r) ''shots'' = Some (NumberValue (Finite (of_int (sint (cmd_shots c))))) \<and>
    0 \<le> sint (cmd_shots c) \<and>
    findField (req_data r) ''circuit'' = Some (ListValue (map StringValue (cmd_circuit_files c))) \<and>
    findField (req_data r) ''circuit_format'' = Some (StringValue (cmd_circuit_format c)) \<and>
    findField (req_data r) ''resource_name'' = Some (StringValue (cmd_resource_name c)) \<and>
    findField (req_data r) ''no_modify'' = Some (BoolValue (cmd_no_modify c))"
  using assms by (simp add: rest_decode_def rest_command_def createTaskCommand_iff del: of_int_sint)

theorem rest_create_iff_witness:
  "splitPath ''/job/'' = [''job''] \<and>
   dec_command (rest_decode (APIRequest_default\<lparr>req_method := ''POST'', req_request := ''/job/'',
     req_data := [(''shots'', NumberValue (Finite 128)),
       (''circuit'', ListValue [StringValue ''a.qasm'']),
       (''circuit_format'', StringValue ''qasm2''), (''resource_name'', StringValue ''Q20''),
       (''no_modify'', BoolValue True)]\<rparr>)) =
   CreateQuantumTask \<lparr>cmd_shots = 128, cmd_circuit_files = [''a.qasm''],
     cmd_circuit_format = ''qasm2'', cmd_resource_name = ''Q20'', cmd_no_modify = True\<rparr>"
proof -
  let ?r = "APIRequest_default\<lparr>req_method := ''POST'', req_request := ''/job/'',
     req_data := [(''shots'', NumberValue (Finite 128)),
       (''circuit'', ListValue [StringValue ''a.qasm'']),
       (''circuit_format'', StringValue ''qasm2''), (''resource_name'', StringValue ''Q20''),
       (''no_modify'', BoolValue True)]\<rparr>"
  have p: "splitPath ''/job/'' = [''job'']"
    using splitPath_join [of "[''job'']" 1 1] by simp
  then have "splitPath (req_request ?r) = [''job'']" by simp
  from p rest_create_iff [OF this, of "\<lparr>cmd_shots = 128, cmd_circuit_files = [''a.qasm''],
     cmd_circuit_format = ''qasm2'', cmd_resource_name = ''Q20'', cmd_no_modify = True\<rparr>"]
  show ?thesis by (simp add: findField_def um_find_def)
qed

text \<open>
  The pending count of a REST response is exact up to \<open>2 ^ 53\<close> tasks, the range in which a
  \<^verbatim>\<open>double\<close> represents every integer.
\<close>

theorem rest_pending_count_exact:
  assumes "unat n \<le> 2 ^ 53"
  shows "um_find (the (resp_response_body (rest_encode (PendingTasksResult n) q))) ''num_pending_jobs'' =
    Some (NumberValue (Finite (of_nat (unat n))))"
  using assms
  by (simp add: rest_encode_def body_defs um_laws double_of_nat_def round53_exact)

theorem rest_pending_count_exact_witness:
  "unat (3 :: uint64) \<le> 2 ^ 53 \<and>
   um_find (the (resp_response_body (rest_encode (PendingTasksResult 3) ''q''))) ''num_pending_jobs'' =
     Some (NumberValue (Finite 3))"
  using rest_pending_count_exact [of 3 "''q''"] by simp

text \<open>
  C35: a client can read every REST response. From the body of the response to any command's result, the
  reader gets back what the result says: the identifier as decimal text, the status, the counts of every
  circuit for every bitstring with the three timestamps each under its own key, the reason, the resources with their
  number of qubits, the number of pending tasks, or the error (an unknown task being one). The counts of
  a circuit are taken to have distinct bitstrings, as in the map they come from, and a pending count to be at most \<open>2 ^ 53\<close>.
\<close>

theorem rest_response_read:
  assumes "rest_exact result"
  shows "map_option rest_read (resp_response_body (rest_encode result queue)) = Some (Some (reply_of result))"
proof (cases result)
  case (TaskStatusResult st)
  then show ?thesis
    by (cases st) (simp_all add: rest_encode_def rest_read_def contains_set setError_def read_set read_status_def)
next
  case (TaskResultResult task)
  have "read_structs (\<lambda>m. Some (requiredInt m)) (map (StructValue \<circ> counts_struct) (result_counts task)) =
      Some (map um_find (result_counts task))"
    by (rule read_structs_map) (use assms TaskResultResult in \<open>auto simp: list_all_iff read_counts\<close>)
  then show ?thesis using TaskResultResult
    by (simp add: rest_encode_def rest_read_def rest_setTaskResult_def contains_set read_result_def read_set read_set_same
        comp_def)
next
  case (ResourceListResult rs)
  have "read_structs read_resource (map (StructValue \<circ> (\<lambda>r. rest_setResource r [])) rs) = Some (map id rs)"
    by (rule read_structs_map) (simp add: read_resource_set)
  then show ?thesis using ResourceListResult
    by (simp add: rest_encode_def rest_read_def rest_setResources_def contains_set read_set_same comp_def)
next
  case (ResourceInfoResult r)
  have "\<not> um_contains (rest_setResource r []) k" if "k \<notin> {''name'', ''qubits'', ''online''}" for k
    using that by (simp add: rest_setResource_def contains_set)
  then show ?thesis using ResourceInfoResult by (simp add: rest_encode_def rest_read_def read_resource_set)
next
  case (PendingTasksResult n)
  with assms show ?thesis by (simp add: rest_encode_def rest_read_def contains_set read_set_nat)
qed (simp_all add: rest_encode_def rest_read_def contains_set read_set setError_def)

theorem rest_response_read_witness:
  "map_option rest_read (resp_response_body (rest_encode (TaskResultResult (CompletedControlTask_default
      \<lparr>result_counts := [[(''00'', 8), (''11'', 2)], []], timestamp_scheduled := ''t1''\<rparr>)) ''q'')) =
   Some (Some (RestResult [um_find [(''00'', 8), (''11'', 2)], um_find []] [] ''t1'' []))"
  using rest_response_read [of "TaskResultResult (CompletedControlTask_default
      \<lparr>result_counts := [[(''00'', 8), (''11'', 2)], []], timestamp_scheduled := ''t1''\<rparr>)" "''q''"]
  by (simp add: um_wf_def CompletedControlTask_default_def)

end
