(* ===== verification/Control.thy ===== *)
theory Control
  imports Forward Typed_Protocol Rest_Protocol
begin

text \<open>
  Execution of Control-interface requests (\<^verbatim>\<open>src/Control.cpp\<close>, \<^verbatim>\<open>Control.hpp\<close>): one handler per
  query command, the creation of tasks, and \<^verbatim>\<open>Control::process\<close>, which selects the protocol,
  decodes, executes and encodes.
\<close>

definition JobIsWaiting :: string where "JobIsWaiting = ''JOB IS WAITING''"
definition JobNotFound :: string where "JobNotFound = ''JOB NOT FOUND''"
definition ResourceNotFound :: string where "ResourceNotFound = ''RESOURCE NOT FOUND''"

definition handle_GetTaskStatus :: "uint64 \<Rightarrow> TaskStore \<Rightarrow> ControlResult \<times> TaskStore" where
  "handle_GetTaskStatus task_id tasks = (TaskStatusResult (status task_id tasks), tasks)"

definition handle_GetTaskResult :: "uint64 \<Rightarrow> TaskStore \<Rightarrow> ControlResult \<times> TaskStore" where
  "handle_GetTaskResult task_id tasks =
     (if status task_id tasks = Waiting then (ControlError JobIsWaiting, tasks)
      else case takeCompletedControlTask task_id tasks of
          (None, tasks') \<Rightarrow> (ControlError JobNotFound, tasks')
        | (Some result, tasks') \<Rightarrow> (TaskResultResult result, tasks'))"

definition handle_GetCancelReason :: "uint64 \<Rightarrow> TaskStore \<Rightarrow> ControlResult \<times> TaskStore" where
  "handle_GetCancelReason task_id tasks =
     (if status task_id tasks = Waiting then (ControlError JobIsWaiting, tasks)
      else case takeCompletedControlTask task_id tasks of
          (None, tasks') \<Rightarrow> (ControlError JobNotFound, tasks')
        | (Some result, tasks') \<Rightarrow> (CancelReasonResult (cancel_reason result), tasks'))"

definition handle_ListResources :: "ResourceRegistry \<Rightarrow> ControlResult" where
  "handle_ListResources reg = ResourceListResult (resources reg)"

definition handle_GetResourceInfo :: "string \<Rightarrow> ResourceRegistry \<Rightarrow> ControlResult" where
  "handle_GetResourceInfo n reg =
     (case find_resource reg n of
        None \<Rightarrow> ControlError ResourceNotFound
      | Some resource \<Rightarrow> ResourceInfoResult resource)"

definition handle_QueryPendingTasks :: "string \<Rightarrow> TaskStore \<Rightarrow> ResourceRegistry \<Rightarrow> ControlResult" where
  "handle_QueryPendingTasks n tasks reg =
     (if find_resource reg n = None then ControlError ResourceNotFound
      else PendingTasksResult (pendingCount tasks))"

definition handle_Invalid :: "string \<Rightarrow> ControlResult" where
  "handle_Invalid message = ControlError message"

definition applyCreateTaskCommand :: "QuantumTask \<Rightarrow> CreateQuantumTaskCommand \<Rightarrow> QuantumTask" where
  "applyCreateTaskCommand task command =
     task\<lparr>qt_n_qbits := 0, qt_n_shots := cmd_shots command,
       qt_circuit_file_type := cmd_circuit_format command,
       qt_preferred_qpu := cmd_resource_name command, qt_no_modify := cmd_no_modify command,
       qt_via_hpc := True,
       qt_circuit_files := qt_circuit_files task @ cmd_circuit_files command\<rparr>"

record ControlExecutionOutcome =
  exec_result :: ControlResult
  exec_outbound_task :: "QuantumTask option"

fun executeControlCommand ::
  "ControlCommand \<Rightarrow> forward_config \<Rightarrow> ResourceRegistry \<Rightarrow> Forward \<Rightarrow> TaskStore \<Rightarrow>
   ControlExecutionOutcome \<times> Forward \<times> TaskStore" where
  "executeControlCommand (CreateQuantumTask command) config reg f tasks =
     (let (forwarded, f', tasks') =
        createControlTask (applyCreateTaskCommand QuantumTask_default command) config f tasks
      in (\<lparr>exec_result = TaskCreatedResult (to_uint64 (qt_task_id forwarded)),
           exec_outbound_task = Some forwarded\<rparr>, f', tasks'))"
| "executeControlCommand (GetTaskStatusCommand k) config reg f tasks =
     (let (r, tasks') = handle_GetTaskStatus k tasks
      in (\<lparr>exec_result = r, exec_outbound_task = None\<rparr>, f, tasks'))"
| "executeControlCommand (GetTaskResultCommand k) config reg f tasks =
     (let (r, tasks') = handle_GetTaskResult k tasks
      in (\<lparr>exec_result = r, exec_outbound_task = None\<rparr>, f, tasks'))"
| "executeControlCommand (GetCancelReasonCommand k) config reg f tasks =
     (let (r, tasks') = handle_GetCancelReason k tasks
      in (\<lparr>exec_result = r, exec_outbound_task = None\<rparr>, f, tasks'))"
| "executeControlCommand ListResourcesCommand config reg f tasks =
     (\<lparr>exec_result = handle_ListResources reg, exec_outbound_task = None\<rparr>, f, tasks)"
| "executeControlCommand (GetResourceInfoCommand n) config reg f tasks =
     (\<lparr>exec_result = handle_GetResourceInfo n reg, exec_outbound_task = None\<rparr>, f, tasks)"
| "executeControlCommand (QueryPendingTasksCommand n) config reg f tasks =
     (\<lparr>exec_result = handle_QueryPendingTasks n tasks reg, exec_outbound_task = None\<rparr>, f, tasks)"
| "executeControlCommand (InvalidControlCommand m) config reg f tasks =
     (\<lparr>exec_result = handle_Invalid m, exec_outbound_task = None\<rparr>, f, tasks)"

definition controlProtocolFor :: "APIRequest \<Rightarrow> ControlProtocol" where
  "controlProtocolFor request =
     (if req_typed_request request \<noteq> TYPED_REQUEST_NOT_SET then TypedControlProtocol
      else RestControlProtocol)"

record ControlMessageOutcome =
  outbound_task :: "QuantumTask option"
  response :: APIResponse

definition control_process ::
  "APIRequest \<Rightarrow> forward_config \<Rightarrow> ResourceRegistry \<Rightarrow> Forward \<Rightarrow> TaskStore \<Rightarrow>
   ControlMessageOutcome \<times> Forward \<times> TaskStore" where
  "control_process request config reg f tasks =
     (let protocol = controlProtocolFor request;
          decoded = protocol_decode protocol request;
          (outcome, f', tasks') = executeControlCommand (dec_command decoded) config reg f tasks;
          resp = protocol_encode protocol (exec_result outcome) (dec_response_queue decoded)
      in (\<lparr>outbound_task = exec_outbound_task outcome, response = resp\<rparr>, f', tasks'))"

text \<open>The command a request stands for, and the error message of its response.\<close>

definition command_of :: "APIRequest \<Rightarrow> ControlCommand" where
  "command_of r = dec_command (protocol_decode (controlProtocolFor r) r)"

definition error_of_response :: "APIRequest \<Rightarrow> APIResponse \<Rightarrow> string option" where
  "error_of_response r a =
     (if req_typed_request r \<noteq> TYPED_REQUEST_NOT_SET then typed_error_of a else rest_error_of a)"

text \<open>The REST request a client would send in place of a typed request.\<close>

definition rest_uuid_path :: "int32 \<Rightarrow> string \<Rightarrow> string" where
  "rest_uuid_path uuid l = join_path [''job'', to_string (nat (sint uuid)), l]"

definition rest_form :: "APIRequest \<Rightarrow> APIRequest" where
  "rest_form r =
     (let (m, p, d) = (case req_typed_request r of
        ReqCreateTask c \<Rightarrow> (''POST'', ''job'',
          [(''shots'', NumberValue (Finite (of_int (sint (ctr_shots c))))),
           (''circuit'', ListValue (map StringValue (ctr_circuit c))),
           (''circuit_format'', StringValue (ctr_circuit_format c)),
           (''resource_name'', StringValue (ctr_resource_name c)),
           (''no_modify'', BoolValue (ctr_no_modify c))])
      | ReqTaskStatus uuid \<Rightarrow> (''GET'', rest_uuid_path uuid ''status'', [])
      | ReqTaskResult uuid \<Rightarrow> (''GET'', rest_uuid_path uuid ''result'', [])
      | ReqCancelReason uuid \<Rightarrow> (''GET'', rest_uuid_path uuid ''cancel_reason'', [])
      | ReqListResources \<Rightarrow> (''GET'', ''resources'', [])
      | ReqResourceInfo n \<Rightarrow> (''GET'', join_path [''resources'', n], [])
      | ReqPendingTasks n \<Rightarrow> (''GET'', join_path [''resources'', n, ''num_pending_jobs''], [])
      | TYPED_REQUEST_NOT_SET \<Rightarrow> ([], [], []))
      in r\<lparr>req_method := m, req_request := p, req_data := d,
           req_typed_request := TYPED_REQUEST_NOT_SET\<rparr>)"

text \<open>
  The typed requests that have a REST form: identifiers and shot counts are not negative, and
  resource names are one non-empty part of a path.
\<close>

definition path_part :: "string \<Rightarrow> bool" where
  "path_part n \<longleftrightarrow> n \<noteq> [] \<and> CHR ''/'' \<notin> set n"

fun rest_expressible :: "typed_request \<Rightarrow> bool" where
  "rest_expressible (ReqCreateTask c) \<longleftrightarrow> 0 \<le> sint (ctr_shots c)"
| "rest_expressible (ReqTaskStatus uuid) \<longleftrightarrow> 0 \<le> sint uuid"
| "rest_expressible (ReqTaskResult uuid) \<longleftrightarrow> 0 \<le> sint uuid"
| "rest_expressible (ReqCancelReason uuid) \<longleftrightarrow> 0 \<le> sint uuid"
| "rest_expressible ReqListResources \<longleftrightarrow> True"
| "rest_expressible (ReqResourceInfo n) \<longleftrightarrow> path_part n"
| "rest_expressible (ReqPendingTasks n) \<longleftrightarrow> path_part n"
| "rest_expressible TYPED_REQUEST_NOT_SET \<longleftrightarrow> False"

lemmas handler_defs = handle_GetTaskStatus_def handle_GetTaskResult_def handle_GetCancelReason_def
  handle_ListResources_def handle_GetResourceInfo_def handle_QueryPendingTasks_def handle_Invalid_def

section \<open>Lemmas\<close>

lemma takeCompleted_Some:
  "completed_map s k = Some c \<Longrightarrow> \<exists>s'. takeCompletedControlTask k s = (Some c, s') \<and>
     pending_map s' = pending_map s \<and> completed_map s' = (completed_map s)(k := None)"
  using ts.take_completed_result [of k s] ts.take_completed_maps [of k s]
  by (cases "takeCompletedControlTask k s") auto

lemma takeCompleted_None:
  "completed_map s k = None \<Longrightarrow> takeCompletedControlTask k s = (None, s)"
  by (simp add: takeCompletedControlTask_def completed_map_def)

lemma protocol_for_queue:
  "resp_destination_queue (protocol_encode (controlProtocolFor r) c
     (dec_response_queue (protocol_decode (controlProtocolFor r) r))) = req_response_queue r"
  by (simp add: controlProtocolFor_def TypedControlProtocol_def RestControlProtocol_def
      typed.reply_queue rest.reply_queue)

lemma protocol_for_error:
  "error_of_response r (protocol_encode (controlProtocolFor r) c q) \<noteq> None \<longleftrightarrow> reports_error c"
  using typed.encode_error rest.encode_error
  by (simp add: error_of_response_def controlProtocolFor_def TypedControlProtocol_def
      RestControlProtocol_def)

lemma control_process_exec:
  assumes "executeControlCommand (command_of r) config reg f tasks = (out, f', tasks')"
  shows "control_process r config reg f tasks =
    (\<lparr>outbound_task = exec_outbound_task out,
      response = protocol_encode (controlProtocolFor r) (exec_result out)
        (dec_response_queue (protocol_decode (controlProtocolFor r) r))\<rparr>, f', tasks')"
  using assms by (simp add: control_process_def command_of_def Let_def)

text \<open>A query leaves the forwarder and the pending tasks alone and sends nothing.\<close>

lemma execute_query:
  assumes "executeControlCommand c config reg f tasks = (out, f', tasks')"
    and "\<And>x. c \<noteq> CreateQuantumTask x"
  shows "exec_outbound_task out = None \<and> f' = f \<and> pending_map tasks' = pending_map tasks \<and>
    (store_wf tasks \<longrightarrow> store_wf tasks')"
  using assms ts.take_completed_maps(1) ts.wf_ops(5)
  by (cases c) (auto simp: handler_defs Let_def split: if_splits prod.splits option.splits, (metis snd_conv)+)

text \<open>What the store keeps of the completed tasks under a query.\<close>

lemma execute_query_completed:
  assumes "executeControlCommand c config reg f tasks = (out, f', tasks')"
    and "\<And>x. c \<noteq> CreateQuantumTask x"
  shows "completed_map tasks' =
    (case c of
       GetTaskResultCommand k \<Rightarrow> if pending_map tasks k = None
         then (completed_map tasks)(k := None) else completed_map tasks
     | GetCancelReasonCommand k \<Rightarrow> if pending_map tasks k = None
         then (completed_map tasks)(k := None) else completed_map tasks
     | _ \<Rightarrow> completed_map tasks)"
proof -
  have take: "takeCompletedControlTask k tasks = (r, s') \<Longrightarrow>
      completed_map s' = (completed_map tasks)(k := None)" for k r s'
    using ts.take_completed_maps(2) [of k tasks] by simp
  show ?thesis
    using assms
    by (cases c) (auto simp: handler_defs Let_def ts.status_waiting_iff take
        split: if_splits prod.splits option.splits)
qed

lemma execute_create:
  assumes "executeControlCommand (CreateQuantumTask cmd) config reg f tasks = (out, f', tasks')"
  defines "k \<equiv> fst (nextTaskId f)"
  shows "exec_result out = TaskCreatedResult (to_uint64 (to_int32 k))"
    and "\<exists>task. exec_outbound_task out = Some task \<and> qt_task_id task = to_int32 k \<and>
      qt_result_destination task = fc_result_queue config \<and> qt_n_shots task = cmd_shots cmd \<and>
      qt_circuit_files task = cmd_circuit_files cmd \<and>
      qt_circuit_file_type task = cmd_circuit_format cmd \<and>
      qt_preferred_qpu task = cmd_resource_name cmd \<and> qt_no_modify task = cmd_no_modify cmd \<and>
      qt_via_hpc task \<and> qt_priority task = (if fc_hpc_node config then 1 else 0)"
    and "f' = snd (nextTaskId f)"
    and "pending_map tasks' = (pending_map tasks)(k \<mapsto> control_entry k)"
    and "completed_map tasks' = completed_map tasks"
proof -
  obtain fwd f1 t1 where c: "createControlTask (applyCreateTaskCommand QuantumTask_default cmd)
      config f tasks = (fwd, f1, t1)" by (metis prod_cases3)
  note eqs = createControlTask_eqs [OF c]
  from assms(1) c have out: "exec_result out = TaskCreatedResult (to_uint64 (qt_task_id fwd))"
    "exec_outbound_task out = Some fwd" "f' = f1" "tasks' = t1" by auto
  show "exec_result out = TaskCreatedResult (to_uint64 (to_int32 k))"
    using out(1) eqs(2) by (simp add: k_def)
  show "f' = snd (nextTaskId f)" "pending_map tasks' = (pending_map tasks)(k \<mapsto> control_entry k)"
    "completed_map tasks' = completed_map tasks"
    using out eqs by (simp_all add: k_def)
  show "\<exists>task. exec_outbound_task out = Some task \<and> qt_task_id task = to_int32 k \<and>
      qt_result_destination task = fc_result_queue config \<and> qt_n_shots task = cmd_shots cmd \<and>
      qt_circuit_files task = cmd_circuit_files cmd \<and>
      qt_circuit_file_type task = cmd_circuit_format cmd \<and>
      qt_preferred_qpu task = cmd_resource_name cmd \<and> qt_no_modify task = cmd_no_modify cmd \<and>
      qt_via_hpc task \<and> qt_priority task = (if fc_hpc_node config then 1 else 0)"
    using out(2) eqs(2) by (simp add: k_def applyCreateTaskCommand_def QuantumTask_default_def)
qed

lemmas protocol_defs = controlProtocolFor_def TypedControlProtocol_def RestControlProtocol_def

lemma command_of_typed:
  "req_typed_request r \<noteq> TYPED_REQUEST_NOT_SET \<Longrightarrow> command_of r = dec_command (typed_decode r)"
  by (simp add: command_of_def protocol_defs)

lemma command_of_rest:
  "req_typed_request r = TYPED_REQUEST_NOT_SET \<Longrightarrow> command_of r = rest_command r"
  by (simp add: command_of_def protocol_defs rest_decode_def)

lemma response_typed:
  assumes "executeControlCommand (command_of r) config reg f tasks = (out, f', tasks')"
    and "req_typed_request r \<noteq> TYPED_REQUEST_NOT_SET"
  shows "control_process r config reg f tasks =
    (\<lparr>outbound_task = exec_outbound_task out,
      response = typed_encode (exec_result out) (req_response_queue r)\<rparr>, f', tasks')"
  using control_process_exec [OF assms(1)] assms(2) by (simp add: protocol_defs typed_decode_def)

lemma response_rest:
  assumes "executeControlCommand (command_of r) config reg f tasks = (out, f', tasks')"
    and "req_typed_request r = TYPED_REQUEST_NOT_SET"
  shows "control_process r config reg f tasks =
    (\<lparr>outbound_task = exec_outbound_task out,
      response = rest_encode (exec_result out) (req_response_queue r)\<rparr>, f', tasks')"
  using control_process_exec [OF assms(1)] assms(2) by (simp add: protocol_defs rest_decode_def)

text \<open>The REST form of a typed request, as a command.\<close>

lemma rest_form_untyped: "req_typed_request (rest_form r) = TYPED_REQUEST_NOT_SET"
  by (simp add: rest_form_def split: typed_request.split)

lemma rest_form_queue: "req_response_queue (rest_form r) = req_response_queue r"
  by (simp add: rest_form_def split: typed_request.split)

lemma split_uuid_path:
  assumes "path_part l"
  shows "splitPath (rest_uuid_path uuid l) = [''job'', to_string (nat (sint uuid)), l]"
  unfolding rest_uuid_path_def
  using assms splitPath_join [of "[''job'', to_string (nat (sint uuid)), l]" 0 0] digits_no_slash
  by (simp add: path_part_def)

lemma parseTaskId_uuid:
  assumes "0 \<le> sint uuid"
  shows "parseTaskId (to_string (nat (sint uuid))) = Some (to_uint64 uuid)"
proof -
  have "sint uuid < 2 ^ 63" using sint_less [of uuid] by simp
  with assms have "sint (to_uint64 uuid) = sint uuid"
    by (simp add: to_uint64_def signed_scast_eq signed_take_bit_int_eq_self)
  with assms \<open>sint uuid < 2 ^ 63\<close> have "uint (to_uint64 uuid) = sint uuid"
    by (simp add: uint_sint take_bit_int_eq_self)
  then have "nat (sint uuid) = unat (to_uint64 uuid)" by (simp flip: nat_uint_eq)
  then show ?thesis by simp
qed

lemma rest_form_command:
  assumes "rest_expressible (req_typed_request r)"
  shows "command_of (rest_form r) = command_of r"
proof (cases "req_typed_request r")
  case (ReqCreateTask c)
  have "splitPath ''job'' = [''job'']" using splitPath_join [of "[''job'']" 0 0] by simp
  then have "rest_command (rest_form r) = CreateQuantumTask (makeCreateCommand c)"
    using assms by (simp add: rest_form_def ReqCreateTask rest_command_def createTaskCommand_iff
        makeCreateCommand_def findField_def um_find_def)
  then show ?thesis
    by (simp add: command_of_rest rest_form_untyped command_of_typed ReqCreateTask typed_decode_def)
next
  case ReqListResources
  have "splitPath ''resources'' = [''resources'']" using splitPath_join [of "[''resources'']" 0 0] by simp
  then show ?thesis
    by (simp add: command_of_rest rest_form_untyped command_of_typed ReqListResources
        typed_decode_def rest_command_def rest_form_def)
next
  case (ReqResourceInfo n)
  have "splitPath (join_path [''resources'', n]) = [''resources'', n]"
    using assms splitPath_join [of "[''resources'', n]" 0 0] by (simp add: ReqResourceInfo path_part_def)
  then show ?thesis
    using assms by (simp add: command_of_rest rest_form_untyped command_of_typed ReqResourceInfo
        typed_decode_def rest_command_def rest_form_def path_part_def del: join_path.simps)
next
  case (ReqPendingTasks n)
  have "splitPath (join_path [''resources'', n, ''num_pending_jobs'']) =
      [''resources'', n, ''num_pending_jobs'']"
    using assms splitPath_join [of "[''resources'', n, ''num_pending_jobs'']" 0 0]
    by (simp add: ReqPendingTasks path_part_def)
  then show ?thesis
    using assms by (simp add: command_of_rest rest_form_untyped command_of_typed ReqPendingTasks
        typed_decode_def rest_command_def rest_form_def path_part_def del: join_path.simps)
qed (use assms in \<open>simp_all add: command_of_rest rest_form_untyped command_of_typed typed_decode_def
    rest_command_def rest_form_def split_uuid_path path_part_def parseTaskId_uuid\<close>)

text \<open>When the result of a query is reported as an error, in terms of the two maps.\<close>

lemma execute_error_iff:
  assumes "executeControlCommand c config reg f tasks = (out, f', tasks')"
  shows "reports_error (exec_result out) \<longleftrightarrow>
    (case c of
       CreateQuantumTask x \<Rightarrow> False
     | GetTaskStatusCommand k \<Rightarrow> pending_map tasks k = None \<and> completed_map tasks k = None
     | GetTaskResultCommand k \<Rightarrow> pending_map tasks k \<noteq> None \<or> completed_map tasks k = None
     | GetCancelReasonCommand k \<Rightarrow> pending_map tasks k \<noteq> None \<or> completed_map tasks k = None
     | ListResourcesCommand \<Rightarrow> False
     | GetResourceInfoCommand n \<Rightarrow> n \<notin> ri_name ` set reg
     | QueryPendingTasksCommand n \<Rightarrow> n \<notin> ri_name ` set reg
     | InvalidControlCommand m \<Rightarrow> True)"
proof -
  have st: "reports_error (TaskStatusResult x) \<longleftrightarrow> x = NotFound" for x by (cases x) auto
  have nf: "find_resource reg n = Some y \<Longrightarrow> n \<in> ri_name ` set reg" for n y
    using find_resource_None_iff [of reg n] by simp
  have tk: "takeCompletedControlTask k tasks = (x, y) \<Longrightarrow> completed_map tasks k = x" for k x y
    using ts.take_completed_result [of k tasks] by simp
  show ?thesis
    using assms
    by (cases c) (auto simp: handler_defs Let_def st ts.status_waiting_iff ts.status_not_found_iff
        find_resource_None_iff dest: tk nf split: if_splits prod.splits option.splits)
qed

text \<open>The requests of the typed protocol, one by one.\<close>

lemma typed_create:
  assumes "req_typed_request r = ReqCreateTask c"
    and "control_process r config reg f tasks = (out, f', tasks')"
  shows "resp_typed_response (response out) = RespCreateTask (to_int32 (to_uint64 (to_int32 (fst (nextTaskId f)))))"
    and "\<exists>task. outbound_task out = Some task \<and> qt_task_id task = to_int32 (fst (nextTaskId f))"
    and "pending_map tasks' (fst (nextTaskId f)) = Some (control_entry (fst (nextTaskId f)))"
proof -
  obtain o1 g1 s1 where e1: "executeControlCommand (command_of r) config reg f tasks = (o1, g1, s1)"
    by (metis prod_cases3)
  have "command_of r = CreateQuantumTask (makeCreateCommand c)"
    using assms(1) by (simp add: command_of_typed typed_decode_def)
  note x1 = execute_create [OF e1 [unfolded this]]
  from response_typed [OF e1] assms
  have r1: "out = \<lparr>outbound_task = exec_outbound_task o1,
      response = typed_encode (exec_result o1) (req_response_queue r)\<rparr>" "s1 = tasks'" by auto
  show "resp_typed_response (response out) = RespCreateTask (to_int32 (to_uint64 (to_int32 (fst (nextTaskId f)))))"
    using x1(1) by (simp add: r1(1) typed_encode_def del: nextTaskId_simps)
  show "\<exists>task. outbound_task out = Some task \<and> qt_task_id task = to_int32 (fst (nextTaskId f))"
    "pending_map tasks' (fst (nextTaskId f)) = Some (control_entry (fst (nextTaskId f)))"
    using x1(2,4) r1 by auto
qed

lemma typed_ask:
  assumes "req_typed_request r = ReqTaskStatus uuid" and "to_uint64 uuid = k"
    and "control_process r config reg f tasks = (out, f', tasks')"
  shows "resp_typed_response (response out) = typed_response_for (TaskStatusResult (status k tasks))"
    and "tasks' = tasks"
proof -
  have "executeControlCommand (command_of r) config reg f tasks =
      (\<lparr>exec_result = TaskStatusResult (status k tasks), exec_outbound_task = None\<rparr>, f, tasks)"
    using assms(1,2) by (simp add: command_of_typed typed_decode_def handler_defs)
  from response_typed [OF this] assms
  show "resp_typed_response (response out) = typed_response_for (TaskStatusResult (status k tasks))"
    "tasks' = tasks"
    by (auto simp: typed_encode_def simp del: typed_response_for.simps)
qed

lemma typed_fetch:
  assumes "req_typed_request r = ReqTaskResult uuid" and "to_uint64 uuid = k"
    and "pending_map tasks k = None" and "completed_map tasks k = Some c"
    and "control_process r config reg f tasks = (out, f', tasks')"
  shows "resp_typed_response (response out) = RespTaskResult (typed_setTaskResult c)"
    and "pending_map tasks' k = None" and "completed_map tasks' k = None"
proof -
  obtain s' where s': "takeCompletedControlTask k tasks = (Some c, s')"
    "pending_map s' = pending_map tasks" "completed_map s' k = None"
    using takeCompleted_Some [OF assms(4)] by auto
  have "executeControlCommand (command_of r) config reg f tasks =
      (\<lparr>exec_result = TaskResultResult c, exec_outbound_task = None\<rparr>, f, s')"
    using assms(1-3) s'(1)
    by (simp add: command_of_typed typed_decode_def handler_defs ts.status_waiting_iff)
  from response_typed [OF this] assms s'
  show "resp_typed_response (response out) = RespTaskResult (typed_setTaskResult c)"
    "pending_map tasks' k = None" "completed_map tasks' k = None"
    by (auto simp: typed_encode_def)
qed

lemma typed_fetch_missing:
  assumes "req_typed_request r = ReqTaskResult uuid" and "to_uint64 uuid = k"
    and "pending_map tasks k = None" and "completed_map tasks k = None"
    and "control_process r config reg f tasks = (out, f', tasks')"
  shows "resp_typed_response (response out) = RespError ''JOB NOT FOUND''"
proof -
  have "executeControlCommand (command_of r) config reg f tasks =
      (\<lparr>exec_result = ControlError JobNotFound, exec_outbound_task = None\<rparr>, f, tasks)"
    using assms(1-3) takeCompleted_None [OF assms(4)]
    by (simp add: command_of_typed typed_decode_def handler_defs ts.status_waiting_iff)
  from response_typed [OF this] assms show ?thesis
    by (auto simp: typed_encode_def JobNotFound_def)
qed

section \<open>Properties\<close>

text \<open>
  C12: every Control request is answered on the queue its client named, and the answer is an error
  in exactly these cases: the request is invalid; the status, result or cancel reason of a task is
  asked for that is neither pending nor completed; the result or cancel reason of a task is asked
  for that is still pending; a resource is named that is not in the catalogue.
\<close>

theorem control_answers:
  "let resp = response (fst (control_process r config reg f tasks)) in
     resp_destination_queue resp = req_response_queue r \<and>
     (error_of_response r resp \<noteq> None \<longleftrightarrow>
      (case command_of r of
         CreateQuantumTask x \<Rightarrow> False
       | GetTaskStatusCommand k \<Rightarrow> pending_map tasks k = None \<and> completed_map tasks k = None
       | GetTaskResultCommand k \<Rightarrow> \<not> (pending_map tasks k = None \<and> completed_map tasks k \<noteq> None)
       | GetCancelReasonCommand k \<Rightarrow> \<not> (pending_map tasks k = None \<and> completed_map tasks k \<noteq> None)
       | ListResourcesCommand \<Rightarrow> False
       | GetResourceInfoCommand n \<Rightarrow> n \<notin> ri_name ` set reg
       | QueryPendingTasksCommand n \<Rightarrow> n \<notin> ri_name ` set reg
       | InvalidControlCommand m \<Rightarrow> True))"
proof -
  obtain out f' tasks' where
    e: "executeControlCommand (command_of r) config reg f tasks = (out, f', tasks')"
    by (metis prod_cases3)
  show ?thesis
    unfolding control_process_exec [OF e] Let_def fst_conv ControlMessageOutcome.simps
      protocol_for_queue protocol_for_error execute_error_iff [OF e]
    by (simp split: ControlCommand.split)
qed

text \<open>
  C17: a task is sent to the resource manager exactly when the request is a valid task creation.
  Then the task carries the client's circuits, format, shots and resource and QOffload's own
  result queue, its 64-bit identifier is registered as a pending control task before it is handed
  to the sender, and nothing else in the store changes. Every other request sends nothing and
  leaves the pending tasks and the identifier counter alone.
\<close>

theorem control_creates_exactly:
  assumes "control_process r config reg f tasks = (out, f', tasks')"
  shows "case command_of r of
      CreateQuantumTask cmd \<Rightarrow>
        (\<exists>task. outbound_task out = Some task \<and>
          qt_task_id task = to_int32 (fst (nextTaskId f)) \<and>
          qt_result_destination task = fc_result_queue config \<and>
          qt_n_shots task = cmd_shots cmd \<and> qt_circuit_files task = cmd_circuit_files cmd \<and>
          qt_circuit_file_type task = cmd_circuit_format cmd \<and>
          qt_preferred_qpu task = cmd_resource_name cmd \<and>
          qt_no_modify task = cmd_no_modify cmd \<and> qt_via_hpc task \<and>
          qt_priority task = (if fc_hpc_node config then 1 else 0)) \<and>
        next_task_index f' = next_task_index f + 1 \<and>
        pending_map tasks' =
          (pending_map tasks)(fst (nextTaskId f) \<mapsto> control_entry (fst (nextTaskId f))) \<and>
        completed_map tasks' = completed_map tasks
    | _ \<Rightarrow> outbound_task out = None \<and> f' = f \<and> pending_map tasks' = pending_map tasks"
proof -
  obtain o1 f1 t1 where
    e: "executeControlCommand (command_of r) config reg f tasks = (o1, f1, t1)"
    by (metis prod_cases3)
  from control_process_exec [OF e] assms
  have eqs: "outbound_task out = exec_outbound_task o1" "f' = f1" "tasks' = t1" by auto
  show ?thesis
  proof (cases "\<exists>cmd. command_of r = CreateQuantumTask cmd")
    case True
    then obtain cmd where cmd: "command_of r = CreateQuantumTask cmd" by blast
    from execute_create [OF e [unfolded cmd]] show ?thesis
      by (simp add: eqs cmd nextTaskId_def)
  next
    case False
    then have "\<And>x. command_of r \<noteq> CreateQuantumTask x" by blast
    from execute_query [OF e this] False show ?thesis
      by (auto simp: eqs split: ControlCommand.splits)
  qed
qed

theorem control_creates_exactly_witness:
  "\<exists>task. outbound_task (fst (control_process
        (APIRequest_default\<lparr>req_typed_request := ReqCreateTask \<lparr>ctr_shots = 100,
           ctr_circuit = [''OPENQASM 2.0;''], ctr_circuit_format = ''qasm'',
           ctr_resource_name = ''Q20'', ctr_no_modify = False\<rparr>\<rparr>)
        \<lparr>fc_result_queue = ''results'', fc_hpc_node = True\<rparr> ResourceRegistry_init
        (Forward_init 11) TaskStore_empty)) = Some task \<and>
     qt_circuit_files task = [''OPENQASM 2.0;''] \<and> qt_priority task = 1"
proof -
  let ?r = "APIRequest_default\<lparr>req_typed_request := ReqCreateTask \<lparr>ctr_shots = 100,
    ctr_circuit = [''OPENQASM 2.0;''], ctr_circuit_format = ''qasm'',
    ctr_resource_name = ''Q20'', ctr_no_modify = False\<rparr>\<rparr>"
  let ?cfg = "\<lparr>fc_result_queue = ''results'', fc_hpc_node = True\<rparr>"
  obtain out f' tasks' where c: "control_process ?r ?cfg ResourceRegistry_init (Forward_init 11)
      TaskStore_empty = (out, f', tasks')" by (metis prod_cases3)
  have "command_of ?r = CreateQuantumTask \<lparr>cmd_shots = 100, cmd_circuit_files = [''OPENQASM 2.0;''],
      cmd_circuit_format = ''qasm'', cmd_resource_name = ''Q20'', cmd_no_modify = False\<rparr>"
    by (simp add: command_of_typed typed_decode_def makeCreateCommand_def)
  with control_creates_exactly [OF c] c show ?thesis by auto
qed

text \<open>
  C16: a whole session over the typed protocol. A client creates a task and is told an id. When the
  resource manager's result for the task that was sent out arrives, a status request with that id
  is answered with the outcome, the result request with the counts that were reported, and a
  second result request with ``JOB NOT FOUND''. This needs the assigned identifier to be below
  \<open>2 ^ 31\<close>, and nothing of the store before the session.
\<close>

theorem typed_session:
  assumes fits: "fits_int32 (fst (nextTaskId f))"
    and create: "req_typed_request create = ReqCreateTask c"
      "control_process create config reg f tasks = (out1, f1, tasks1)"
    and id: "resp_typed_response (response out1) = RespCreateTask uuid"
    and result: "outbound_task out1 = Some task" "qr_task_id result = qt_task_id task"
      "processResult result tasks1 = (po, tasks2)"
    and ask: "req_typed_request ask = ReqTaskStatus uuid"
      "control_process ask config reg f1 tasks2 = (out2, f2, tasks3)"
    and fetch: "req_typed_request fetch = ReqTaskResult uuid"
      "control_process fetch config reg f2 tasks3 = (out3, f3, tasks4)"
      "control_process fetch config reg f3 tasks4 = (out4, f4, tasks5)"
  shows "resp_typed_response (response out2) = RespTaskStatus
      (if qr_execution_status result then API_TASK_STATUS_COMPLETED else API_TASK_STATUS_CANCELLED) \<and>
    (\<exists>answer. resp_typed_response (response out3) = RespTaskResult answer \<and>
       map (um_find \<circ> counts) (trr_result answer) = map (um_find \<circ> counts) (qr_results result)) \<and>
    resp_typed_response (response out4) = RespError ''JOB NOT FOUND''"
proof -
  let ?k = "fst (nextTaskId f)"
  let ?c = "completed_task (control_entry ?k) result"
  note x1 = typed_create [OF create]
  have uuid: "to_uint64 uuid = ?k"
    using id x1(1) to_uint64_to_int32 [OF fits] by (auto simp del: nextTaskId_simps)
  have rid: "to_uint64 (qr_task_id result) = ?k"
    using result(1,2) x1(2) fits by (auto simp: to_uint64_to_int32 simp del: nextTaskId_simps)
  from x1(3) have "pending_map tasks1 (to_uint64 (qr_task_id result)) = Some (control_entry ?k)"
    by (simp add: rid)
  from processResult_control [OF this] result(3)
  have maps2: "pending_map tasks2 ?k = None" "completed_map tasks2 ?k = Some ?c"
    by (auto simp: rid control_entry_def)
  note r2 = typed_ask [OF ask(1) uuid ask(2)]
  from r2(2) maps2 have maps3: "pending_map tasks3 ?k = None" "completed_map tasks3 ?k = Some ?c"
    by simp_all
  note r3 = typed_fetch [OF fetch(1) uuid maps3 fetch(2)]
  note r4 = typed_fetch_missing [OF fetch(1) uuid r3(2,3) fetch(3)]
  have "map (um_find \<circ> counts) (trr_result (typed_setTaskResult ?c)) =
      map (um_find \<circ> counts) (qr_results result)"
    by (subst trr_result_find) (simp_all add: completed_task_def list_all_iff)
  with r2(1) r3(1) r4 maps2 show ?thesis
    by (simp add: ts.status_maps abstract_status_def)
qed

theorem typed_session_witness:
  "\<exists>answer. resp_typed_response (response (fst (control_process
       (APIRequest_default\<lparr>req_typed_request := ReqTaskResult 11\<rparr>)
       \<lparr>fc_result_queue = ''results'', fc_hpc_node = False\<rparr> ResourceRegistry_init
       (snd (nextTaskId (Forward_init 11)))
       (snd (processResult (QuantumResult_default\<lparr>qr_task_id := 11, qr_execution_status := True,
             qr_results := [\<lparr>counts = [(''00'', 60), (''11'', 40)]\<rparr>]\<rparr>)
          (addControlTask 11 TaskStore_empty)))))) = RespTaskResult answer \<and>
     map (um_find \<circ> counts) (trr_result answer) = [um_find [(''00'', 60), (''11'', 40)]]"
proof -
  let ?c = "\<lparr>ctr_shots = 100, ctr_circuit = [''OPENQASM 2.0;''], ctr_circuit_format = ''qasm'',
    ctr_resource_name = ''Q20'', ctr_no_modify = False\<rparr>"
  let ?create = "APIRequest_default\<lparr>req_typed_request := ReqCreateTask ?c\<rparr>"
  let ?ask = "APIRequest_default\<lparr>req_typed_request := ReqTaskStatus 11\<rparr>"
  let ?fetch = "APIRequest_default\<lparr>req_typed_request := ReqTaskResult 11\<rparr>"
  let ?cfg = "\<lparr>fc_result_queue = ''results'', fc_hpc_node = False\<rparr>"
  let ?f = "Forward_init 11"
  let ?result = "QuantumResult_default\<lparr>qr_task_id := 11, qr_execution_status := True,
    qr_results := [\<lparr>counts = [(''00'', 60), (''11'', 40)]\<rparr>]\<rparr>"
  let ?reg = ResourceRegistry_init
  have fits: "fits_int32 (fst (nextTaskId ?f))" by (simp add: Forward_init_def fits_int32_def)
  obtain out1 where c1: "control_process ?create ?cfg ?reg ?f TaskStore_empty =
      (out1, snd (nextTaskId ?f), addControlTask 11 TaskStore_empty)"
    by (simp add: control_process_def protocol_defs typed_decode_def createControlTask_def
        nextTaskId_def Forward_init_def Let_def)
  note x1 = typed_create [OF _ c1, of ?c, simplified]
  have id: "resp_typed_response (response out1) = RespCreateTask 11"
    using x1(1) by (simp add: Forward_init_def to_int32_def)
  obtain task where t: "outbound_task out1 = Some task" "qr_task_id ?result = qt_task_id task"
    using x1(2) by (auto simp: Forward_init_def to_int32_def)
  obtain po tasks2 where p: "processResult ?result (addControlTask 11 TaskStore_empty) = (po, tasks2)"
    by (metis prod.exhaust)
  obtain out2 f2 tasks3 where
    c2: "control_process ?ask ?cfg ?reg (snd (nextTaskId ?f)) tasks2 = (out2, f2, tasks3)"
    by (metis prod_cases3)
  obtain out3 f3 tasks4 where c3: "control_process ?fetch ?cfg ?reg f2 tasks3 = (out3, f3, tasks4)"
    by (metis prod_cases3)
  obtain out4 f4 tasks5 where c4: "control_process ?fetch ?cfg ?reg f3 tasks4 = (out4, f4, tasks5)"
    by (metis prod_cases3)
  have same: "f2 = snd (nextTaskId ?f)" "tasks3 = tasks2"
    using c2 by (simp_all add: control_process_def protocol_defs typed_decode_def handler_defs)
  from typed_session [OF fits _ c1 id t p _ c2 _ c3 c4, of ?c] show ?thesis
    using p c3 by (simp add: same)
qed

text \<open>
  C38: asking for the cancel reason of a finished task answers with the stored reason, which
  \<^verbatim>\<open>processResult\<close> never sets, and discards the task's result: a later result request finds
  nothing.
\<close>

theorem cancel_reason_discards_result:
  assumes "command_of r = GetCancelReasonCommand k"
    and "pending_map tasks k = None" and "completed_map tasks k = Some c"
    and "control_process r config reg f tasks = (out, f', tasks')"
  shows "response out = protocol_encode (controlProtocolFor r) (CancelReasonResult (cancel_reason c))
      (req_response_queue r) \<and>
    fst (handle_GetTaskResult k tasks') = ControlError JobNotFound \<and>
    (\<forall>k'. k' = k \<or> completed_map tasks' k' = completed_map tasks k')"
proof -
  obtain s' where s': "takeCompletedControlTask k tasks = (Some c, s')"
    "pending_map s' = pending_map tasks" "completed_map s' = (completed_map tasks)(k := None)"
    using takeCompleted_Some [OF assms(3)] by auto
  have e: "executeControlCommand (command_of r) config reg f tasks =
      (\<lparr>exec_result = CancelReasonResult (cancel_reason c), exec_outbound_task = None\<rparr>, f, s')"
    using assms(1,2) s'(1) by (simp add: handler_defs ts.status_waiting_iff)
  have q: "dec_response_queue (protocol_decode (controlProtocolFor r) r) = req_response_queue r"
    by (simp add: protocol_defs typed.decode_queue rest.decode_queue)
  show ?thesis
    using control_process_exec [OF e] assms(2,4) s' takeCompleted_None [of s' k]
    by (auto simp: q handler_defs ts.status_waiting_iff)
qed

theorem cancel_reason_discards_result_witness:
  "fst (handle_GetTaskResult 11 (snd (snd (control_process
      (APIRequest_default\<lparr>req_method := ''GET'', req_request := ''/job/11/cancel_reason''\<rparr>)
      \<lparr>fc_result_queue = ''results'', fc_hpc_node = False\<rparr> ResourceRegistry_init (Forward_init 11)
      (storeCompletedControlTask (CompletedControlTask_default\<lparr>ct_task_id := 11\<rparr>) TaskStore_empty)))))
   = ControlError JobNotFound"
proof -
  let ?r = "APIRequest_default\<lparr>req_method := ''GET'', req_request := ''/job/11/cancel_reason''\<rparr>"
  let ?s = "storeCompletedControlTask (CompletedControlTask_default\<lparr>ct_task_id := 11\<rparr>) TaskStore_empty"
  let ?cfg = "\<lparr>fc_result_queue = ''results'', fc_hpc_node = False\<rparr>"
  obtain out f' tasks' where
    c: "control_process ?r ?cfg ResourceRegistry_init (Forward_init 11) ?s = (out, f', tasks')"
    by (metis prod_cases3)
  have path: "splitPath ''/job/11/cancel_reason'' = [''job'', ''11'', ''cancel_reason'']"
    by code_simp
  have pid: "parseTaskId ''11'' = Some 11" by code_simp
  have cmd: "command_of ?r = GetCancelReasonCommand 11"
    by (simp add: command_of_rest APIRequest_default_def rest_command_def path pid)
  have "pending_map ?s 11 = None"
    "completed_map ?s 11 = Some (CompletedControlTask_default\<lparr>ct_task_id := 11\<rparr>)"
    by (simp_all add: ts.maps)
  from cancel_reason_discards_result [OF cmd this c] c show ?thesis by simp
qed

text \<open>
  C18: the two protocols agree. A typed request that has a REST form (task ids and shot counts not
  negative, resource names one path part) and its REST form are the same command: they send the
  same task, leave the same forwarder and store behind, are answered on the same queue, and either
  both or neither are answered with an error.
\<close>

theorem rest_and_typed_agree:
  assumes "rest_expressible (req_typed_request r)"
    and "control_process r config reg f tasks = (out, f1, tasks1)"
    and "control_process (rest_form r) config reg f tasks = (out', f2, tasks2)"
  shows "command_of (rest_form r) = command_of r \<and>
    outbound_task out' = outbound_task out \<and> f2 = f1 \<and> tasks2 = tasks1 \<and>
    resp_destination_queue (response out') = resp_destination_queue (response out) \<and>
    (rest_error_of (response out') = None \<longleftrightarrow> typed_error_of (response out) = None)"
proof -
  obtain o1 g1 s1 where e: "executeControlCommand (command_of r) config reg f tasks = (o1, g1, s1)"
    by (metis prod_cases3)
  note same = rest_form_command [OF assms(1)]
  have e': "executeControlCommand (command_of (rest_form r)) config reg f tasks = (o1, g1, s1)"
    using e by (simp add: same)
  have t: "req_typed_request r \<noteq> TYPED_REQUEST_NOT_SET"
    using assms(1) by (cases "req_typed_request r") auto
  show ?thesis
    using same assms(2,3) response_typed [OF e t] response_rest [OF e' rest_form_untyped]
    by (auto simp: rest_form_queue typed.encode_queue rest.encode_queue typed.no_error_iff
        rest.no_error_iff)
qed

theorem rest_and_typed_agree_witness:
  "rest_expressible (ReqPendingTasks ''Q20'') \<and>
   command_of (rest_form (APIRequest_default\<lparr>req_typed_request := ReqPendingTasks ''Q20''\<rparr>)) =
     QueryPendingTasksCommand ''Q20''"
proof -
  let ?r = "APIRequest_default\<lparr>req_typed_request := ReqPendingTasks ''Q20''\<rparr>"
  let ?cfg = "\<lparr>fc_result_queue = ''results'', fc_hpc_node = False\<rparr>"
  have x: "rest_expressible (req_typed_request ?r)" by (simp add: path_part_def)
  obtain out f1 tasks1 where
    a: "control_process ?r ?cfg ResourceRegistry_init (Forward_init 11) TaskStore_empty = (out, f1, tasks1)"
    by (metis prod_cases3)
  obtain out' f2 tasks2 where
    b: "control_process (rest_form ?r) ?cfg ResourceRegistry_init (Forward_init 11) TaskStore_empty =
      (out', f2, tasks2)"
    by (metis prod_cases3)
  from rest_and_typed_agree [OF x a b] x show ?thesis
    by (simp add: command_of_typed typed_decode_def)
qed

end
