(* ===== verification/Status.thy ===== *)
theory Status
  imports Mqss_Prelude
begin

text \<open>
  Status codes and results (\<^verbatim>\<open>include/mqss/Status.hpp\<close>). \<^verbatim>\<open>Result<T>\<close>, an alias of
  \<^verbatim>\<open>std::expected<T, Status>\<close>, is a sum with the failure status on the left.
\<close>

datatype StatusCode =
    Ok
  | Timeout
  | Unavailable
  | Unsupported
  | InvalidArgument
  | Serialization
  | Configuration
  | Internal

record Status =
  st_code :: StatusCode
  st_reason :: string

type_synonym 'a Result = "Status + 'a"

definition success :: Status where
  "success = \<lparr>st_code = Ok, st_reason = []\<rparr>"

definition timeout :: "string \<Rightarrow> Status" where
  "timeout reason = \<lparr>st_code = Timeout, st_reason = reason\<rparr>"

definition unavailable :: "string \<Rightarrow> Status" where
  "unavailable reason = \<lparr>st_code = Unavailable, st_reason = reason\<rparr>"

definition unsupported :: "string \<Rightarrow> Status" where
  "unsupported reason = \<lparr>st_code = Unsupported, st_reason = reason\<rparr>"

definition invalidArgument :: "string \<Rightarrow> Status" where
  "invalidArgument reason = \<lparr>st_code = InvalidArgument, st_reason = reason\<rparr>"

definition serialization :: "string \<Rightarrow> Status" where
  "serialization reason = \<lparr>st_code = Serialization, st_reason = reason\<rparr>"

definition configuration :: "string \<Rightarrow> Status" where
  "configuration reason = \<lparr>st_code = Configuration, st_reason = reason\<rparr>"

definition internal :: "string \<Rightarrow> Status" where
  "internal reason = \<lparr>st_code = Internal, st_reason = reason\<rparr>"

definition ok :: "Status \<Rightarrow> bool" where
  "ok s \<longleftrightarrow> st_code s = Ok"

definition code :: "Status \<Rightarrow> StatusCode" where
  "code s = st_code s"

definition reason :: "Status \<Rightarrow> string" where
  "reason s = st_reason s"

lemmas status_defs = success_def timeout_def unavailable_def unsupported_def invalidArgument_def
  serialization_def configuration_def internal_def

text \<open>
  The statuses a program can hold are those of the factory functions (the constructor is
  private): exactly the success status has the code \<open>Ok\<close>.
\<close>

inductive constructed :: "Status \<Rightarrow> bool" where
  "constructed success"
| "constructed (timeout r)"
| "constructed (unavailable r)"
| "constructed (unsupported r)"
| "constructed (invalidArgument r)"
| "constructed (serialization r)"
| "constructed (configuration r)"
| "constructed (internal r)"

lemma code_simps [simp]:
  "code success = Ok" "code (timeout r) = Timeout" "code (unavailable r) = Unavailable"
  "code (unsupported r) = Unsupported" "code (invalidArgument r) = InvalidArgument"
  "code (serialization r) = Serialization" "code (configuration r) = Configuration"
  "code (internal r) = Internal"
  by (simp_all add: code_def status_defs)

lemma ok_iff_code: "ok s \<longleftrightarrow> code s = Ok"
  by (simp add: ok_def code_def)

lemma ok_simps [simp]:
  "ok success" "\<not> ok (timeout r)" "\<not> ok (unavailable r)" "\<not> ok (unsupported r)"
  "\<not> ok (invalidArgument r)" "\<not> ok (serialization r)" "\<not> ok (configuration r)"
  "\<not> ok (internal r)"
  by (simp_all add: ok_iff_code)

lemma reason_simps [simp]:
  "reason success = []" "reason (timeout r) = r" "reason (unavailable r) = r"
  "reason (unsupported r) = r" "reason (invalidArgument r) = r" "reason (serialization r) = r"
  "reason (configuration r) = r" "reason (internal r) = r"
  by (simp_all add: reason_def status_defs)

lemma constructed_ok: "constructed s \<Longrightarrow> ok s \<Longrightarrow> s = success"
  by (induction rule: constructed.induct) auto

end
