(* ===== verification/App_Config.thy ===== *)
theory App_Config
  imports Status
begin

text \<open>
  The configuration helpers of the framework (\<^verbatim>\<open>include/mqss/Config.hpp\<close>): typed access to
  environment variables, and loading, storing and reading a process-wide configuration. The
  environment is a function from names to values; the hooks an application supplies
  (\<^verbatim>\<open>makeDefaultConfig\<close>, \<^verbatim>\<open>applyEnvironment\<close>, \<^verbatim>\<open>applyCommandLine\<close>) are arguments, and the locale
  \<open>config_hooks\<close> is what the framework relies on in them.
\<close>

type_synonym env = "string \<Rightarrow> string option"

fun getEnv :: "env \<Rightarrow> string list \<Rightarrow> string option" where
  "getEnv env [] = None"
| "getEnv env (n # ns) = (case env n of Some v \<Rightarrow> Some v | None \<Rightarrow> getEnv env ns)"

definition getEnvOr :: "env \<Rightarrow> string list \<Rightarrow> string \<Rightarrow> string" where
  "getEnvOr env names fallback = (case getEnv env names of Some v \<Rightarrow> v | None \<Rightarrow> fallback)"

text \<open>The integer template, for a type given by its signedness, its range and its values.\<close>

definition getEnvOr_integral ::
  "bool \<Rightarrow> int \<Rightarrow> int \<Rightarrow> (int \<Rightarrow> 'a) \<Rightarrow> env \<Rightarrow> string list \<Rightarrow> 'a \<Rightarrow> 'a Result" where
  "getEnvOr_integral is_signed lo hi conv env names fallback =
     (case getEnv env names of
        None \<Rightarrow> Inr fallback
      | Some text \<Rightarrow>
          (case parse_whole is_signed lo hi text of
             Some v \<Rightarrow> Inr (conv v)
           | None \<Rightarrow> Inl (configuration (''Invalid integer value for '' @ hd names))))"

definition getEnvOr_int :: "env \<Rightarrow> string list \<Rightarrow> int32 \<Rightarrow> int32 Result" where
  "getEnvOr_int = getEnvOr_integral True int32_min int32_max of_int"

definition getEnvOr_uint64 :: "env \<Rightarrow> string list \<Rightarrow> uint64 \<Rightarrow> uint64 Result" where
  "getEnvOr_uint64 = getEnvOr_integral False 0 (2 ^ 64 - 1) of_int"

definition true_words :: "string list" where
  "true_words = [''1'', ''true'', ''TRUE'', ''t'', ''T'', ''yes'', ''YES'', ''on'', ''ON'']"

definition false_words :: "string list" where
  "false_words = [''0'', ''false'', ''FALSE'', ''f'', ''F'', ''no'', ''NO'', ''off'', ''OFF'']"

definition getEnvOr_bool :: "env \<Rightarrow> string list \<Rightarrow> bool \<Rightarrow> bool Result" where
  "getEnvOr_bool env names fallback =
     (case getEnv env names of
        None \<Rightarrow> Inr fallback
      | Some text \<Rightarrow>
          if text \<in> set true_words then Inr True
          else if text \<in> set false_words then Inr False
          else Inl (configuration (''Invalid boolean value for '' @ hd names)))"

definition loadConfig ::
  "'c \<Rightarrow> (env \<Rightarrow> 'c \<Rightarrow> Status \<times> 'c) \<Rightarrow> (string list \<Rightarrow> 'c \<Rightarrow> Status \<times> 'c) \<Rightarrow> env \<Rightarrow> string list \<Rightarrow>
   'c Result" where
  "loadConfig default_config apply_env apply_cli env argv =
     (let (st, config) = apply_env env default_config in
      if \<not> ok st then Inl st
      else let (st, config) = apply_cli argv config in
        if \<not> ok st then Inl st else Inr config)"

text \<open>The storage is the function-local static optional.\<close>

definition initConfig :: "'c \<Rightarrow> 'c option \<Rightarrow> Status \<times> 'c option" where
  "initConfig config stored =
     (case stored of
        Some _ \<Rightarrow> (configuration ''Configuration already initialized'', stored)
      | None \<Rightarrow> (success, Some config))"

definition getConfig :: "'c option \<Rightarrow> 'c Result" where
  "getConfig stored =
     (case stored of
        None \<Rightarrow> Inl (configuration ''Configuration not initialized'')
      | Some config \<Rightarrow> Inr config)"

section \<open>Statements in sequence\<close>

text \<open>
  The body of an \<^verbatim>\<open>applyEnvironment\<close> is a sequence of statements, each of which assigns a member
  or returns a failure; \<open>run_steps\<close> is that sequence, with the early return.
\<close>

fun run_steps :: "('c \<Rightarrow> Status \<times> 'c) list \<Rightarrow> 'c \<Rightarrow> Status \<times> 'c" where
  "run_steps [] c = (success, c)"
| "run_steps (f # fs) c = (let (st, c') = f c in if ok st then run_steps fs c' else (st, c'))"

definition assign :: "('c \<Rightarrow> 'c) \<Rightarrow> 'c \<Rightarrow> Status \<times> 'c" where
  "assign f c = (success, f c)"

definition assign_result :: "('c \<Rightarrow> 'a Result) \<Rightarrow> ('a \<Rightarrow> 'c \<Rightarrow> 'c) \<Rightarrow> 'c \<Rightarrow> Status \<times> 'c" where
  "assign_result r f c = (case r c of Inl e \<Rightarrow> (e, c) | Inr v \<Rightarrow> (success, f v c))"

section \<open>Lemmas\<close>

lemma getEnv_none [simp]: "getEnv (\<lambda>_. None) ns = None"
  by (induction ns) auto

lemma getEnv_cong: "(\<And>n. n \<in> set ns \<Longrightarrow> env n = env' n) \<Longrightarrow> getEnv env ns = getEnv env' ns"
  by (induction ns) (auto split: option.split)

lemma getEnv_first: "env n = Some v \<Longrightarrow> getEnv env (n # ns) = Some v"
  by simp

lemma getEnvOr_none [simp]: "getEnvOr (\<lambda>_. None) ns x = x"
  by (simp add: getEnvOr_def)

lemma getEnvOr_fallbacks [simp]:
  "getEnvOr_int (\<lambda>_. None) ns i = Inr i" "getEnvOr_uint64 (\<lambda>_. None) ns u = Inr u"
  "getEnvOr_bool (\<lambda>_. None) ns b = Inr b"
  by (simp_all add: getEnvOr_int_def getEnvOr_uint64_def getEnvOr_bool_def getEnvOr_integral_def)

lemma getEnvOr_cong:
  assumes "\<And>n. n \<in> set ns \<Longrightarrow> env n = env' n"
  shows "getEnvOr env ns s = getEnvOr env' ns s"
    and "getEnvOr_int env ns i = getEnvOr_int env' ns i"
    and "getEnvOr_uint64 env ns u = getEnvOr_uint64 env' ns u"
    and "getEnvOr_bool env ns b = getEnvOr_bool env' ns b"
  using getEnv_cong [OF assms]
  by (simp_all add: getEnvOr_def getEnvOr_int_def getEnvOr_uint64_def getEnvOr_bool_def
      getEnvOr_integral_def)

lemma getEnvOr_errors:
  "getEnvOr_int env ns i = Inl e \<Longrightarrow> code e = Configuration"
  "getEnvOr_uint64 env ns u = Inl e \<Longrightarrow> code e = Configuration"
  "getEnvOr_bool env ns b = Inl e \<Longrightarrow> code e = Configuration"
  by (auto simp: getEnvOr_int_def getEnvOr_uint64_def getEnvOr_bool_def getEnvOr_integral_def
      split: option.splits if_splits)

lemma run_steps_append:
  "run_steps (fs @ gs) c = (let (st, c') = run_steps fs c in if ok st then run_steps gs c' else (st, c'))"
  by (induction fs arbitrary: c) (auto split: prod.splits)

lemma run_steps_simps:
  "run_steps (assign f # fs) c = run_steps fs (f c)"
  "run_steps (assign_result r g # fs) c =
     (case r c of Inl e \<Rightarrow> if ok e then run_steps fs c else (e, c) | Inr v \<Rightarrow> run_steps fs (g v c))"
  by (simp_all add: assign_def assign_result_def split: sum.split)

definition fails_with :: "StatusCode \<Rightarrow> ('c \<Rightarrow> Status \<times> 'c) \<Rightarrow> bool" where
  "fails_with k f \<longleftrightarrow> (\<forall>c. ok (fst (f c)) \<or> code (fst (f c)) = k)"

lemma fails_with_steps [intro]:
  "fails_with k (assign f)"
  "(\<And>c e. r c = Inl e \<Longrightarrow> code e = k) \<Longrightarrow> fails_with k (assign_result r g)"
  by (auto simp: fails_with_def assign_def assign_result_def split: sum.split)

lemma fails_with_run: "list_all (fails_with k) fs \<Longrightarrow> fails_with k (run_steps fs)"
proof -
  assume "list_all (fails_with k) fs"
  then have "ok (fst (run_steps fs c)) \<or> code (fst (run_steps fs c)) = k" for c
    by (induction fs arbitrary: c) (auto simp: fails_with_def split: prod.splits, metis fst_conv)
  then show ?thesis by (simp add: fails_with_def)
qed

declare run_steps.simps(2) [simp del]

text \<open>What the framework relies on in the hooks of an application.\<close>

locale config_hooks =
  fixes default_config :: 'c
    and apply_env :: "env \<Rightarrow> 'c \<Rightarrow> Status \<times> 'c"
    and apply_cli :: "string list \<Rightarrow> 'c \<Rightarrow> Status \<times> 'c"
    and variables :: "string set"
  assumes env_empty: "apply_env (\<lambda>_. None) c = (success, c)"
    and env_cong: "(\<And>n. n \<in> variables \<Longrightarrow> env n = env' n) \<Longrightarrow> apply_env env c = apply_env env' c"
    and env_error: "apply_env env c = (st, c') \<Longrightarrow> \<not> ok st \<Longrightarrow> code st = Configuration"
    and cli_error: "apply_cli argv c = (st, c') \<Longrightarrow> \<not> ok st \<Longrightarrow> code st = Configuration"
begin

lemma load_defaults:
  "apply_cli argv default_config = (success, default_config) \<Longrightarrow>
   loadConfig default_config apply_env apply_cli (\<lambda>_. None) argv = Inr default_config"
  by (simp add: loadConfig_def env_empty)

lemma load_cong:
  "(\<And>n. n \<in> variables \<Longrightarrow> env n = env' n) \<Longrightarrow>
   loadConfig default_config apply_env apply_cli env argv =
   loadConfig default_config apply_env apply_cli env' argv"
  using env_cong [of env env' default_config] by (simp add: loadConfig_def)

lemma load_error:
  "loadConfig default_config apply_env apply_cli env argv = Inl e \<Longrightarrow> code e = Configuration"
  by (auto simp: loadConfig_def split: prod.splits if_splits dest: env_error cli_error)

end

section \<open>Properties\<close>

text \<open>
  The configuration is stored once. The first initialization succeeds and is what every later
  read returns; each further initialization is refused with a configuration error and changes
  nothing; before the first one a read is a configuration error.
\<close>

theorem config_stored_once:
  "code (projl (getConfig (None :: 'c option))) = Configuration \<and>
   (let (st1, stored1) = initConfig c None; (st2, stored2) = initConfig c' stored1 in
      ok st1 \<and> code st2 = Configuration \<and> stored2 = stored1 \<and> getConfig stored2 = Inr (c :: 'c))"
  by (simp add: initConfig_def getConfig_def)

text \<open>
  An integer variable is taken exactly when its text is the whole decimal representation of a
  value of the type. Printing a 64-bit value and reading it back gives the value, and any text
  that is empty, has other characters than digits, or is out of range is an error, never the
  fallback.
\<close>

theorem uint64_variable_exact:
  assumes "getEnv env names = Some text"
  shows "getEnvOr_uint64 env names fallback =
    (if text \<noteq> [] \<and> list_all is_digit text \<and> digits_value text < 2 ^ 64
     then Inr (of_nat (digits_value text))
     else Inl (configuration (''Invalid integer value for '' @ hd names)))"
proof -
  have "parse_whole False 0 (2 ^ 64 - 1) text =
      (if text \<noteq> [] \<and> list_all is_digit text \<and> digits_value text < 2 ^ 64
       then Some (int (digits_value text)) else None)"
  proof (cases "parse_whole False 0 (2 ^ 64 - 1) text")
    case None
    then show ?thesis
      using parse_whole_unsigned_iff [of "2 ^ 64 - 1" "text" "int (digits_value text)"] by auto
  next
    case (Some v)
    then show ?thesis using parse_whole_unsigned_iff [of "2 ^ 64 - 1" "text" v] by auto
  qed
  then show ?thesis using assms by (simp add: getEnvOr_uint64_def getEnvOr_integral_def)
qed

theorem uint64_variable_exact_witness:
  "getEnvOr_uint64 (\<lambda>n. if n = ''UID'' then Some ''42x'' else None) [''UID''] 7 =
     Inl (configuration ''Invalid integer value for UID'')"
  using uint64_variable_exact [of "\<lambda>n. if n = ''UID'' then Some ''42x'' else None" "[''UID'']" "''42x''" 7]
  by (simp add: is_digit_def)

end
