(* ===== verification/QOffload_Config.thy ===== *)
theory QOffload_Config
  imports App_Config
begin

text \<open>
  The configuration of the QOffload service (\<^verbatim>\<open>qoffload/Config.hpp\<close>, with the constants of
  \<^verbatim>\<open>ConfigDefaults.hpp.in\<close>). The three paths that the build substitutes into the defaults are the
  parameter \<open>build_paths\<close>.
\<close>

record RabbitMqConfig =
  rmq_host :: string
  rmq_port :: int32
  rmq_user :: string
  rmq_password :: string
  rmq_vhost :: string

record QueueConfig =
  queue_request :: string
  queue_control_request :: string
  queue_result :: string
  queue_qrm_task :: string

record IdentityConfig =
  identity_instance_uid :: uint64
  identity_user :: string

datatype LogLevel = LogTrace | LogDebug | LogInfo | LogWarning | LogError | LogCritical | LogOff

datatype LogFileMode = FileAppend | FileTruncate | FileRotate

record LoggingConfig =
  log_enabled :: bool
  log_console_enabled :: bool
  log_file_enabled :: bool
  log_level :: LogLevel
  log_file_mode :: LogFileMode
  log_rotation_size :: uint64
  log_rotation_files :: uint64

record PathConfig =
  path_runtime_dir :: string
  path_log_dir :: string
  path_state_file :: string

record PolicyConfig =
  policy_hpc_node :: bool
  policy_resume_state :: bool

record Config =
  rabbitmq :: RabbitMqConfig
  qrm_rabbitmq :: RabbitMqConfig
  queue_names :: QueueConfig
  identity :: IdentityConfig
  logging :: LoggingConfig
  paths :: PathConfig
  policy :: PolicyConfig

text \<open>The order of the severities, as the enumerators are listed.\<close>

fun severity :: "LogLevel \<Rightarrow> nat" where
  "severity LogTrace = 0"
| "severity LogDebug = 1"
| "severity LogInfo = 2"
| "severity LogWarning = 3"
| "severity LogError = 4"
| "severity LogCritical = 5"
| "severity LogOff = 6"

lemma severity_inject: "severity a = severity b \<Longrightarrow> a = b"
  by (cases a; cases b) auto

instantiation LogLevel :: linorder
begin

definition less_eq_LogLevel :: "LogLevel \<Rightarrow> LogLevel \<Rightarrow> bool" where
  "less_eq_LogLevel a b \<longleftrightarrow> severity a \<le> severity b"

definition less_LogLevel :: "LogLevel \<Rightarrow> LogLevel \<Rightarrow> bool" where
  "less_LogLevel a b \<longleftrightarrow> severity a < severity b"

instance
  by standard (auto simp: less_eq_LogLevel_def less_LogLevel_def dest: severity_inject)

end

definition defaultLogLevel :: "string \<Rightarrow> LogLevel" where
  "defaultLogLevel v =
     (if v = ''trace'' then LogTrace
      else if v = ''debug'' then LogDebug
      else if v = ''warning'' \<or> v = ''warn'' then LogWarning
      else if v = ''error'' then LogError
      else if v = ''critical'' then LogCritical
      else if v = ''off'' then LogOff
      else LogInfo)"

definition defaultLogFileMode :: "string \<Rightarrow> LogFileMode" where
  "defaultLogFileMode v =
     (if v = ''append'' then FileAppend
      else if v = ''truncate'' then FileTruncate
      else FileRotate)"

definition makeDefaultConfig :: "PathConfig \<Rightarrow> Config" where
  "makeDefaultConfig build_paths = \<lparr>
     rabbitmq = \<lparr>rmq_host = ''localhost'', rmq_port = 5672, rmq_user = ''guest'',
       rmq_password = ''guest'', rmq_vhost = ''/''\<rparr>,
     qrm_rabbitmq = \<lparr>rmq_host = ''127.0.0.1'', rmq_port = 5672, rmq_user = ''guest'',
       rmq_password = ''guest'', rmq_vhost = ''/''\<rparr>,
     queue_names = \<lparr>queue_request = ''qoffload_request_reception_queue'',
       queue_control_request = ''qoffload_api_request_reception_queue'',
       queue_result = ''qoffload_result_reception_queue'',
       queue_qrm_task = ''quantum_task_collection_queue''\<rparr>,
     identity = \<lparr>identity_instance_uid = 0, identity_user = ''qoffload_user''\<rparr>,
     logging = \<lparr>log_enabled = True, log_console_enabled = True, log_file_enabled = False,
       log_level = defaultLogLevel ''info'', log_file_mode = defaultLogFileMode ''rotate'',
       log_rotation_size = 10 * 1024 * 1024, log_rotation_files = 3\<rparr>,
     paths = build_paths,
     policy = \<lparr>policy_hpc_node = False, policy_resume_state = False\<rparr>\<rparr>"

definition parseLogLevel :: "string \<Rightarrow> LogLevel Result" where
  "parseLogLevel v =
     (if v = ''trace'' then Inr LogTrace
      else if v = ''debug'' then Inr LogDebug
      else if v = ''info'' then Inr LogInfo
      else if v = ''warning'' \<or> v = ''warn'' then Inr LogWarning
      else if v = ''error'' then Inr LogError
      else if v = ''critical'' then Inr LogCritical
      else if v = ''off'' then Inr LogOff
      else Inl (configuration ''Invalid value for QOFFLOAD_LOG_LEVEL''))"

definition parseLogFileMode :: "string \<Rightarrow> LogFileMode Result" where
  "parseLogFileMode v =
     (if v = ''append'' then Inr FileAppend
      else if v = ''truncate'' then Inr FileTruncate
      else if v = ''rotate'' then Inr FileRotate
      else Inl (configuration ''Invalid value for QOFFLOAD_LOG_FILE_MODE''))"

definition logPath :: "string \<Rightarrow> string \<Rightarrow> string" where
  "logPath log_dir file_name = path_append log_dir file_name"

section \<open>Environment\<close>

text \<open>The statements of \<^verbatim>\<open>applyEnvironment\<close>, section by section, in the order of the source.\<close>

definition local_broker_steps :: "env \<Rightarrow> (Config \<Rightarrow> Status \<times> Config) list" where
  "local_broker_steps env = [
     assign (\<lambda>c. c\<lparr>rabbitmq := (rabbitmq c)
       \<lparr>rmq_host := getEnvOr env [''QOFFLOAD_AMQP_HOST''] (rmq_host (rabbitmq c))\<rparr>\<rparr>),
     assign_result (\<lambda>c. getEnvOr_int env [''QOFFLOAD_AMQP_PORT''] (rmq_port (rabbitmq c)))
       (\<lambda>v c. c\<lparr>rabbitmq := (rabbitmq c)\<lparr>rmq_port := v\<rparr>\<rparr>),
     assign (\<lambda>c. c\<lparr>rabbitmq := (rabbitmq c)
       \<lparr>rmq_user := getEnvOr env [''QOFFLOAD_AMQP_USER''] (rmq_user (rabbitmq c))\<rparr>\<rparr>),
     assign (\<lambda>c. c\<lparr>rabbitmq := (rabbitmq c)
       \<lparr>rmq_password := getEnvOr env [''QOFFLOAD_AMQP_PASSWORD''] (rmq_password (rabbitmq c))\<rparr>\<rparr>),
     assign (\<lambda>c. c\<lparr>rabbitmq := (rabbitmq c)
       \<lparr>rmq_vhost := getEnvOr env [''QOFFLOAD_AMQP_VHOST''] (rmq_vhost (rabbitmq c))\<rparr>\<rparr>)]"

definition qrm_broker_steps :: "env \<Rightarrow> (Config \<Rightarrow> Status \<times> Config) list" where
  "qrm_broker_steps env = [
     assign (\<lambda>c. c\<lparr>qrm_rabbitmq := (qrm_rabbitmq c)
       \<lparr>rmq_host := getEnvOr env [''QRM_AMQP_HOST''] (rmq_host (qrm_rabbitmq c))\<rparr>\<rparr>),
     assign_result (\<lambda>c. getEnvOr_int env [''QRM_AMQP_PORT''] (rmq_port (qrm_rabbitmq c)))
       (\<lambda>v c. c\<lparr>qrm_rabbitmq := (qrm_rabbitmq c)\<lparr>rmq_port := v\<rparr>\<rparr>),
     assign (\<lambda>c. c\<lparr>qrm_rabbitmq := (qrm_rabbitmq c)
       \<lparr>rmq_user := getEnvOr env [''QRM_AMQP_USER''] (rmq_user (qrm_rabbitmq c))\<rparr>\<rparr>),
     assign (\<lambda>c. c\<lparr>qrm_rabbitmq := (qrm_rabbitmq c)
       \<lparr>rmq_password := getEnvOr env [''QRM_AMQP_PASSWORD''] (rmq_password (qrm_rabbitmq c))\<rparr>\<rparr>),
     assign (\<lambda>c. c\<lparr>qrm_rabbitmq := (qrm_rabbitmq c)
       \<lparr>rmq_vhost := getEnvOr env [''QRM_AMQP_VHOST''] (rmq_vhost (qrm_rabbitmq c))\<rparr>\<rparr>)]"

definition queue_steps :: "env \<Rightarrow> (Config \<Rightarrow> Status \<times> Config) list" where
  "queue_steps env = [
     assign (\<lambda>c. c\<lparr>queue_names := (queue_names c)
       \<lparr>queue_request := getEnvOr env [''QOFFLOAD_REQUEST_QUEUE''] (queue_request (queue_names c))\<rparr>\<rparr>),
     assign (\<lambda>c. c\<lparr>queue_names := (queue_names c)
       \<lparr>queue_control_request :=
          getEnvOr env [''QOFFLOAD_CONTROL_REQUEST_QUEUE'', ''QOFFLOAD_API_REQUEST_QUEUE'']
            (queue_control_request (queue_names c))\<rparr>\<rparr>),
     assign (\<lambda>c. c\<lparr>queue_names := (queue_names c)
       \<lparr>queue_result := getEnvOr env [''QOFFLOAD_RESULT_QUEUE''] (queue_result (queue_names c))\<rparr>\<rparr>),
     assign (\<lambda>c. c\<lparr>queue_names := (queue_names c)
       \<lparr>queue_qrm_task := getEnvOr env [''QRM_TASK_QUEUE''] (queue_qrm_task (queue_names c))\<rparr>\<rparr>)]"

definition identity_steps :: "env \<Rightarrow> (Config \<Rightarrow> Status \<times> Config) list" where
  "identity_steps env = [
     assign_result (\<lambda>c. getEnvOr_uint64 env [''QOFFLOAD_INSTANCE_UID'', ''QOFFLOAD_DAEMON_UID'']
         (identity_instance_uid (identity c)))
       (\<lambda>v c. c\<lparr>identity := (identity c)\<lparr>identity_instance_uid := v\<rparr>\<rparr>),
     assign (\<lambda>c. c\<lparr>identity := (identity c)
       \<lparr>identity_user := getEnvOr env [''QOFFLOAD_USER_IDENTITY''] (identity_user (identity c))\<rparr>\<rparr>)]"

definition logging_steps :: "env \<Rightarrow> (Config \<Rightarrow> Status \<times> Config) list" where
  "logging_steps env = [
     assign_result (\<lambda>c. getEnvOr_bool env [''QOFFLOAD_LOG_ENABLED''] (log_enabled (logging c)))
       (\<lambda>v c. c\<lparr>logging := (logging c)\<lparr>log_enabled := v\<rparr>\<rparr>),
     assign_result (\<lambda>c. getEnvOr_bool env [''QOFFLOAD_LOG_CONSOLE_ENABLED''] (log_console_enabled (logging c)))
       (\<lambda>v c. c\<lparr>logging := (logging c)\<lparr>log_console_enabled := v\<rparr>\<rparr>),
     assign_result (\<lambda>c. getEnvOr_bool env [''QOFFLOAD_LOG_FILE_ENABLED''] (log_file_enabled (logging c)))
       (\<lambda>v c. c\<lparr>logging := (logging c)\<lparr>log_file_enabled := v\<rparr>\<rparr>),
     assign_result (\<lambda>c. case getEnv env [''QOFFLOAD_LOG_LEVEL''] of
         Some v \<Rightarrow> parseLogLevel v | None \<Rightarrow> Inr (log_level (logging c)))
       (\<lambda>v c. c\<lparr>logging := (logging c)\<lparr>log_level := v\<rparr>\<rparr>),
     assign_result (\<lambda>c. case getEnv env [''QOFFLOAD_LOG_FILE_MODE''] of
         Some v \<Rightarrow> parseLogFileMode v | None \<Rightarrow> Inr (log_file_mode (logging c)))
       (\<lambda>v c. c\<lparr>logging := (logging c)\<lparr>log_file_mode := v\<rparr>\<rparr>),
     assign_result (\<lambda>c. getEnvOr_uint64 env [''QOFFLOAD_LOG_ROTATION_SIZE''] (log_rotation_size (logging c)))
       (\<lambda>v c. c\<lparr>logging := (logging c)\<lparr>log_rotation_size := v\<rparr>\<rparr>),
     assign_result (\<lambda>c. getEnvOr_uint64 env [''QOFFLOAD_LOG_ROTATION_FILES''] (log_rotation_files (logging c)))
       (\<lambda>v c. c\<lparr>logging := (logging c)\<lparr>log_rotation_files := v\<rparr>\<rparr>)]"

definition path_policy_steps :: "env \<Rightarrow> (Config \<Rightarrow> Status \<times> Config) list" where
  "path_policy_steps env = [
     assign (\<lambda>c. c\<lparr>paths := (paths c)
       \<lparr>path_runtime_dir := getEnvOr env [''QOFFLOAD_RUNTIME_DIR''] (path_runtime_dir (paths c))\<rparr>\<rparr>),
     assign (\<lambda>c. c\<lparr>paths := (paths c)
       \<lparr>path_log_dir := getEnvOr env [''QOFFLOAD_LOG_DIR''] (path_log_dir (paths c))\<rparr>\<rparr>),
     assign (\<lambda>c. c\<lparr>paths := (paths c)
       \<lparr>path_state_file := getEnvOr env [''QOFFLOAD_STATE_FILE''] (path_state_file (paths c))\<rparr>\<rparr>),
     assign_result (\<lambda>c. getEnvOr_bool env [''QOFFLOAD_HPC_NODE''] (policy_hpc_node (policy c)))
       (\<lambda>v c. c\<lparr>policy := (policy c)\<lparr>policy_hpc_node := v\<rparr>\<rparr>),
     assign_result (\<lambda>c. getEnvOr_bool env [''QOFFLOAD_RESUME_STATE''] (policy_resume_state (policy c)))
       (\<lambda>v c. c\<lparr>policy := (policy c)\<lparr>policy_resume_state := v\<rparr>\<rparr>)]"

definition applyEnvironment :: "env \<Rightarrow> Config \<Rightarrow> Status \<times> Config" where
  "applyEnvironment env = run_steps (local_broker_steps env @ qrm_broker_steps env @
     queue_steps env @ identity_steps env @ logging_steps env @ path_policy_steps env)"

definition applyCommandLine :: "string list \<Rightarrow> Config \<Rightarrow> Status \<times> Config" where
  "applyCommandLine argv config = (success, config)"

definition qoffload_loadConfig :: "PathConfig \<Rightarrow> env \<Rightarrow> string list \<Rightarrow> Config Result" where
  "qoffload_loadConfig build_paths env argv =
     loadConfig (makeDefaultConfig build_paths) applyEnvironment applyCommandLine env argv"

text \<open>The variables the service reads.\<close>

definition config_variables :: "string list" where
  "config_variables = [''QOFFLOAD_AMQP_HOST'', ''QOFFLOAD_AMQP_PORT'', ''QOFFLOAD_AMQP_USER'',
     ''QOFFLOAD_AMQP_PASSWORD'', ''QOFFLOAD_AMQP_VHOST'', ''QRM_AMQP_HOST'', ''QRM_AMQP_PORT'',
     ''QRM_AMQP_USER'', ''QRM_AMQP_PASSWORD'', ''QRM_AMQP_VHOST'', ''QOFFLOAD_REQUEST_QUEUE'',
     ''QOFFLOAD_CONTROL_REQUEST_QUEUE'', ''QOFFLOAD_API_REQUEST_QUEUE'', ''QOFFLOAD_RESULT_QUEUE'',
     ''QRM_TASK_QUEUE'', ''QOFFLOAD_INSTANCE_UID'', ''QOFFLOAD_DAEMON_UID'',
     ''QOFFLOAD_USER_IDENTITY'', ''QOFFLOAD_LOG_ENABLED'', ''QOFFLOAD_LOG_CONSOLE_ENABLED'',
     ''QOFFLOAD_LOG_FILE_ENABLED'', ''QOFFLOAD_LOG_LEVEL'', ''QOFFLOAD_LOG_FILE_MODE'',
     ''QOFFLOAD_LOG_ROTATION_SIZE'', ''QOFFLOAD_LOG_ROTATION_FILES'', ''QOFFLOAD_RUNTIME_DIR'',
     ''QOFFLOAD_LOG_DIR'', ''QOFFLOAD_STATE_FILE'', ''QOFFLOAD_HPC_NODE'', ''QOFFLOAD_RESUME_STATE'']"

section \<open>Lemmas\<close>

lemma parse_errors:
  "parseLogLevel v = Inl e \<Longrightarrow> code e = Configuration"
  "parseLogFileMode v = Inl e \<Longrightarrow> code e = Configuration"
  by (auto simp: parseLogLevel_def parseLogFileMode_def split: if_splits)

lemmas section_defs = local_broker_steps_def qrm_broker_steps_def queue_steps_def identity_steps_def
  logging_steps_def path_policy_steps_def

lemma getEnvOr_not_ok [simp]:
  "getEnvOr_int env ns i = Inl e \<Longrightarrow> \<not> ok e" "getEnvOr_uint64 env ns u = Inl e \<Longrightarrow> \<not> ok e"
  "getEnvOr_bool env ns b = Inl e \<Longrightarrow> \<not> ok e"
  "parseLogLevel v = Inl e \<Longrightarrow> \<not> ok e" "parseLogFileMode v = Inl e \<Longrightarrow> \<not> ok e"
  using getEnvOr_errors parse_errors by (auto simp: ok_iff_code)

lemma local_broker_run:
  assumes "run_steps (local_broker_steps env) c = (st, c')" and "ok st"
  shows "c' = c\<lparr>rabbitmq := rabbitmq c'\<rparr> \<and>
    rmq_host (rabbitmq c') = getEnvOr env [''QOFFLOAD_AMQP_HOST''] (rmq_host (rabbitmq c)) \<and>
    getEnvOr_int env [''QOFFLOAD_AMQP_PORT''] (rmq_port (rabbitmq c)) = Inr (rmq_port (rabbitmq c')) \<and>
    rmq_user (rabbitmq c') = getEnvOr env [''QOFFLOAD_AMQP_USER''] (rmq_user (rabbitmq c)) \<and>
    rmq_password (rabbitmq c') = getEnvOr env [''QOFFLOAD_AMQP_PASSWORD''] (rmq_password (rabbitmq c)) \<and>
    rmq_vhost (rabbitmq c') = getEnvOr env [''QOFFLOAD_AMQP_VHOST''] (rmq_vhost (rabbitmq c))"
  using assms
  by (auto simp: local_broker_steps_def run_steps_simps split: sum.splits)

lemma qrm_broker_run:
  assumes "run_steps (qrm_broker_steps env) c = (st, c')" and "ok st"
  shows "c' = c\<lparr>qrm_rabbitmq := qrm_rabbitmq c'\<rparr> \<and>
    rmq_host (qrm_rabbitmq c') = getEnvOr env [''QRM_AMQP_HOST''] (rmq_host (qrm_rabbitmq c)) \<and>
    getEnvOr_int env [''QRM_AMQP_PORT''] (rmq_port (qrm_rabbitmq c)) = Inr (rmq_port (qrm_rabbitmq c')) \<and>
    rmq_user (qrm_rabbitmq c') = getEnvOr env [''QRM_AMQP_USER''] (rmq_user (qrm_rabbitmq c)) \<and>
    rmq_password (qrm_rabbitmq c') = getEnvOr env [''QRM_AMQP_PASSWORD''] (rmq_password (qrm_rabbitmq c)) \<and>
    rmq_vhost (qrm_rabbitmq c') = getEnvOr env [''QRM_AMQP_VHOST''] (rmq_vhost (qrm_rabbitmq c))"
  using assms
  by (auto simp: qrm_broker_steps_def run_steps_simps split: sum.splits)

lemma queue_run:
  "run_steps (queue_steps env) c = (success, c\<lparr>queue_names :=
     \<lparr>queue_request = getEnvOr env [''QOFFLOAD_REQUEST_QUEUE''] (queue_request (queue_names c)),
      queue_control_request =
        getEnvOr env [''QOFFLOAD_CONTROL_REQUEST_QUEUE'', ''QOFFLOAD_API_REQUEST_QUEUE'']
          (queue_control_request (queue_names c)),
      queue_result = getEnvOr env [''QOFFLOAD_RESULT_QUEUE''] (queue_result (queue_names c)),
      queue_qrm_task = getEnvOr env [''QRM_TASK_QUEUE''] (queue_qrm_task (queue_names c))\<rparr>\<rparr>)"
  by (simp add: queue_steps_def run_steps_simps)

lemma identity_run:
  assumes "run_steps (identity_steps env) c = (st, c')" and "ok st"
  shows "c' = c\<lparr>identity := identity c'\<rparr> \<and>
    getEnvOr_uint64 env [''QOFFLOAD_INSTANCE_UID'', ''QOFFLOAD_DAEMON_UID'']
      (identity_instance_uid (identity c)) = Inr (identity_instance_uid (identity c')) \<and>
    identity_user (identity c') = getEnvOr env [''QOFFLOAD_USER_IDENTITY''] (identity_user (identity c))"
  using assms
  by (auto simp: identity_steps_def run_steps_simps split: sum.splits)

lemma path_policy_run:
  assumes "run_steps (path_policy_steps env) c = (st, c')" and "ok st"
  shows "c' = c\<lparr>paths := paths c', policy := policy c'\<rparr> \<and>
    path_runtime_dir (paths c') = getEnvOr env [''QOFFLOAD_RUNTIME_DIR''] (path_runtime_dir (paths c)) \<and>
    path_log_dir (paths c') = getEnvOr env [''QOFFLOAD_LOG_DIR''] (path_log_dir (paths c)) \<and>
    path_state_file (paths c') = getEnvOr env [''QOFFLOAD_STATE_FILE''] (path_state_file (paths c)) \<and>
    getEnvOr_bool env [''QOFFLOAD_HPC_NODE''] (policy_hpc_node (policy c)) =
      Inr (policy_hpc_node (policy c')) \<and>
    getEnvOr_bool env [''QOFFLOAD_RESUME_STATE''] (policy_resume_state (policy c)) =
      Inr (policy_resume_state (policy c'))"
  using assms
  by (auto simp: path_policy_steps_def run_steps_simps split: sum.splits)

lemma logging_run:
  assumes "run_steps (logging_steps env) c = (st, c')" and "ok st"
  shows "c' = c\<lparr>logging := logging c'\<rparr> \<and>
    getEnvOr_bool env [''QOFFLOAD_LOG_ENABLED''] (log_enabled (logging c)) =
      Inr (log_enabled (logging c')) \<and>
    getEnvOr_bool env [''QOFFLOAD_LOG_CONSOLE_ENABLED''] (log_console_enabled (logging c)) =
      Inr (log_console_enabled (logging c')) \<and>
    getEnvOr_bool env [''QOFFLOAD_LOG_FILE_ENABLED''] (log_file_enabled (logging c)) =
      Inr (log_file_enabled (logging c')) \<and>
    (case env ''QOFFLOAD_LOG_LEVEL'' of
       None \<Rightarrow> log_level (logging c') = log_level (logging c)
     | Some v \<Rightarrow> parseLogLevel v = Inr (log_level (logging c'))) \<and>
    (case env ''QOFFLOAD_LOG_FILE_MODE'' of
       None \<Rightarrow> log_file_mode (logging c') = log_file_mode (logging c)
     | Some v \<Rightarrow> parseLogFileMode v = Inr (log_file_mode (logging c'))) \<and>
    getEnvOr_uint64 env [''QOFFLOAD_LOG_ROTATION_SIZE''] (log_rotation_size (logging c)) =
      Inr (log_rotation_size (logging c')) \<and>
    getEnvOr_uint64 env [''QOFFLOAD_LOG_ROTATION_FILES''] (log_rotation_files (logging c)) =
      Inr (log_rotation_files (logging c'))"
  using assms
  by (auto simp: logging_steps_def run_steps_simps split: option.splits sum.splits)

text \<open>The sections depend on the environment through the listed variables only.\<close>

lemma getEnv_names [simp]:
  "getEnv env [n] = env n" "getEnv env [n, m] = (case env n of Some v \<Rightarrow> Some v | None \<Rightarrow> env m)"
  by (simp_all split: option.split)

declare getEnv.simps(2) [simp del]

lemmas env_reads = getEnvOr_def getEnvOr_int_def getEnvOr_uint64_def getEnvOr_bool_def
  getEnvOr_integral_def

lemma applyEnvironment_cong:
  assumes "\<And>n. n \<in> set config_variables \<Longrightarrow> env n = env' n"
  shows "applyEnvironment env c = applyEnvironment env' c"
proof -
  have eqs: "list_all (\<lambda>n. env n = env' n) config_variables"
    using assms by (simp add: list_all_iff)
  note eqs = eqs [unfolded config_variables_def list.pred_inject]
  have "local_broker_steps env = local_broker_steps env'"
    by (simp add: local_broker_steps_def env_reads eqs)
  moreover have "qrm_broker_steps env = qrm_broker_steps env'"
    by (simp add: qrm_broker_steps_def env_reads eqs)
  moreover have "queue_steps env = queue_steps env'"
    by (simp add: queue_steps_def env_reads eqs cong: option.case_cong)
  moreover have "identity_steps env = identity_steps env'"
    by (simp add: identity_steps_def env_reads eqs cong: option.case_cong)
  moreover have "logging_steps env = logging_steps env'"
    by (simp add: logging_steps_def env_reads eqs)
  moreover have "path_policy_steps env = path_policy_steps env'"
    by (simp add: path_policy_steps_def env_reads eqs)
  ultimately show ?thesis by (simp add: applyEnvironment_def)
qed

lemma applyEnvironment_empty: "applyEnvironment (\<lambda>_. None) c = (success, c)"
  by (simp add: applyEnvironment_def section_defs run_steps_simps)

lemma sections_fail_with:
  "list_all (fails_with Configuration) (local_broker_steps env)"
  "list_all (fails_with Configuration) (qrm_broker_steps env)"
  "list_all (fails_with Configuration) (queue_steps env)"
  "list_all (fails_with Configuration) (identity_steps env)"
  "list_all (fails_with Configuration) (logging_steps env)"
  "list_all (fails_with Configuration) (path_policy_steps env)"
  unfolding section_defs
  by (auto intro!: fails_with_steps dest: getEnvOr_errors parse_errors split: option.splits)

interpretation qoffload_hooks: config_hooks "makeDefaultConfig build_paths" applyEnvironment
  applyCommandLine "set config_variables" for build_paths
proof (unfold_locales, goal_cases)
  case (1 c)
  show ?case by (rule applyEnvironment_empty)
next
  case (2 env env' c)
  then show ?case by (rule applyEnvironment_cong)
next
  case (3 env c st c')
  have "fails_with Configuration (applyEnvironment env)"
    unfolding applyEnvironment_def by (rule fails_with_run) (simp add: sections_fail_with)
  with 3 show ?case by (metis fails_with_def fst_conv)
next
  case (4 argv c st c')
  then show ?case by (simp add: applyCommandLine_def)
qed

text \<open>The six sections in sequence, after a successful run.\<close>

lemma run_steps_append_ok:
  assumes "run_steps (fs @ gs) c = (st, c')" and "ok st"
  obtains st1 c1 where "run_steps fs c = (st1, c1)" "ok st1" "run_steps gs c1 = (st, c')"
proof (cases "run_steps fs c")
  case (Pair st1 c1)
  with assms that show thesis by (auto simp: run_steps_append split: if_splits)
qed

lemma applyEnvironment_ok:
  assumes "applyEnvironment env c = (st, c')" and "ok st"
  obtains st1 c1 st2 c2 st3 c3 st4 c4 st5 c5 where
    "run_steps (local_broker_steps env) c = (st1, c1)" "ok st1"
    "run_steps (qrm_broker_steps env) c1 = (st2, c2)" "ok st2"
    "run_steps (queue_steps env) c2 = (st3, c3)" "ok st3"
    "run_steps (identity_steps env) c3 = (st4, c4)" "ok st4"
    "run_steps (logging_steps env) c4 = (st5, c5)" "ok st5"
    "run_steps (path_policy_steps env) c5 = (st, c')"
  using assms unfolding applyEnvironment_def by (elim run_steps_append_ok) blast

lemma loaded_environment:
  assumes "qoffload_loadConfig build_paths env argv = Inr c"
  obtains st where "applyEnvironment env (makeDefaultConfig build_paths) = (st, c)" "ok st"
  using assms by (auto simp: qoffload_loadConfig_def loadConfig_def applyCommandLine_def
      split: prod.splits if_splits)

text \<open>What the update of one member leaves alone.\<close>

lemma config_frames:
  fixes c c' :: Config
  shows "c' = c\<lparr>rabbitmq := a\<rparr> \<Longrightarrow> qrm_rabbitmq c' = qrm_rabbitmq c \<and> queue_names c' = queue_names c \<and>
      identity c' = identity c \<and> logging c' = logging c \<and> paths c' = paths c \<and> policy c' = policy c"
    and "c' = c\<lparr>qrm_rabbitmq := b\<rparr> \<Longrightarrow> rabbitmq c' = rabbitmq c \<and> queue_names c' = queue_names c \<and>
      identity c' = identity c \<and> logging c' = logging c \<and> paths c' = paths c \<and> policy c' = policy c"
    and "c' = c\<lparr>queue_names := d\<rparr> \<Longrightarrow> rabbitmq c' = rabbitmq c \<and> qrm_rabbitmq c' = qrm_rabbitmq c \<and>
      identity c' = identity c \<and> logging c' = logging c \<and> paths c' = paths c \<and> policy c' = policy c"
    and "c' = c\<lparr>identity := e\<rparr> \<Longrightarrow> rabbitmq c' = rabbitmq c \<and> qrm_rabbitmq c' = qrm_rabbitmq c \<and>
      queue_names c' = queue_names c \<and> logging c' = logging c \<and> paths c' = paths c \<and> policy c' = policy c"
    and "c' = c\<lparr>logging := f\<rparr> \<Longrightarrow> rabbitmq c' = rabbitmq c \<and> qrm_rabbitmq c' = qrm_rabbitmq c \<and>
      queue_names c' = queue_names c \<and> identity c' = identity c \<and> paths c' = paths c \<and> policy c' = policy c"
    and "c' = c\<lparr>paths := g, policy := h\<rparr> \<Longrightarrow> rabbitmq c' = rabbitmq c \<and>
      qrm_rabbitmq c' = qrm_rabbitmq c \<and> queue_names c' = queue_names c \<and>
      identity c' = identity c \<and> logging c' = logging c"
  by simp_all

section \<open>Properties\<close>

text \<open>
  Where each member of a loaded configuration comes from. When loading succeeds, every member
  is the value of its environment variable, and the built-in default where the variable is not
  set; the two variables with an older alias take the alias only when the newer name is not set;
  and numbers, flags, the log level and the file mode are the parsed values.
\<close>

theorem load_config_members:
  assumes "qoffload_loadConfig build_paths env argv = Inr c"
  shows "rmq_host (rabbitmq c) = getEnvOr env [''QOFFLOAD_AMQP_HOST''] ''localhost'' \<and>
    getEnvOr_int env [''QOFFLOAD_AMQP_PORT''] 5672 = Inr (rmq_port (rabbitmq c)) \<and>
    rmq_vhost (rabbitmq c) = getEnvOr env [''QOFFLOAD_AMQP_VHOST''] ''/'' \<and>
    rmq_host (qrm_rabbitmq c) = getEnvOr env [''QRM_AMQP_HOST''] ''127.0.0.1'' \<and>
    getEnvOr_int env [''QRM_AMQP_PORT''] 5672 = Inr (rmq_port (qrm_rabbitmq c)) \<and>
    rmq_vhost (qrm_rabbitmq c) = getEnvOr env [''QRM_AMQP_VHOST''] ''/'' \<and>
    queue_request (queue_names c) =
      getEnvOr env [''QOFFLOAD_REQUEST_QUEUE''] ''qoffload_request_reception_queue'' \<and>
    queue_control_request (queue_names c) =
      (case env ''QOFFLOAD_CONTROL_REQUEST_QUEUE'' of Some q \<Rightarrow> q
       | None \<Rightarrow> (case env ''QOFFLOAD_API_REQUEST_QUEUE'' of Some q \<Rightarrow> q
           | None \<Rightarrow> ''qoffload_api_request_reception_queue'')) \<and>
    queue_result (queue_names c) =
      getEnvOr env [''QOFFLOAD_RESULT_QUEUE''] ''qoffload_result_reception_queue'' \<and>
    queue_qrm_task (queue_names c) = getEnvOr env [''QRM_TASK_QUEUE''] ''quantum_task_collection_queue'' \<and>
    getEnvOr_uint64 env [''QOFFLOAD_INSTANCE_UID'', ''QOFFLOAD_DAEMON_UID''] 0 =
      Inr (identity_instance_uid (identity c)) \<and>
    (case env ''QOFFLOAD_LOG_LEVEL'' of
       None \<Rightarrow> log_level (logging c) = LogInfo
     | Some v \<Rightarrow> parseLogLevel v = Inr (log_level (logging c))) \<and>
    path_log_dir (paths c) = getEnvOr env [''QOFFLOAD_LOG_DIR''] (path_log_dir build_paths) \<and>
    getEnvOr_bool env [''QOFFLOAD_HPC_NODE''] False = Inr (policy_hpc_node (policy c))"
proof -
  let ?d = "makeDefaultConfig build_paths"
  from assms obtain st where "applyEnvironment env ?d = (st, c)" "ok st" by (rule loaded_environment)
  then obtain st1 c1 st2 c2 st3 c3 st4 c4 st5 c5 where
    r: "run_steps (local_broker_steps env) ?d = (st1, c1)" "ok st1"
    "run_steps (qrm_broker_steps env) c1 = (st2, c2)" "ok st2"
    "run_steps (queue_steps env) c2 = (st3, c3)" "ok st3"
    "run_steps (identity_steps env) c3 = (st4, c4)" "ok st4"
    "run_steps (logging_steps env) c4 = (st5, c5)" "ok st5"
    "run_steps (path_policy_steps env) c5 = (st, c)"
    by (rule applyEnvironment_ok)
  note s1 = local_broker_run [OF r(1,2)] and s2 = qrm_broker_run [OF r(3,4)]
    and s3 = r(5) [unfolded queue_run prod.inject, THEN conjunct2, symmetric]
    and s4 = identity_run [OF r(7,8)] and s5 = logging_run [OF r(9,10)]
    and s6 = path_policy_run [OF r(11) \<open>ok st\<close>]
  note f1 = config_frames(1) [OF s1 [THEN conjunct1]] and f2 = config_frames(2) [OF s2 [THEN conjunct1]]
    and f3 = config_frames(3) [OF s3] and f4 = config_frames(4) [OF s4 [THEN conjunct1]]
    and f5 = config_frames(5) [OF s5 [THEN conjunct1]] and f6 = config_frames(6) [OF s6 [THEN conjunct1]]
  have q: "queue_names c3 = \<lparr>
      queue_request = getEnvOr env [''QOFFLOAD_REQUEST_QUEUE''] (queue_request (queue_names c2)),
      queue_control_request =
        getEnvOr env [''QOFFLOAD_CONTROL_REQUEST_QUEUE'', ''QOFFLOAD_API_REQUEST_QUEUE'']
          (queue_control_request (queue_names c2)),
      queue_result = getEnvOr env [''QOFFLOAD_RESULT_QUEUE''] (queue_result (queue_names c2)),
      queue_qrm_task = getEnvOr env [''QRM_TASK_QUEUE''] (queue_qrm_task (queue_names c2))\<rparr>"
    unfolding s3 by simp
  note parts = conjunct2 [OF s1] conjunct2 [OF s2] conjunct2 [OF s4] conjunct2 [OF s5] conjunct2 [OF s6]
  have level: "defaultLogLevel ''info'' = LogInfo" by (simp add: defaultLogLevel_def)
  have two_names: "getEnvOr env [a, b] x = (case env a of Some v \<Rightarrow> v | None \<Rightarrow> (case env b of Some v \<Rightarrow> v | None \<Rightarrow> x))"
    for a b x by (simp add: getEnvOr_def split: option.split)
  show ?thesis
    using parts f1 f2 f3 f4 f5 f6 q
    by (simp add: makeDefaultConfig_def two_names level cong: option.case_cong)
qed

theorem load_config_members_witness:
  "\<exists>c. qoffload_loadConfig \<lparr>path_runtime_dir = ''/run'', path_log_dir = ''/log'', path_state_file = ''/state''\<rparr>
      [''QOFFLOAD_API_REQUEST_QUEUE'' \<mapsto> ''old'', ''QOFFLOAD_CONTROL_REQUEST_QUEUE'' \<mapsto> ''new''] [] = Inr c \<and>
     queue_control_request (queue_names c) = ''new'' \<and> path_log_dir (paths c) = ''/log''"
proof -
  let ?bp = "\<lparr>path_runtime_dir = ''/run'', path_log_dir = ''/log'', path_state_file = ''/state''\<rparr>"
  let ?env = "[''QOFFLOAD_API_REQUEST_QUEUE'' \<mapsto> ''old'', ''QOFFLOAD_CONTROL_REQUEST_QUEUE'' \<mapsto> ''new'']"
  obtain c where c: "qoffload_loadConfig ?bp ?env [] = Inr c"
    by (simp add: qoffload_loadConfig_def loadConfig_def applyCommandLine_def applyEnvironment_def
        section_defs run_steps_simps env_reads)
  from load_config_members [OF c] c show ?thesis by (simp add: getEnvOr_def)
qed

text \<open>
  Loading is predictable. Without any variable set the built-in defaults are loaded; variables
  that are not among the listed ones do not matter; and every failure is a configuration error.
\<close>

theorem load_config_predictable:
  "qoffload_loadConfig build_paths (\<lambda>_. None) argv = Inr (makeDefaultConfig build_paths) \<and>
   qoffload_loadConfig build_paths env argv =
     qoffload_loadConfig build_paths (\<lambda>n. if n \<in> set config_variables then env n else None) argv \<and>
   (case qoffload_loadConfig build_paths env argv of
      Inl e \<Rightarrow> code e = Configuration
    | Inr c \<Rightarrow> True)"
proof -
  have "applyCommandLine argv (makeDefaultConfig build_paths) = (success, makeDefaultConfig build_paths)"
    by (simp add: applyCommandLine_def)
  note a = qoffload_hooks.load_defaults [OF this]
  have b: "loadConfig (makeDefaultConfig build_paths) applyEnvironment applyCommandLine env argv =
      loadConfig (makeDefaultConfig build_paths) applyEnvironment applyCommandLine
        (\<lambda>n. if n \<in> set config_variables then env n else None) argv"
    by (rule qoffload_hooks.load_cong) simp
  show ?thesis
    unfolding qoffload_loadConfig_def using a b qoffload_hooks.load_error [of build_paths env argv]
    by (auto split: sum.split)
qed

end
