(* ===== verification/QOffload_Logger.thy ===== *)
theory QOffload_Logger
  imports QOffload_Config
begin

text \<open>
  Creation of loggers (\<^verbatim>\<open>qoffload/Logger.hpp\<close>). The sinks are objects of the spdlog library; a
  sink is represented by how it is constructed, and \<open>throws\<close> is the parameter that says whether
  constructing a sink throws, with the text of the exception.
\<close>

datatype level_enum = SpdTrace | SpdDebug | SpdInfo | SpdWarn | SpdErr | SpdCritical | SpdOff

fun toSpdlogLevel :: "LogLevel \<Rightarrow> level_enum" where
  "toSpdlogLevel LogTrace = SpdTrace"
| "toSpdlogLevel LogDebug = SpdDebug"
| "toSpdlogLevel LogInfo = SpdInfo"
| "toSpdlogLevel LogWarning = SpdWarn"
| "toSpdlogLevel LogError = SpdErr"
| "toSpdlogLevel LogCritical = SpdCritical"
| "toSpdlogLevel LogOff = SpdOff"

datatype sink =
    StderrColorSink
  | StdoutColorSink
  | BasicFileSink string bool
  | RotatingFileSink string uint64 uint64
  | NullSink

record logger =
  logger_name :: string
  logger_sinks :: "sink list"
  logger_pattern :: string
  logger_level :: level_enum
  logger_flush_on :: level_enum

definition file_sink :: "LoggingConfig \<Rightarrow> string \<Rightarrow> sink" where
  "file_sink config path =
     (case log_file_mode config of
        FileAppend \<Rightarrow> BasicFileSink path False
      | FileTruncate \<Rightarrow> BasicFileSink path True
      | FileRotate \<Rightarrow> RotatingFileSink path (log_rotation_size config) (log_rotation_files config))"

text \<open>Constructing a sink and appending it, inside the \<^verbatim>\<open>try\<close> block.\<close>

definition push_sink :: "(sink \<Rightarrow> string option) \<Rightarrow> sink \<Rightarrow> sink list \<Rightarrow> string + sink list" where
  "push_sink throws k sinks = (case throws k of Some x \<Rightarrow> Inl x | None \<Rightarrow> Inr (sinks @ [k]))"

definition makeLogger ::
  "(sink \<Rightarrow> string option) \<Rightarrow> string \<Rightarrow> LoggingConfig \<Rightarrow> string \<Rightarrow> logger Result" where
  "makeLogger throws name config log_file =
     (let failed = (\<lambda>x. Inl (configuration (''Failed to create logger: '' @ x)));
          finish = (\<lambda>sinks. Inr \<lparr>logger_name = name, logger_sinks = sinks,
            logger_pattern = ''[%Y-%m-%d %H:%M:%S.%e] [%n] [%^%l%$] %v'',
            logger_level = (if log_enabled config then toSpdlogLevel (log_level config) else SpdOff),
            logger_flush_on = SpdErr\<rparr>);
          default_sink = (\<lambda>sinks. if sinks = [] then
             (case push_sink throws NullSink sinks of Inl x \<Rightarrow> failed x | Inr sinks \<Rightarrow> finish sinks)
             else finish sinks)
      in if \<not> log_enabled config then default_sink []
         else case (if log_console_enabled config then push_sink throws StderrColorSink [] else Inr []) of
           Inl x \<Rightarrow> failed x
         | Inr sinks \<Rightarrow>
             if \<not> log_file_enabled config then default_sink sinks
             else if log_file = [] then
               Inl (configuration ''File logging enabled without a log file path'')
             else case push_sink throws (file_sink config log_file) sinks of
               Inl x \<Rightarrow> failed x
             | Inr sinks \<Rightarrow> default_sink sinks)"

text \<open>The sinks a configuration asks for.\<close>

definition wanted_sinks :: "LoggingConfig \<Rightarrow> string \<Rightarrow> sink list" where
  "wanted_sinks config log_file =
     (let ks = (if log_enabled config \<and> log_console_enabled config then [StderrColorSink] else []) @
               (if log_enabled config \<and> log_file_enabled config then [file_sink config log_file] else [])
      in if ks = [] then [NullSink] else ks)"

section \<open>Properties\<close>

text \<open>
  Which logger a configuration gives. It succeeds exactly when a file path is given if file
  logging is on and none of the sinks it asks for throws; then the logger has exactly these sinks,
  at least one (the null sink when logging is off or no output is enabled), and its threshold is
  the configured level, or off. Every failure is a configuration error.
\<close>

theorem make_logger_spec:
  "makeLogger throws name config log_file =
     (if log_enabled config \<and> log_file_enabled config \<and> log_file = [] \<and>
         \<not> (log_console_enabled config \<and> throws StderrColorSink \<noteq> None)
      then Inl (configuration ''File logging enabled without a log file path'')
      else case List.find (\<lambda>k. throws k \<noteq> None) (wanted_sinks config log_file) of
        Some k \<Rightarrow> Inl (configuration (''Failed to create logger: '' @ the (throws k)))
      | None \<Rightarrow> Inr \<lparr>logger_name = name, logger_sinks = wanted_sinks config log_file,
          logger_pattern = ''[%Y-%m-%d %H:%M:%S.%e] [%n] [%^%l%$] %v'',
          logger_level = (if log_enabled config then toSpdlogLevel (log_level config) else SpdOff),
          logger_flush_on = SpdErr\<rparr>)"
  by (auto simp: makeLogger_def wanted_sinks_def push_sink_def Let_def split: option.splits)

end
