(* ===== verification/Message.thy ===== *)
theory Message
  imports Status Hash_Map
begin

text \<open>
  The transport-independent message model (\<^verbatim>\<open>include/mqss/Message.hpp\<close>). The acknowledgement
  handlers of a delivered message are \<^verbatim>\<open>std::function\<close> objects that act on state owned by the
  transport; they are functions that pass that state explicitly.
\<close>

record Address =
  addr_name :: string

type_synonym Headers = "(string, string) umap"

record Envelope =
  payload :: string
  content_type :: string
  headers :: Headers
  correlation_id :: string
  reply_to :: "Address option"

definition empty_envelope :: Envelope where
  "empty_envelope = \<lparr>payload = [], content_type = [], headers = [], correlation_id = [],
     reply_to = None\<rparr>"

type_synonym 's AckFn = "'s \<Rightarrow> Status \<times> 's"
type_synonym 's NackFn = "bool \<Rightarrow> 's \<Rightarrow> Status \<times> 's"

record 's Message =
  envelope :: Envelope
  ack_impl :: "'s AckFn option"
  nack_impl :: "'s NackFn option"

definition ack :: "'s Message \<Rightarrow> 's \<Rightarrow> Status \<times> 's" where
  "ack m s = (case ack_impl m of None \<Rightarrow> (unsupported ''ack not supported'', s) | Some f \<Rightarrow> f s)"

definition nack :: "'s Message \<Rightarrow> bool \<Rightarrow> 's \<Rightarrow> Status \<times> 's" where
  "nack m requeue s =
     (case nack_impl m of None \<Rightarrow> (unsupported ''nack not supported'', s) | Some f \<Rightarrow> f requeue s)"

definition setAckHandlers :: "'s Message \<Rightarrow> 's AckFn \<Rightarrow> 's NackFn \<Rightarrow> 's Message" where
  "setAckHandlers m a n = m\<lparr>ack_impl := Some a, nack_impl := Some n\<rparr>"

lemma envelope_setAckHandlers [simp]: "envelope (setAckHandlers m a n) = envelope m"
  by (simp add: setAckHandlers_def)

lemma ack_setAckHandlers [simp]:
  "ack (setAckHandlers m a n) = a" "nack (setAckHandlers m a n) = n"
  by (simp_all add: ack_def nack_def setAckHandlers_def fun_eq_iff)

end
