(* ===== verification/Amqp_Message.thy ===== *)
theory Amqp_Message
  imports Message
begin

text \<open>
  Envelopes as AMQP messages: \<^verbatim>\<open>toBasicMessage\<close> and \<^verbatim>\<open>fromBasicMessage\<close> of
  \<^verbatim>\<open>src/transport/RabbitMqSimpleTransport.cpp\<close>. The class \<^verbatim>\<open>AmqpClient::BasicMessage\<close> and the
  table values belong to the SimpleAmqpClient library; their member functions are the fields of
  the parameter \<open>bm_api\<close>, and \<open>bm_laws\<close> is the documented behaviour of these accessors.
\<close>

record ('bm, 'tv) bm_api =
  bm_Create :: "string \<Rightarrow> 'bm"
  bm_Body :: "'bm \<Rightarrow> string"
  bm_setContentType :: "string \<Rightarrow> 'bm \<Rightarrow> 'bm"
  bm_ContentTypeIsSet :: "'bm \<Rightarrow> bool"
  bm_ContentType :: "'bm \<Rightarrow> string"
  bm_setCorrelationId :: "string \<Rightarrow> 'bm \<Rightarrow> 'bm"
  bm_CorrelationIdIsSet :: "'bm \<Rightarrow> bool"
  bm_CorrelationId :: "'bm \<Rightarrow> string"
  bm_setReplyTo :: "string \<Rightarrow> 'bm \<Rightarrow> 'bm"
  bm_ReplyToIsSet :: "'bm \<Rightarrow> bool"
  bm_ReplyTo :: "'bm \<Rightarrow> string"
  bm_setHeaderTable :: "(string, 'tv) umap \<Rightarrow> 'bm \<Rightarrow> 'bm"
  bm_HeaderTableIsSet :: "'bm \<Rightarrow> bool"
  bm_HeaderTable :: "'bm \<Rightarrow> (string, 'tv) umap"
  tv_TableValue :: "string \<Rightarrow> 'tv"
  tv_GetString :: "'tv \<Rightarrow> string option"

definition header_table :: "('bm, 'tv) bm_api \<Rightarrow> Headers \<Rightarrow> (string, 'tv) umap" where
  "header_table api hs = foldl (\<lambda>table (k, v). um_insert_or_assign k (tv_TableValue api v) table) [] hs"

definition toBasicMessage :: "('bm, 'tv) bm_api \<Rightarrow> Envelope \<Rightarrow> 'bm" where
  "toBasicMessage api e =
     (let msg = bm_Create api (payload e);
          msg = (if content_type e \<noteq> [] then bm_setContentType api (content_type e) msg else msg);
          msg = (if correlation_id e \<noteq> [] then bm_setCorrelationId api (correlation_id e) msg else msg);
          msg = (case reply_to e of
                   Some a \<Rightarrow> if addr_name a \<noteq> [] then bm_setReplyTo api (addr_name a) msg else msg
                 | None \<Rightarrow> msg);
          msg = (if headers e \<noteq> [] then bm_setHeaderTable api (header_table api (headers e)) msg else msg)
      in msg)"

text \<open>A header whose value is not a string (\<^verbatim>\<open>GetString()\<close> throws) is skipped.\<close>

definition string_headers :: "('bm, 'tv) bm_api \<Rightarrow> (string, 'tv) umap \<Rightarrow> Headers" where
  "string_headers api table =
     foldl (\<lambda>hs (k, v). case tv_GetString api v of Some s \<Rightarrow> um_emplace k s hs | None \<Rightarrow> hs) [] table"

definition fromBasicMessage :: "('bm, 'tv) bm_api \<Rightarrow> 'bm \<Rightarrow> Envelope" where
  "fromBasicMessage api msg =
     (let e = empty_envelope\<lparr>payload := bm_Body api msg\<rparr>;
          e = (if bm_ContentTypeIsSet api msg then e\<lparr>content_type := bm_ContentType api msg\<rparr> else e);
          e = (if bm_CorrelationIdIsSet api msg then e\<lparr>correlation_id := bm_CorrelationId api msg\<rparr> else e);
          e = (if bm_ReplyToIsSet api msg then e\<lparr>reply_to := Some \<lparr>addr_name = bm_ReplyTo api msg\<rparr>\<rparr> else e);
          e = (if bm_HeaderTableIsSet api msg
               then e\<lparr>headers := string_headers api (bm_HeaderTable api msg)\<rparr> else e)
      in e)"

text \<open>
  The library's accessors: a new message has the given body and no property; a setter sets its own
  property and nothing else; a table value made from a string yields that string.
\<close>

definition bm_body_laws :: "('bm, 'tv) bm_api \<Rightarrow> bool" where
  "bm_body_laws api \<longleftrightarrow>
     (\<forall>b. bm_Body api (bm_Create api b) = b) \<and>
     (\<forall>s m. bm_Body api (bm_setContentType api s m) = bm_Body api m) \<and>
     (\<forall>s m. bm_Body api (bm_setCorrelationId api s m) = bm_Body api m) \<and>
     (\<forall>s m. bm_Body api (bm_setReplyTo api s m) = bm_Body api m) \<and>
     (\<forall>t m. bm_Body api (bm_setHeaderTable api t m) = bm_Body api m)"

definition bm_property_laws ::
  "('bm \<Rightarrow> bool) \<Rightarrow> ('bm \<Rightarrow> 'p) \<Rightarrow> (string \<Rightarrow> 'bm) \<Rightarrow> ('p \<Rightarrow> 'bm \<Rightarrow> 'bm) \<Rightarrow> ('bm \<Rightarrow> 'bm) set \<Rightarrow> bool" where
  "bm_property_laws isset get new put others \<longleftrightarrow>
     (\<forall>b. \<not> isset (new b)) \<and> (\<forall>p m. isset (put p m) \<and> get (put p m) = p) \<and>
     (\<forall>f \<in> others. \<forall>m. isset (f m) = isset m \<and> get (f m) = get m)"

definition bm_laws :: "('bm, 'tv) bm_api \<Rightarrow> bool" where
  "bm_laws api \<longleftrightarrow> bm_body_laws api \<and>
     bm_property_laws (bm_ContentTypeIsSet api) (bm_ContentType api) (bm_Create api)
       (bm_setContentType api) (range (bm_setCorrelationId api) \<union> range (bm_setReplyTo api) \<union>
         range (bm_setHeaderTable api)) \<and>
     bm_property_laws (bm_CorrelationIdIsSet api) (bm_CorrelationId api) (bm_Create api)
       (bm_setCorrelationId api) (range (bm_setContentType api) \<union> range (bm_setReplyTo api) \<union>
         range (bm_setHeaderTable api)) \<and>
     bm_property_laws (bm_ReplyToIsSet api) (bm_ReplyTo api) (bm_Create api)
       (bm_setReplyTo api) (range (bm_setContentType api) \<union> range (bm_setCorrelationId api) \<union>
         range (bm_setHeaderTable api)) \<and>
     bm_property_laws (bm_HeaderTableIsSet api) (bm_HeaderTable api) (bm_Create api)
       (bm_setHeaderTable api) (range (bm_setContentType api) \<union> range (bm_setCorrelationId api) \<union>
         range (bm_setReplyTo api)) \<and>
     (\<forall>s. tv_GetString api (tv_TableValue api s) = Some s)"

text \<open>An implementation of the accessors: a message as a record of its properties.\<close>

record plain_message =
  pm_body :: string
  pm_content_type :: "string option"
  pm_correlation_id :: "string option"
  pm_reply_to :: "string option"
  pm_headers :: "(string, string option) umap option"

definition plain_api :: "(plain_message, string option) bm_api" where
  "plain_api = \<lparr>
     bm_Create = (\<lambda>b. \<lparr>pm_body = b, pm_content_type = None, pm_correlation_id = None,
       pm_reply_to = None, pm_headers = None\<rparr>),
     bm_Body = pm_body,
     bm_setContentType = (\<lambda>s m. m\<lparr>pm_content_type := Some s\<rparr>),
     bm_ContentTypeIsSet = (\<lambda>m. pm_content_type m \<noteq> None),
     bm_ContentType = (\<lambda>m. the (pm_content_type m)),
     bm_setCorrelationId = (\<lambda>s m. m\<lparr>pm_correlation_id := Some s\<rparr>),
     bm_CorrelationIdIsSet = (\<lambda>m. pm_correlation_id m \<noteq> None),
     bm_CorrelationId = (\<lambda>m. the (pm_correlation_id m)),
     bm_setReplyTo = (\<lambda>s m. m\<lparr>pm_reply_to := Some s\<rparr>),
     bm_ReplyToIsSet = (\<lambda>m. pm_reply_to m \<noteq> None),
     bm_ReplyTo = (\<lambda>m. the (pm_reply_to m)),
     bm_setHeaderTable = (\<lambda>t m. m\<lparr>pm_headers := Some t\<rparr>),
     bm_HeaderTableIsSet = (\<lambda>m. pm_headers m \<noteq> None),
     bm_HeaderTable = (\<lambda>m. the (pm_headers m)),
     tv_TableValue = Some,
     tv_GetString = id\<rparr>"

text \<open>What survives the trip: an empty reply address is not transmitted.\<close>

definition transmitted_reply :: "Address option \<Rightarrow> Address option" where
  "transmitted_reply r = (case r of Some a \<Rightarrow> if addr_name a = [] then None else Some a | None \<Rightarrow> None)"

section \<open>Lemmas\<close>

lemma plain_api_laws: "bm_laws plain_api"
  by (auto simp: bm_laws_def bm_body_laws_def bm_property_laws_def plain_api_def)

lemma property_lawsD:
  assumes "bm_property_laws isset get new put others"
  shows "\<not> isset (new b)" "isset (put p m)" "get (put p m) = p"
    "f \<in> others \<Longrightarrow> isset (f m) = isset m" "f \<in> others \<Longrightarrow> get (f m) = get m"
  using assms unfolding bm_property_laws_def by blast+

lemma header_table_find:
  assumes "um_wf hs"
  shows "um_find (header_table api hs) = map_option (tv_TableValue api) \<circ> um_find hs"
proof -
  have "foldl (\<lambda>table (k, v). um_insert_or_assign k (tv_TableValue api v) table) m hs =
      foldl (\<lambda>m (k, v). um_insert_or_assign k v m) m (map (\<lambda>(k, v). (k, tv_TableValue api v)) hs)" for m
    by (induction hs arbitrary: m) auto
  moreover have "map_of (rev (map (\<lambda>(k, v). (k, tv_TableValue api v)) hs)) =
      map_option (tv_TableValue api) \<circ> map_of hs"
  proof -
    have "map_of (rev hs) = map_of hs"
      using assms by (intro map_of_inject_set [THEN iffD2]) (simp_all add: um_wf_def flip: rev_map)
    then show ?thesis by (simp add: map_of_map rev_map)
  qed
  ultimately show ?thesis
    using um.fill_assign [of "[]" "map (\<lambda>(k, v). (k, tv_TableValue api v)) hs"]
    by (simp add: header_table_def um.find_empty) (simp add: um_find_def)
qed

lemma header_table_wf: "um_wf (header_table api hs)"
proof -
  have "um_wf m \<Longrightarrow> um_wf (foldl (\<lambda>t (k, v). um_insert_or_assign k (tv_TableValue api v) t) m hs)" for m
    by (induction hs arbitrary: m) (auto simp: um.wf_assign)
  then show ?thesis by (simp add: header_table_def um.wf_empty)
qed

lemma string_headers_find:
  assumes "um_wf table"
  shows "um_find (string_headers api table) k = Option.bind (um_find table k) (tv_GetString api)"
proof -
  have "um_find (foldl (\<lambda>hs (k, v). case tv_GetString api v of Some s \<Rightarrow> um_emplace k s hs | None \<Rightarrow> hs) m table) k
      = (case um_find m k of Some s \<Rightarrow> Some s | None \<Rightarrow> Option.bind (um_find table k) (tv_GetString api))" for m
    using assms
  proof (induction table arbitrary: m)
    case Nil
    show ?case by (simp add: um_find_def split: option.split)
  next
    case (Cons p table)
    obtain j v where p: "p = (j, v)" by (cases p)
    from Cons.prems have wf: "um_wf table" and j: "um_find table j = None"
      by (simp_all add: p um_wf_def um_find_def map_of_eq_None_iff)
    have find: "um_find ((j, v) # table) i = (if i = j then Some v else um_find table i)" for i
      by (auto simp: um_find_def)
    show ?case
      by (cases "tv_GetString api v")
        (auto simp: Cons.IH [OF wf] find p um.find_emplace j split: option.split)
  qed
  from this [of "[]"] show ?thesis by (simp add: string_headers_def um.find_empty)
qed

text \<open>The properties of a converted envelope.\<close>

lemma basic_message_properties:
  assumes "bm_laws api" and "um_wf (headers e)"
  shows "bm_Body api (toBasicMessage api e) = payload e"
    "bm_ContentTypeIsSet api (toBasicMessage api e) \<longleftrightarrow> content_type e \<noteq> []"
    "content_type e \<noteq> [] \<Longrightarrow> bm_ContentType api (toBasicMessage api e) = content_type e"
    "bm_CorrelationIdIsSet api (toBasicMessage api e) \<longleftrightarrow> correlation_id e \<noteq> []"
    "correlation_id e \<noteq> [] \<Longrightarrow> bm_CorrelationId api (toBasicMessage api e) = correlation_id e"
    "bm_ReplyToIsSet api (toBasicMessage api e) \<longleftrightarrow> transmitted_reply (reply_to e) \<noteq> None"
    "transmitted_reply (reply_to e) = Some a \<Longrightarrow> \<lparr>addr_name = bm_ReplyTo api (toBasicMessage api e)\<rparr> = a"
    "bm_HeaderTableIsSet api (toBasicMessage api e) \<longleftrightarrow> headers e \<noteq> []"
    "headers e \<noteq> [] \<Longrightarrow> bm_HeaderTable api (toBasicMessage api e) = header_table api (headers e)"
    "um_find (string_headers api (header_table api (headers e))) = um_find (headers e)"
proof -
  have laws: "bm_body_laws api" "\<And>s. tv_GetString api (tv_TableValue api s) = Some s"
    using assms(1) by (simp_all add: bm_laws_def)
  note props = assms(1) [unfolded bm_laws_def]
  note ct = property_lawsD [OF props [THEN conjunct2, THEN conjunct1]]
    and co = property_lawsD [OF props [THEN conjunct2, THEN conjunct2, THEN conjunct1]]
    and rt = property_lawsD [OF props [THEN conjunct2, THEN conjunct2, THEN conjunct2, THEN conjunct1]]
    and ht = property_lawsD [OF props [THEN conjunct2, THEN conjunct2, THEN conjunct2, THEN conjunct2, THEN conjunct1]]
  let ?m = "toBasicMessage api e"
  show "bm_Body api ?m = payload e"
    using laws(1) by (simp add: toBasicMessage_def bm_body_laws_def Let_def split: option.split)
  show "bm_ContentTypeIsSet api ?m \<longleftrightarrow> content_type e \<noteq> []"
    "content_type e \<noteq> [] \<Longrightarrow> bm_ContentType api ?m = content_type e"
    by (simp_all add: toBasicMessage_def Let_def ct split: option.split)
  show "bm_CorrelationIdIsSet api ?m \<longleftrightarrow> correlation_id e \<noteq> []"
    "correlation_id e \<noteq> [] \<Longrightarrow> bm_CorrelationId api ?m = correlation_id e"
    by (simp_all add: toBasicMessage_def Let_def co split: option.split)
  show "bm_ReplyToIsSet api ?m \<longleftrightarrow> transmitted_reply (reply_to e) \<noteq> None"
    "transmitted_reply (reply_to e) = Some a \<Longrightarrow> \<lparr>addr_name = bm_ReplyTo api ?m\<rparr> = a"
    by (auto simp: toBasicMessage_def Let_def rt transmitted_reply_def split: option.splits if_splits)
  show "bm_HeaderTableIsSet api ?m \<longleftrightarrow> headers e \<noteq> []"
    "headers e \<noteq> [] \<Longrightarrow> bm_HeaderTable api ?m = header_table api (headers e)"
    by (simp_all add: toBasicMessage_def Let_def ht split: option.split)
  show "um_find (string_headers api (header_table api (headers e))) = um_find (headers e)"
    using laws(2) header_table_find [OF assms(2), of api]
    by (auto simp: fun_eq_iff string_headers_find [OF header_table_wf] split: option.split bind_splits)
qed

text \<open>An envelope as a codec makes it, without a reply address and headers, arrives unchanged.\<close>

lemma plain_envelope_unchanged:
  assumes "bm_laws api" and "headers e = []" and "reply_to e = None"
  shows "fromBasicMessage api (toBasicMessage api e) = e"
proof -
  have wf: "um_wf (headers e)" using assms(2) by (simp add: um_wf_def)
  from basic_message_properties [OF assms(1) wf] assms(2,3) show ?thesis
    by (cases e) (auto simp: fromBasicMessage_def Let_def empty_envelope_def transmitted_reply_def)
qed

section \<open>Properties\<close>

text \<open>
  C33: an envelope survives the AMQP message. Converting an envelope to a RabbitMQ message and back
  gives the same payload, content type and correlation id, the same reply address unless its name
  is empty (then none), and the same headers, given the library's accessors behave as documented.
\<close>

theorem amqp_envelope_roundtrip:
  assumes "bm_laws api" and "um_wf (headers e)"
  shows "payload (fromBasicMessage api (toBasicMessage api e)) = payload e \<and>
    content_type (fromBasicMessage api (toBasicMessage api e)) = content_type e \<and>
    correlation_id (fromBasicMessage api (toBasicMessage api e)) = correlation_id e \<and>
    reply_to (fromBasicMessage api (toBasicMessage api e)) = transmitted_reply (reply_to e) \<and>
    um_find (headers (fromBasicMessage api (toBasicMessage api e))) = um_find (headers e)"
  using basic_message_properties [OF assms]
  by (cases "transmitted_reply (reply_to e)") (simp_all add: fromBasicMessage_def Let_def empty_envelope_def)

theorem amqp_envelope_roundtrip_witness:
  "um_find (headers (fromBasicMessage plain_api (toBasicMessage plain_api
      (empty_envelope\<lparr>payload := ''{}'', headers := [(''a'', ''1''), (''b'', ''2'')]\<rparr>)))) =
    um_find [(''a'', ''1''), (''b'', ''2'')]"
  using amqp_envelope_roundtrip [OF plain_api_laws,
      of "empty_envelope\<lparr>payload := ''{}'', headers := [(''a'', ''1''), (''b'', ''2'')]\<rparr>"]
  by (simp add: um_wf_def)

end
