(* ===== verification/Transport.thy ===== *)
theory Transport
  imports Message
begin

text \<open>
  The abstract transport interface (\<^verbatim>\<open>include/mqss/transport/Transport.hpp\<close>): the feature set,
  the argument structures of \<^verbatim>\<open>send()\<close> and \<^verbatim>\<open>receive()\<close>, and the documented contract of an
  implementation as two locales. \<open>transport_contract\<close> is what every backend promises about its
  arguments and its capabilities; \<open>fifo_transport\<close> adds the per-address queues that the
  in-memory backend documents.
\<close>

datatype Feature = ManualAck | Requeue | SendConfirm

fun feature_index :: "Feature \<Rightarrow> nat" where
  "feature_index ManualAck = 0"
| "feature_index Requeue = 1"
| "feature_index SendConfirm = 2"

record FeatureSet =
  feature_bits :: "bool list"

definition num_features :: nat where
  "num_features = 8"

definition FeatureSet_empty :: FeatureSet where
  "FeatureSet_empty = \<lparr>feature_bits = replicate num_features False\<rparr>"

definition add :: "FeatureSet \<Rightarrow> Feature \<Rightarrow> FeatureSet" where
  "add fs f = fs\<lparr>feature_bits := (feature_bits fs)[feature_index f := True]\<rparr>"

definition FeatureSet_of :: "Feature list \<Rightarrow> FeatureSet" where
  "FeatureSet_of fs = foldl add FeatureSet_empty fs"

definition has :: "FeatureSet \<Rightarrow> Feature \<Rightarrow> bool" where
  "has fs f = feature_bits fs ! feature_index f"

datatype AckMode = AckAuto | AckManual

record SendArgs =
  confirm :: bool

record ReceiveArgs =
  recv_timeout :: "int option"
  ack_mode :: AckMode

definition default_send_args :: SendArgs where
  "default_send_args = \<lparr>confirm = False\<rparr>"

definition default_receive_args :: ReceiveArgs where
  "default_receive_args = \<lparr>recv_timeout = None, ack_mode = AckManual\<rparr>"

text \<open>
  A blocking \<^verbatim>\<open>receive()\<close> is a partial operation: \<^term>\<open>None\<close> is the call that does not return.
\<close>

type_synonym 's send_op = "Address \<Rightarrow> Envelope \<Rightarrow> SendArgs \<Rightarrow> 's \<Rightarrow> Status \<times> 's"
type_synonym 's receive_op = "Address \<Rightarrow> ReceiveArgs \<Rightarrow> 's \<Rightarrow> ('s Message Result \<times> 's) option"

text \<open>The bits of a feature set stay within the array, and \<open>has\<close> reads what \<open>add\<close> wrote.\<close>

definition feature_set_wf :: "FeatureSet \<Rightarrow> bool" where
  "feature_set_wf fs \<longleftrightarrow> length (feature_bits fs) = num_features"

lemma feature_index_inject [simp]: "feature_index f = feature_index g \<longleftrightarrow> f = g"
  by (cases f; cases g) auto

lemma feature_index_bound [simp]: "feature_index f < num_features"
  by (cases f) (auto simp: num_features_def)

lemma feature_set_wf_empty [simp]: "feature_set_wf FeatureSet_empty"
  by (simp add: feature_set_wf_def FeatureSet_empty_def)

lemma feature_set_wf_add [simp]: "feature_set_wf fs \<Longrightarrow> feature_set_wf (add fs f)"
  by (simp add: feature_set_wf_def add_def)

lemma has_empty [simp]: "\<not> has FeatureSet_empty f"
  by (simp add: has_def FeatureSet_empty_def)

lemma has_add: "feature_set_wf fs \<Longrightarrow> has (add fs f) g \<longleftrightarrow> f = g \<or> has fs g"
  by (auto simp: has_def add_def feature_set_wf_def nth_list_update)

lemma has_foldl_add:
  "feature_set_wf fs \<Longrightarrow> has (foldl add fs gs) g \<longleftrightarrow> g \<in> set gs \<or> has fs g"
  by (induction gs arbitrary: fs) (auto simp: has_add)

lemma has_FeatureSet_of [simp]: "has (FeatureSet_of gs) g \<longleftrightarrow> g \<in> set gs"
  by (simp add: FeatureSet_of_def has_foldl_add)

section \<open>The contract of a backend\<close>

locale transport_contract =
  fixes features :: FeatureSet
    and tsend :: "'s send_op"
    and treceive :: "'s receive_op"
  assumes send_empty_name:
      "addr_name d = [] \<Longrightarrow> \<exists>r. tsend d e a s = (invalidArgument r, s)"
    and send_confirm_unsupported:
      "addr_name d \<noteq> [] \<Longrightarrow> confirm a \<Longrightarrow> \<not> has features SendConfirm \<Longrightarrow>
        \<exists>r. tsend d e a s = (unsupported r, s)"
    and receive_empty_name:
      "addr_name d = [] \<Longrightarrow> \<exists>r. treceive d ra s = Some (Inl (invalidArgument r), s)"
begin

lemma send_ok_name: "ok (fst (tsend d e a s)) \<Longrightarrow> addr_name d \<noteq> []"
  using send_empty_name [of d e a s] by auto

lemma send_ok_confirm:
  "ok (fst (tsend d e a s)) \<Longrightarrow> confirm a \<Longrightarrow> has features SendConfirm"
  using send_empty_name [of d e a s] send_confirm_unsupported [of d a e s] by fastforce

lemma receive_some_name:
  "treceive d ra s = Some (Inr m, s') \<Longrightarrow> addr_name d \<noteq> []"
  using receive_empty_name [of d ra s] by auto

end

text \<open>
  \<open>queue s n\<close> is the FIFO queue of address \<open>n\<close> and \<open>live s\<close> says that the transport has not
  been shut down. The receive laws are about a call that finds the queue as it is; what happens
  while a call waits is the business of the backend's own theory.
\<close>

locale fifo_transport = transport_contract +
  fixes queue :: "'s \<Rightarrow> string \<Rightarrow> Envelope list"
    and live :: "'s \<Rightarrow> bool"
  assumes send_accept:
      "addr_name d \<noteq> [] \<Longrightarrow> \<not> confirm a \<Longrightarrow> live s \<Longrightarrow>
        \<exists>s'. tsend d e a s = (success, s') \<and> live s' \<and>
          queue s' = (queue s)(addr_name d := queue s (addr_name d) @ [e])"
    and send_down:
      "addr_name d \<noteq> [] \<Longrightarrow> \<not> confirm a \<Longrightarrow> \<not> live s \<Longrightarrow>
        \<exists>r. tsend d e a s = (unavailable r, s)"
    and receive_front:
      "addr_name d \<noteq> [] \<Longrightarrow> live s \<Longrightarrow> queue s (addr_name d) = e # es \<Longrightarrow>
        \<exists>m s'. treceive d ra s = Some (Inr m, s') \<and> envelope m = e \<and> live s' \<and>
          queue s' = (queue s)(addr_name d := es)"
    and receive_poll_empty:
      "addr_name d \<noteq> [] \<Longrightarrow> live s \<Longrightarrow> queue s (addr_name d) = [] \<Longrightarrow>
        recv_timeout ra = Some 0 \<Longrightarrow> \<exists>r. treceive d ra s = Some (Inl (timeout r), s)"
    and receive_down:
      "addr_name d \<noteq> [] \<Longrightarrow> \<not> live s \<Longrightarrow> \<exists>r. treceive d ra s = Some (Inl (unavailable r), s)"
begin

lemma send_receive:
  assumes "addr_name d \<noteq> []" and "\<not> confirm a" and "live s" and "queue s (addr_name d) = []"
  shows "\<exists>s' m s''. tsend d e a s = (success, s') \<and> treceive d ra s' = Some (Inr m, s'') \<and>
    envelope m = e \<and> queue s'' = queue s \<and> live s''"
proof -
  from send_accept [OF assms(1-3), of e] obtain s' where
    s': "tsend d e a s = (success, s')" "live s'"
      "queue s' = (queue s)(addr_name d := queue s (addr_name d) @ [e])" by blast
  then have "queue s' (addr_name d) = e # []" using assms(4) by simp
  from receive_front [OF assms(1) s'(2) this, of ra] obtain m s'' where
    "treceive d ra s' = Some (Inr m, s'')" "envelope m = e" "live s''"
    "queue s'' = (queue s')(addr_name d := [])" by blast
  moreover from this(4) have "queue s'' = queue s"
    using s'(3) assms(4) by (auto simp: fun_eq_iff)
  ultimately show ?thesis using s'(1) by blast
qed

text \<open>Sending a list of envelopes one after the other appends them in order.\<close>

lemma send_all:
  assumes "addr_name d \<noteq> []" and "\<not> confirm a" and "live s"
  shows "let s' = foldl (\<lambda>s e. snd (tsend d e a s)) s es in
    live s' \<and> queue s' = (queue s)(addr_name d := queue s (addr_name d) @ es)"
  using assms(3)
proof (induction es arbitrary: s)
  case Nil
  then show ?case by (simp add: fun_eq_iff)
next
  case (Cons e es)
  from send_accept [OF assms(1,2) Cons.prems, of e] obtain s' where
    s': "tsend d e a s = (success, s')" "live s'"
      "queue s' = (queue s)(addr_name d := queue s (addr_name d) @ [e])" by blast
  from Cons.IH [OF s'(2)] show ?case
    by (auto simp: s'(1,3) Let_def fun_eq_iff)
qed

end

end
