(* ===== verification/Rabbit_Transport.thy ===== *)
theory Rabbit_Transport
  imports Amqp_Message Transport
begin

text \<open>
  The RabbitMQ backend (\<^verbatim>\<open>src/transport/RabbitMqSimpleTransport.cpp\<close>). SimpleAmqpClient, the
  broker behind it and the steady clock are the parameter \<open>am\<close>, a record of the calls the source
  makes: each takes the outside world, and yields either the text of the exception it throws or
  its result, together with the world afterwards. \<open>stop_seen\<close> tells whether another thread has
  shut the transport down, and \<open>wait_lock\<close> is what other threads do to the world while the send
  mutex is waited for. The state of manually acknowledged messages, which the handlers share
  through a pointer, is a list in the transport's record, and a handler holds an index into it.
\<close>

record RabbitMqSimple_options =
  opt_host :: string
  opt_port :: int32
  opt_username :: string
  opt_password :: string
  opt_vhost :: string

definition RabbitMqSimple_default :: RabbitMqSimple_options where
  "RabbitMqSimple_default = \<lparr>opt_host = ''127.0.0.1'', opt_port = 5672, opt_username = ''guest'',
     opt_password = ''guest'', opt_vhost = ''/''\<rparr>"

type_synonym ('w, 'a) throwing = "'w \<Rightarrow> (string + 'a) \<times> 'w"

record ('w, 'ch, 'bm, 'd) amqp =
  am_Create :: "RabbitMqSimple_options \<Rightarrow> ('w, 'ch) throwing"
  am_DeclareQueue :: "'ch \<Rightarrow> string \<Rightarrow> bool \<Rightarrow> bool \<Rightarrow> bool \<Rightarrow> bool \<Rightarrow> ('w, unit) throwing"
  am_BasicPublish :: "'ch \<Rightarrow> string \<Rightarrow> string \<Rightarrow> 'bm \<Rightarrow> ('w, unit) throwing"
  am_BasicGet :: "'ch \<Rightarrow> string \<Rightarrow> bool \<Rightarrow> ('w, 'd option) throwing"
  am_BasicConsume :: "'ch \<Rightarrow> string \<Rightarrow> string \<Rightarrow> bool \<Rightarrow> bool \<Rightarrow> bool \<Rightarrow> nat \<Rightarrow> ('w, string) throwing"
  am_BasicConsumeMessage :: "'ch \<Rightarrow> string \<Rightarrow> int \<Rightarrow> ('w, 'd option) throwing"
  am_BasicCancel :: "'ch \<Rightarrow> string \<Rightarrow> ('w, unit) throwing"
  am_BasicAck :: "'ch \<Rightarrow> 'd \<Rightarrow> ('w, unit) throwing"
  am_BasicReject :: "'ch \<Rightarrow> 'd \<Rightarrow> bool \<Rightarrow> ('w, unit) throwing"
  am_Message :: "'d \<Rightarrow> 'bm"
  steady_now :: "'w \<Rightarrow> int"
  stop_seen :: "'w \<Rightarrow> bool"
  wait_lock :: "'w \<Rightarrow> 'w"

record ('ch, 'd) AckState =
  ack_completed :: bool
  ack_ch :: 'ch
  ack_delivery :: 'd

record 'ch rb_state =
  rb_opts :: RabbitMqSimple_options
  rb_stopped :: bool
  rb_send_ch :: "'ch option"

record ('w, 'ch, 'd) RabbitMqSimpleTransport =
  rb_ptr :: "'ch rb_state option"
  rb_world :: 'w
  rb_acks :: "('ch, 'd) AckState list"

definition createTransport_RabbitMq :: "RabbitMqSimple_options \<Rightarrow> 'w \<Rightarrow> ('w, 'ch, 'd) RabbitMqSimpleTransport" where
  "createTransport_RabbitMq options w =
     \<lparr>rb_ptr = Some \<lparr>rb_opts = options, rb_stopped = False, rb_send_ch = None\<rparr>, rb_world = w,
      rb_acks = []\<rparr>"

definition rb_features :: FeatureSet where
  "rb_features = FeatureSet_of [ManualAck, Requeue]"

definition rb_shutdown :: "('w, 'ch, 'd) RabbitMqSimpleTransport \<Rightarrow> ('w, 'ch, 'd) RabbitMqSimpleTransport" where
  "rb_shutdown t = (case rb_ptr t of
       None \<Rightarrow> t
     | Some st \<Rightarrow> t\<lparr>rb_ptr := Some (st\<lparr>rb_stopped := True\<rparr>)\<rparr>)"

text \<open>\<^verbatim>\<open>state->stopped.load()\<close>\<close>

definition rb_is_stopped :: "('w, 'ch, 'bm, 'd) amqp \<Rightarrow> 'ch rb_state \<Rightarrow> 'w \<Rightarrow> bool" where
  "rb_is_stopped am st w \<longleftrightarrow> rb_stopped st \<or> stop_seen am w"

definition openChannel :: "('w, 'ch, 'bm, 'd) amqp \<Rightarrow> RabbitMqSimple_options \<Rightarrow> ('w, 'ch) throwing" where
  "openChannel am opts = am_Create am opts"

definition rb_send ::
  "('w, 'ch, 'bm, 'd) amqp \<Rightarrow> ('bm, 'tv) bm_api \<Rightarrow> ('w, 'ch, 'd) RabbitMqSimpleTransport send_op" where
  "rb_send am bapi dest e args t =
     (if addr_name dest = [] then (invalidArgument ''send destination name is empty'', t)
      else if confirm args then (unsupported ''send confirmation is not supported'', t)
      else case rb_ptr t of
        None \<Rightarrow> (unavailable ''transport not initialized'', t)
      | Some st \<Rightarrow>
        if rb_is_stopped am st (rb_world t) then (unavailable ''transport shut down'', t)
        else let bm = toBasicMessage bapi e; w = wait_lock am (rb_world t) in
        if rb_is_stopped am st w then (unavailable ''transport shut down'', t\<lparr>rb_world := w\<rparr>)
        else case (case rb_send_ch st of Some ch \<Rightarrow> (Inr ch, w) | None \<Rightarrow> openChannel am (rb_opts st) w) of
          (Inl x, w1) \<Rightarrow> (unavailable (''send failed: '' @ x), t\<lparr>rb_world := w1\<rparr>)
        | (Inr ch, w1) \<Rightarrow>
            let t1 = t\<lparr>rb_ptr := Some (st\<lparr>rb_send_ch := Some ch\<rparr>)\<rparr> in
            case am_DeclareQueue am ch (addr_name dest) False False False False w1 of
              (Inl x, w2) \<Rightarrow> (unavailable (''send failed: '' @ x), t1\<lparr>rb_world := w2\<rparr>)
            | (Inr _, w2) \<Rightarrow>
                case am_BasicPublish am ch [] (addr_name dest) bm w2 of
                  (Inl x, w3) \<Rightarrow> (unavailable (''send failed: '' @ x), t1\<lparr>rb_world := w3\<rparr>)
                | (Inr _, w3) \<Rightarrow> (success, t1\<lparr>rb_world := w3\<rparr>))"

section \<open>Acknowledgement\<close>

definition rb_complete ::
  "(('ch, 'd) AckState \<Rightarrow> ('w, unit) throwing) \<Rightarrow> string \<Rightarrow> nat \<Rightarrow>
   ('w, 'ch, 'd) RabbitMqSimpleTransport \<Rightarrow> Status \<times> ('w, 'ch, 'd) RabbitMqSimpleTransport" where
  "rb_complete call what i t =
     (let a = rb_acks t ! i in
      if ack_completed a then (internal ''message already acked/nacked'', t)
      else case call a (rb_world t) of
          (Inl x, w) \<Rightarrow> (internal (what @ '' failed: '' @ x), t\<lparr>rb_world := w\<rparr>)
        | (Inr _, w) \<Rightarrow>
            (success, t\<lparr>rb_world := w, rb_acks := (rb_acks t)[i := a\<lparr>ack_completed := True\<rparr>]\<rparr>))"

definition rb_ack ::
  "('w, 'ch, 'bm, 'd) amqp \<Rightarrow> nat \<Rightarrow> ('w, 'ch, 'd) RabbitMqSimpleTransport AckFn" where
  "rb_ack am i = rb_complete (\<lambda>a. am_BasicAck am (ack_ch a) (ack_delivery a)) ''ack'' i"

definition rb_nack ::
  "('w, 'ch, 'bm, 'd) amqp \<Rightarrow> nat \<Rightarrow> ('w, 'ch, 'd) RabbitMqSimpleTransport NackFn" where
  "rb_nack am i requeue =
     rb_complete (\<lambda>a. am_BasicReject am (ack_ch a) (ack_delivery a) requeue) ''nack'' i"

definition makeMessageFromDelivery ::
  "('w, 'ch, 'bm, 'd) amqp \<Rightarrow> ('bm, 'tv) bm_api \<Rightarrow> 'ch \<Rightarrow> 'd \<Rightarrow> AckMode \<Rightarrow>
   ('w, 'ch, 'd) RabbitMqSimpleTransport \<Rightarrow>
   ('w, 'ch, 'd) RabbitMqSimpleTransport Message \<times> ('w, 'ch, 'd) RabbitMqSimpleTransport" where
  "makeMessageFromDelivery am bapi ch d mode t =
     (let msg = \<lparr>envelope = fromBasicMessage bapi (am_Message am d), ack_impl = None, nack_impl = None\<rparr>;
          i = length (rb_acks t)
      in if mode \<noteq> AckManual then (msg, t)
         else (setAckHandlers msg (rb_ack am i) (rb_nack am i),
               t\<lparr>rb_acks := rb_acks t @ [\<lparr>ack_completed = False, ack_ch = ch, ack_delivery = d\<rparr>]\<rparr>))"

section \<open>Receiving\<close>

datatype 'd wait_result = WaitStopped | WaitTimedOut | WaitGot 'd | WaitThrew string

text \<open>The wait without a timeout: polls of 200 ms until a message, the shutdown or an exception.\<close>

partial_function (option) rb_wait ::
  "('w, 'ch, 'bm, 'd) amqp \<Rightarrow> 'ch \<Rightarrow> string \<Rightarrow> 'ch rb_state \<Rightarrow> 'w \<Rightarrow> ('d wait_result \<times> 'w) option" where
  "rb_wait am ch tag st w =
     (if rb_is_stopped am st w then Some (WaitStopped, w)
      else case am_BasicConsumeMessage am ch tag 200 w of
          (Inl x, w') \<Rightarrow> Some (WaitThrew x, w')
        | (Inr None, w') \<Rightarrow> rb_wait am ch tag st w'
        | (Inr (Some d), w') \<Rightarrow> Some (WaitGot d, w'))"

text \<open>The clock counts nanoseconds; the rest of the time is cut to whole milliseconds.\<close>

definition wait_ms :: "int \<Rightarrow> int \<Rightarrow> int" where
  "wait_ms deadline now = min ((deadline - now) div 1000000) 200"

partial_function (option) rb_wait_until ::
  "('w, 'ch, 'bm, 'd) amqp \<Rightarrow> 'ch \<Rightarrow> string \<Rightarrow> 'ch rb_state \<Rightarrow> int \<Rightarrow> 'w \<Rightarrow> ('d wait_result \<times> 'w) option" where
  "rb_wait_until am ch tag st deadline w =
     (if rb_is_stopped am st w then Some (WaitStopped, w)
      else if deadline \<le> steady_now am w then Some (WaitTimedOut, w)
      else case am_BasicConsumeMessage am ch tag (wait_ms deadline (steady_now am w)) w of
          (Inl x, w') \<Rightarrow> Some (WaitThrew x, w')
        | (Inr None, w') \<Rightarrow> rb_wait_until am ch tag st deadline w'
        | (Inr (Some d), w') \<Rightarrow> Some (WaitGot d, w'))"

text \<open>\<^verbatim>\<open>cancel_consumer\<close>: an exception of the clean-up is ignored.\<close>

definition cancel_consumer :: "('w, 'ch, 'bm, 'd) amqp \<Rightarrow> 'ch \<Rightarrow> string \<Rightarrow> 'w \<Rightarrow> 'w" where
  "cancel_consumer am ch tag w = snd (am_BasicCancel am ch tag w)"

definition rb_consume ::
  "('w, 'ch, 'bm, 'd) amqp \<Rightarrow> 'ch rb_state \<Rightarrow> 'ch \<Rightarrow> string \<Rightarrow> ReceiveArgs \<Rightarrow> 'w \<Rightarrow>
   ('d wait_result \<times> 'w) option" where
  "rb_consume am st ch n args w =
     (case am_BasicConsume am ch n [] True (ack_mode args = AckAuto) False 1 w of
        (Inl x, w') \<Rightarrow> Some (WaitThrew x, w')
      | (Inr tag, w') \<Rightarrow>
          (case (case recv_timeout args of
                   None \<Rightarrow> rb_wait am ch tag st w'
                 | Some ms \<Rightarrow> rb_wait_until am ch tag st (steady_now am w' + ms * 1000000) w') of
             None \<Rightarrow> None
           | Some (WaitThrew x, w'') \<Rightarrow> Some (WaitThrew x, w'')
           | Some (r, w'') \<Rightarrow> Some (r, cancel_consumer am ch tag w'')))"

definition rb_receive ::
  "('w, 'ch, 'bm, 'd) amqp \<Rightarrow> ('bm, 'tv) bm_api \<Rightarrow> ('w, 'ch, 'd) RabbitMqSimpleTransport receive_op" where
  "rb_receive am bapi src args t =
     (if addr_name src = [] then Some (Inl (invalidArgument ''receive source name is empty''), t)
      else case rb_ptr t of
        None \<Rightarrow> Some (Inl (unavailable ''transport not initialized''), t)
      | Some st \<Rightarrow>
        if rb_is_stopped am st (rb_world t) then Some (Inl (unavailable ''transport shut down''), t)
        else let failed = (\<lambda>x w. Some (Inl (unavailable (''receive failed: '' @ x)), t\<lparr>rb_world := w\<rparr>));
                 deliver = (\<lambda>ch d w. case makeMessageFromDelivery am bapi ch d (ack_mode args) (t\<lparr>rb_world := w\<rparr>)
                   of (m, t') \<Rightarrow> Some (Inr m, t'))
        in case openChannel am (rb_opts st) (rb_world t) of
          (Inl x, w1) \<Rightarrow> failed x w1
        | (Inr ch, w1) \<Rightarrow>
          case am_DeclareQueue am ch (addr_name src) False False False False w1 of
            (Inl x, w2) \<Rightarrow> failed x w2
          | (Inr _, w2) \<Rightarrow>
            if recv_timeout args = Some 0 then
              (case am_BasicGet am ch (addr_name src) (ack_mode args = AckAuto) w2 of
                 (Inl x, w3) \<Rightarrow> failed x w3
               | (Inr None, w3) \<Rightarrow> Some (Inl (timeout ''no message received''), t\<lparr>rb_world := w3\<rparr>)
               | (Inr (Some d), w3) \<Rightarrow> deliver ch d w3)
            else
              (case rb_consume am st ch (addr_name src) args w2 of
                 None \<Rightarrow> None
               | Some (WaitThrew x, w3) \<Rightarrow> failed x w3
               | Some (WaitStopped, w3) \<Rightarrow> Some (Inl (unavailable ''transport shut down''), t\<lparr>rb_world := w3\<rparr>)
               | Some (WaitTimedOut, w3) \<Rightarrow> Some (Inl (timeout ''receive timed out''), t\<lparr>rb_world := w3\<rparr>)
               | Some (WaitGot d, w3) \<Rightarrow> deliver ch d w3))"

interpretation rb: transport_contract rb_features "rb_send am bapi" "rb_receive am bapi" for am bapi
  by unfold_locales (auto simp: rb_send_def rb_receive_def)

text \<open>What the timed wait needs of the library and the clock: time passes during an empty poll.\<close>

definition clock_advances :: "('w, 'ch, 'bm, 'd) amqp \<Rightarrow> bool" where
  "clock_advances am \<longleftrightarrow>
     (\<forall>ch tag ms w w'. am_BasicConsumeMessage am ch tag ms w = (Inr None, w') \<longrightarrow>
        steady_now am w < steady_now am w')"

text \<open>One round of the wait without a timeout, and the world after a number of rounds.\<close>

definition poll_result ::
  "('w, 'ch, 'bm, 'd) amqp \<Rightarrow> 'ch \<Rightarrow> string \<Rightarrow> 'ch rb_state \<Rightarrow> 'w \<Rightarrow> ('d wait_result \<times> 'w) option" where
  "poll_result am ch tag st w =
     (if rb_is_stopped am st w then Some (WaitStopped, w)
      else case am_BasicConsumeMessage am ch tag 200 w of
          (Inl x, w') \<Rightarrow> Some (WaitThrew x, w')
        | (Inr None, w') \<Rightarrow> None
        | (Inr (Some d), w') \<Rightarrow> Some (WaitGot d, w'))"

fun poll_world :: "('w, 'ch, 'bm, 'd) amqp \<Rightarrow> 'ch \<Rightarrow> string \<Rightarrow> nat \<Rightarrow> 'w \<Rightarrow> 'w" where
  "poll_world am ch tag 0 w = w"
| "poll_world am ch tag (Suc n) w =
     poll_world am ch tag n (snd (am_BasicConsumeMessage am ch tag 200 w))"

text \<open>
  An instance of the parameter, for evaluation: a broker with one queue, a clock that a poll moves
  by its timeout and one nanosecond, and a shutdown at a given time.
\<close>

definition demo_amqp ::
  "int \<Rightarrow> (int \<times> plain_message list, unit, plain_message, plain_message) amqp" where
  "demo_amqp stop_time = \<lparr>
     am_Create = (\<lambda>_ w. (Inr (), w)),
     am_DeclareQueue = (\<lambda>_ _ _ _ _ _ w. (Inr (), w)),
     am_BasicPublish = (\<lambda>_ _ _ m (c, ms). (Inr (), (c, ms @ [m]))),
     am_BasicGet = (\<lambda>_ _ _ (c, ms). case ms of [] \<Rightarrow> (Inr None, (c, ms)) | m # r \<Rightarrow> (Inr (Some m), (c, r))),
     am_BasicConsume = (\<lambda>_ _ _ _ _ _ _ w. (Inr ''tag'', w)),
     am_BasicConsumeMessage = (\<lambda>_ _ t (c, ms). case ms of
         [] \<Rightarrow> (Inr None, (c + max 0 t * 1000000 + 1, ms)) | m # r \<Rightarrow> (Inr (Some m), (c, r))),
     am_BasicCancel = (\<lambda>_ _ w. (Inr (), w)),
     am_BasicAck = (\<lambda>_ _ w. (Inr (), w)),
     am_BasicReject = (\<lambda>_ _ _ w. (Inr (), w)),
     am_Message = (\<lambda>d. d),
     steady_now = fst,
     stop_seen = (\<lambda>w. stop_time \<le> fst w),
     wait_lock = (\<lambda>w. w)\<rparr>"

section \<open>Lemmas\<close>

lemma rb_wait_until_returns:
  assumes "clock_advances am"
  shows "\<exists>r w'. rb_wait_until am ch tag st deadline w = Some (r, w')"
proof (induction "nat (deadline - steady_now am w)" arbitrary: w rule: less_induct)
  case less
  show ?case
  proof (cases "rb_is_stopped am st w \<or> deadline \<le> steady_now am w")
    case True
    then show ?thesis by (subst rb_wait_until.simps) auto
  next
    case False
    let ?poll = "am_BasicConsumeMessage am ch tag (wait_ms deadline (steady_now am w)) w"
    show ?thesis
    proof (cases "fst ?poll = Inr None")
      case True
      then obtain w' where w': "?poll = (Inr None, w')" by (cases ?poll) auto
      with assms have "steady_now am w < steady_now am w'" unfolding clock_advances_def by blast
      with False have "nat (deadline - steady_now am w') < nat (deadline - steady_now am w)" by simp
      from less [OF this] show ?thesis by (subst rb_wait_until.simps) (simp add: False w')
    next
      case neq: False
      then show ?thesis
        by (subst rb_wait_until.simps) (use False in \<open>auto split: prod.splits sum.splits option.splits\<close>)
    qed
  qed
qed

lemma rb_wait_step:
  "rb_wait am ch tag st w =
     (case poll_result am ch tag st w of
        Some r \<Rightarrow> Some r
      | None \<Rightarrow> rb_wait am ch tag st (snd (am_BasicConsumeMessage am ch tag 200 w)))"
  by (subst rb_wait.simps) (auto simp: poll_result_def split: prod.splits sum.splits option.splits)

lemma rb_wait_finds:
  "(\<forall>m < n. poll_result am ch tag st (poll_world am ch tag m w) = None) \<Longrightarrow>
   poll_result am ch tag st (poll_world am ch tag n w) = Some r \<Longrightarrow>
   rb_wait am ch tag st w = Some r"
proof (induction n arbitrary: w)
  case 0
  then show ?case by (subst rb_wait_step) simp
next
  case (Suc n)
  let ?w' = "snd (am_BasicConsumeMessage am ch tag 200 w)"
  have "\<forall>m < n. poll_result am ch tag st (poll_world am ch tag m ?w') = None"
    using Suc.prems(1) by (metis Suc_less_eq poll_world.simps(2))
  moreover have "poll_result am ch tag st w = None" using Suc.prems(1) by auto
  ultimately show ?case using Suc.IH [of ?w'] Suc.prems(2) by (subst rb_wait_step) simp
qed

lemma rb_wait_found:
  "rb_wait am ch tag st w = Some r \<Longrightarrow>
   \<exists>n. (\<forall>m < n. poll_result am ch tag st (poll_world am ch tag m w) = None) \<and>
     poll_result am ch tag st (poll_world am ch tag n w) = Some r"
proof (induction rule: rb_wait.raw_induct [rotated 1, consumes 1])
  case (1 wait am ch tag st w r)
  show ?case
  proof (cases "poll_result am ch tag st w")
    case None
    let ?w' = "snd (am_BasicConsumeMessage am ch tag 200 w)"
    from None 1(2) have "wait am ch tag st ?w' = Some r"
      by (auto simp: poll_result_def split: if_splits prod.splits sum.splits option.splits)
    from 1(1) [OF this] obtain n where
      "\<forall>m < n. poll_result am ch tag st (poll_world am ch tag m ?w') = None"
      "poll_result am ch tag st (poll_world am ch tag n ?w') = Some r" by blast
    with None have "\<forall>m < Suc n. poll_result am ch tag st (poll_world am ch tag m w) = None"
      by (metis less_Suc_eq_0_disj poll_world.simps)
    with \<open>poll_result am ch tag st (poll_world am ch tag n ?w') = Some r\<close> show ?thesis
      by (intro exI [of _ "Suc n"]) simp
  next
    case (Some r')
    with 1(2) have "r' = r"
      by (auto simp: poll_result_def split: if_splits prod.splits sum.splits option.splits)
    with Some show ?thesis by (intro exI [of _ 0]) simp
  qed
qed

lemma wait_ms_bounds:
  assumes "now < deadline"
  shows "0 \<le> wait_ms deadline now \<and> wait_ms deadline now \<le> 200 \<and>
    wait_ms deadline now * 1000000 \<le> deadline - now"
proof -
  have "(deadline - now) div 1000000 * 1000000 \<le> deadline - now"
    using div_mult_mod_eq [of "deadline - now" 1000000] pos_mod_sign [of 1000000 "deadline - now"] by linarith
  moreover have "0 \<le> (deadline - now) div 1000000" using assms by (simp add: pos_imp_zdiv_nonneg_iff)
  ultimately show ?thesis by (auto simp: wait_ms_def min_def)
qed

lemma rb_consume_returns:
  assumes "clock_advances am" and "recv_timeout args = Some ms"
  shows "\<exists>r w'. rb_consume am st ch n args w = Some (r, w')"
proof (cases "am_BasicConsume am ch n [] True (ack_mode args = AckAuto) False 1 w")
  case (Pair r w')
  show ?thesis
  proof (cases r)
    case (Inl x)
    then show ?thesis using Pair by (simp add: rb_consume_def)
  next
    case (Inr tag)
    from rb_wait_until_returns [OF assms(1), of ch tag st "steady_now am w' + ms * 1000000" w']
    obtain q w'' where
      "rb_wait_until am ch tag st (steady_now am w' + ms * 1000000) w' = Some (q, w'')" by blast
    then show ?thesis
      using Pair by (cases q) (simp_all add: rb_consume_def Inr assms(2))
  qed
qed

lemma rb_complete_completed:
  "ack_completed (rb_acks t ! i) \<Longrightarrow>
   rb_complete call what i t = (internal ''message already acked/nacked'', t)"
  by (simp add: rb_complete_def)

lemma rb_complete_success:
  assumes "rb_complete call what i t = (success, t')" and "i < length (rb_acks t)"
  shows "ack_completed (rb_acks t' ! i)"
  using assms
  by (auto simp: rb_complete_def Let_def status_defs split: if_splits prod.splits sum.splits)

lemma rb_complete_failure:
  assumes "rb_complete call what i t = (s, t')" and "\<not> ok s"
  shows "rb_acks t' = rb_acks t"
  using assms
  by (auto simp: rb_complete_def Let_def split: if_splits prod.splits sum.splits)

section \<open>Properties\<close>

text \<open>
  C30: what a RabbitMQ send reports. It reports success exactly when the address is not empty, no
  confirmation was asked for, the transport is up before and after taking the lock, and the
  channel could be opened (or was open), the queue declared and the converted message published to
  the default exchange under the queue's name. Otherwise the status is an invalid argument, an
  unsupported operation or an unavailable transport, whatever the library throws.
\<close>

theorem rb_send_reports:
  "let (s, t') = rb_send am bapi dest e args t in
     (ok s \<longleftrightarrow>
       addr_name dest \<noteq> [] \<and> \<not> confirm args \<and>
       (\<exists>st ch w1 w2. rb_ptr t = Some st \<and> \<not> rb_is_stopped am st (rb_world t) \<and>
          \<not> rb_is_stopped am st (wait_lock am (rb_world t)) \<and>
          (case rb_send_ch st of
             Some c \<Rightarrow> ch = c \<and> w1 = wait_lock am (rb_world t)
           | None \<Rightarrow> am_Create am (rb_opts st) (wait_lock am (rb_world t)) = (Inr ch, w1)) \<and>
          am_DeclareQueue am ch (addr_name dest) False False False False w1 = (Inr (), w2) \<and>
          am_BasicPublish am ch [] (addr_name dest) (toBasicMessage bapi e) w2 = (Inr (), rb_world t'))) \<and>
     code s \<in> {Ok, InvalidArgument, Unsupported, Unavailable} \<and> rb_acks t' = rb_acks t"
  unfolding rb_send_def openChannel_def Let_def
  by (auto split: if_splits option.splits prod.splits sum.splits)

text \<open>
  A message received for manual acknowledgement is completed at most once. Once an ack or nack
  has succeeded, every further ack or nack of the message reports an internal error and does not
  reach the broker; a failed one leaves the message open, so that it can be tried again.
\<close>

theorem rb_acknowledged_once:
  assumes "makeMessageFromDelivery am bapi ch d AckManual t0 = (m, t)"
    and "f = ack m \<or> (\<exists>b. f = nack m b)" and "g = ack m \<or> (\<exists>b. g = nack m b)"
    and "f t = (s, t')"
  shows "if ok s then g t' = (internal ''message already acked/nacked'', t')
    else rb_acks t' = rb_acks t"
proof -
  let ?i = "length (rb_acks t0)"
  from assms(1) have m: "ack m = rb_ack am ?i" "nack m = rb_nack am ?i" "?i < length (rb_acks t)"
    by (auto simp: makeMessageFromDelivery_def Let_def)
  obtain call what where f: "f = rb_complete call what ?i"
    using assms(2) m(1,2) by (auto simp: rb_ack_def rb_nack_def)
  obtain call' what' where g: "g = rb_complete call' what' ?i"
    using assms(3) m(1,2) by (auto simp: rb_ack_def rb_nack_def)
  have "ok s \<Longrightarrow> s = success"
    using assms(4) by (auto simp: f rb_complete_def Let_def split: if_splits prod.splits sum.splits)
  with assms(4) show ?thesis
    using rb_complete_success [of call what ?i t t'] rb_complete_failure [of call what ?i t s t'] m(3)
    by (auto simp: f g rb_complete_completed)
qed

theorem rb_acknowledged_once_witness:
  "\<exists>m t t'. makeMessageFromDelivery (demo_amqp 9) plain_api () (toBasicMessage plain_api empty_envelope)
      AckManual (createTransport_RabbitMq RabbitMqSimple_default (0, [])) = (m, t) \<and>
     ack m t = (success, t') \<and> nack m True t' = (internal ''message already acked/nacked'', t')"
proof -
  let ?am = "demo_amqp 9"
  obtain m t where m: "makeMessageFromDelivery ?am plain_api () (toBasicMessage plain_api empty_envelope)
      AckManual (createTransport_RabbitMq RabbitMqSimple_default (0, [])) = (m, t)"
    by (metis prod.exhaust)
  obtain t' where a: "ack m t = (success, t')"
    using m by (auto simp: makeMessageFromDelivery_def Let_def createTransport_RabbitMq_def rb_ack_def
        rb_complete_def demo_amqp_def)
  from rb_acknowledged_once [where f = "ack m" and g = "nack m True", OF m _ _ a] m a
  show ?thesis by auto
qed

text \<open>
  C27: a receive with a timeout comes back. If time passes during every empty poll of the library,
  the call returns, whatever else the broker does, with a message or with a status that is an
  invalid argument, a timeout or an unavailable transport.
\<close>

theorem rb_timed_receive_returns:
  assumes "clock_advances am" and "recv_timeout args = Some ms"
  shows "\<exists>r t'. rb_receive am bapi src args t = Some (r, t') \<and>
    (case r of Inl s \<Rightarrow> code s \<in> {InvalidArgument, Timeout, Unavailable} | Inr m \<Rightarrow> True)"
proof -
  have consume: "rb_consume am st ch n args w \<noteq> None" for st ch n w
    using rb_consume_returns [OF assms, of st ch n w] by auto
  show ?thesis
    unfolding rb_receive_def Let_def
    by (auto simp: consume split: option.splits prod.splits sum.splits wait_result.splits)
qed

theorem rb_timed_receive_returns_witness:
  "clock_advances (demo_amqp 100) \<and>
   (\<exists>r t'. rb_receive (demo_amqp 100) plain_api \<lparr>addr_name = ''q''\<rparr>
      \<lparr>recv_timeout = Some 500, ack_mode = AckAuto\<rparr>
      (createTransport_RabbitMq RabbitMqSimple_default (0, [])) = Some (r, t'))"
proof -
  have c: "clock_advances (demo_amqp 100)"
    by (auto simp: clock_advances_def demo_amqp_def split: list.splits)
  from rb_timed_receive_returns [OF c, of "\<lparr>recv_timeout = Some 500, ack_mode = AckAuto\<rparr>" 500]
  show ?thesis using c by fastforce
qed

text \<open>
  When the wait without a timeout ends. It returns exactly the outcome of the first round that
  has one (a message, an exception, or the shutdown seen before the round), and it does not return
  exactly when no round ever has one. In particular a shutdown is noticed by the next round, at
  most one 200 ms poll later.
\<close>

theorem rb_wait_first_outcome:
  "rb_wait am ch tag st w = Some r \<longleftrightarrow>
   (\<exists>n. list_all (\<lambda>m. poll_result am ch tag st (poll_world am ch tag m w) = None) [0..<n] \<and>
      poll_result am ch tag st (poll_world am ch tag n w) = Some r)"
proof -
  have all: "list_all P [0..<n] \<longleftrightarrow> (\<forall>m < n. P m)" for P n by (auto simp: list_all_iff)
  show ?thesis
    unfolding all by (blast intro: rb_wait_finds dest: rb_wait_found)
qed

text \<open>
  The poll of a timed wait is bounded. Before the deadline the timeout passed to the library is
  never negative (which would mean waiting forever), never more than 200 ms, and never reaches
  beyond the deadline.
\<close>

theorem rb_poll_bounded:
  assumes "now < deadline"
  shows "0 \<le> wait_ms deadline now \<and> wait_ms deadline now \<le> 200 \<and>
    wait_ms deadline now * 1000000 \<le> deadline - now"
  using assms by (rule wait_ms_bounds)

theorem rb_poll_bounded_witness:
  "(0 :: int) < 1500000 \<and> wait_ms 1500000 0 = 1 \<and> wait_ms 1500000 0 * 1000000 \<le> 1500000 - 0"
  using rb_poll_bounded [of 0 1500000] by (simp add: wait_ms_def)

end
