(* ===== verification/Codec.thy ===== *)
theory Codec
  imports Message
begin

text \<open>
  The codecs of protobuf messages (\<^verbatim>\<open>include/mqss/protocol/ProtoCodec.hpp\<close>). The generated and
  library functions they call are parameters: \<open>ser\<close> stands for \<^verbatim>\<open>SerializeToString\<close> or
  \<^verbatim>\<open>MessageToJsonString\<close> (\<^term>\<open>None\<close>: reported failure), \<open>par\<close> for \<^verbatim>\<open>ParseFromString\<close> or
  \<^verbatim>\<open>JsonStringToMessage\<close>. The locale \<open>codec\<close> is what a messenger relies on.
\<close>

definition ProtoBinary_encode :: "('m \<Rightarrow> string option) \<Rightarrow> 'm \<Rightarrow> Envelope Result" where
  "ProtoBinary_encode ser msg =
     (case ser msg of
        None \<Rightarrow> Inl (serialization ''protobuf binary serialization failed'')
      | Some p \<Rightarrow> Inr (empty_envelope\<lparr>payload := p, content_type := ''application/x-protobuf''\<rparr>))"

definition ProtoBinary_decode :: "(string \<Rightarrow> 'm option) \<Rightarrow> Envelope \<Rightarrow> 'm Result" where
  "ProtoBinary_decode par e =
     (case par (payload e) of
        None \<Rightarrow> Inl (serialization ''protobuf binary parse failed'')
      | Some msg \<Rightarrow> Inr msg)"

definition ProtoJson_encode :: "('m \<Rightarrow> string option) \<Rightarrow> 'm \<Rightarrow> Envelope Result" where
  "ProtoJson_encode ser msg =
     (case ser msg of
        None \<Rightarrow> Inl (serialization ''protobuf JSON serialization failed'')
      | Some json \<Rightarrow> Inr (empty_envelope\<lparr>payload := json, content_type := ''application/json''\<rparr>))"

definition ProtoJson_decode :: "(string \<Rightarrow> 'm option) \<Rightarrow> Envelope \<Rightarrow> 'm Result" where
  "ProtoJson_decode par e =
     (case par (payload e) of
        None \<Rightarrow> Inl (serialization ''protobuf JSON parse failed'')
      | Some msg \<Rightarrow> Inr msg)"

text \<open>
  What the protobuf library documents of the two functions, for one message: it is serializable,
  and parsing what was serialized gives the message back.
\<close>

definition wire_faithful :: "('m \<Rightarrow> string option) \<Rightarrow> (string \<Rightarrow> 'm option) \<Rightarrow> 'm \<Rightarrow> bool" where
  "wire_faithful ser par msg \<longleftrightarrow> (case ser msg of None \<Rightarrow> False | Some p \<Rightarrow> par p = Some msg)"

locale codec =
  fixes encode :: "'m \<Rightarrow> Envelope Result"
    and decode :: "Envelope \<Rightarrow> 'm Result"
    and faithful :: "'m \<Rightarrow> bool"
  assumes encode_faithful: "faithful m \<Longrightarrow> \<exists>e. encode m = Inr e \<and> decode e = Inr m"
    and encode_error: "encode m = Inl s \<Longrightarrow> code s = Serialization"
    and decode_error: "decode e = Inl s \<Longrightarrow> code s = Serialization"
begin

lemma decode_encode: "faithful m \<Longrightarrow> encode m = Inr e \<Longrightarrow> decode e = Inr m"
  using encode_faithful [of m] by auto

lemma encode_inject:
  "faithful m \<Longrightarrow> faithful m' \<Longrightarrow> encode m = encode m' \<Longrightarrow> m = m'"
  by (metis encode_faithful decode_encode sum.inject(2))

end

interpretation binary: codec "ProtoBinary_encode ser" "ProtoBinary_decode par" "wire_faithful ser par"
  for ser par
  by unfold_locales
    (auto simp: ProtoBinary_encode_def ProtoBinary_decode_def wire_faithful_def split: option.splits)

interpretation json: codec "ProtoJson_encode ser" "ProtoJson_decode par" "wire_faithful ser par"
  for ser par
  by unfold_locales
    (auto simp: ProtoJson_encode_def ProtoJson_decode_def wire_faithful_def split: option.splits)

end
