(* ===== verification/InMemory_Transport.thy ===== *)
theory InMemory_Transport
  imports Transport
begin

text \<open>
  The in-memory backend (\<^verbatim>\<open>src/transport/InMemoryTransport.cpp\<close>): the shared state behind the
  mutex, \<^verbatim>\<open>send()\<close>, \<^verbatim>\<open>receive()\<close> and \<^verbatim>\<open>shutdown()\<close>, first as operations of one thread (with
  the effect of the other threads during a wait as a parameter), then as a step relation of any
  number of threads that share the state, the mutex-protected sections being the steps.
\<close>

record im_state =
  stopped :: bool
  queues :: "(string, Envelope list) umap"

record InMemoryTransport =
  state_ptr :: "im_state option"

definition im_initial :: im_state where
  "im_initial = \<lparr>stopped = False, queues = []\<rparr>"

definition createTransport_InMemory :: InMemoryTransport where
  "createTransport_InMemory = \<lparr>state_ptr = Some im_initial\<rparr>"

definition im_features :: FeatureSet where
  "im_features = FeatureSet_of []"

text \<open>\<^verbatim>\<open>state->queues[dest.name].push_back(envelope)\<close>\<close>

definition im_enqueue :: "string \<Rightarrow> Envelope \<Rightarrow> im_state \<Rightarrow> im_state" where
  "im_enqueue n e st = st\<lparr>queues := um_insert_or_assign n
     ((case um_find (queues st) n of None \<Rightarrow> [] | Some q \<Rightarrow> q) @ [e]) (queues st)\<rparr>"

definition im_send :: "InMemoryTransport send_op" where
  "im_send dest e args t =
     (if addr_name dest = [] then (invalidArgument ''send destination name is empty'', t)
      else if confirm args then (unsupported ''send confirmation is not supported'', t)
      else case state_ptr t of
          None \<Rightarrow> (unavailable ''transport not initialized'', t)
        | Some st \<Rightarrow>
            if stopped st then (unavailable ''transport shut down'', t)
            else (success, t\<lparr>state_ptr := Some (im_enqueue (addr_name dest) e st)\<rparr>))"

definition im_ready :: "im_state \<Rightarrow> string \<Rightarrow> bool" where
  "im_ready st n \<longleftrightarrow> stopped st \<or> (case um_find (queues st) n of None \<Rightarrow> False | Some q \<Rightarrow> q \<noteq> [])"

definition makeMessageFromEnvelope :: "Envelope \<Rightarrow> InMemoryTransport Message" where
  "makeMessageFromEnvelope e = \<lparr>envelope = e, ack_impl = None, nack_impl = None\<rparr>"

text \<open>The part of \<^verbatim>\<open>receive()\<close> after the wait, run with the mutex held.\<close>

definition im_finish ::
  "im_state \<Rightarrow> string \<Rightarrow> bool \<Rightarrow> InMemoryTransport Message Result \<times> im_state" where
  "im_finish st n waited_with_timeout =
     (if stopped st then (Inl (unavailable ''transport shut down''), st)
      else case um_find (queues st) n of
          None \<Rightarrow> (Inl (if waited_with_timeout then timeout ''receive timed out''
                         else timeout ''no message received''), st)
        | Some [] \<Rightarrow> (Inl (if waited_with_timeout then timeout ''receive timed out''
                           else timeout ''no message received''), st)
        | Some (e # es) \<Rightarrow>
            (Inr (makeMessageFromEnvelope e),
             st\<lparr>queues := (let qs = um_insert_or_assign n es (queues st)
                           in if es = [] then um_erase n qs else qs)\<rparr>))"

text \<open>
  \<^verbatim>\<open>receive()\<close>. \<open>others st\<close> is the shared state when the wait on the condition variable ends;
  the unbounded wait ends only in a ready state, and \<^term>\<open>None\<close> is the wait that does not end.
\<close>

definition im_receive :: "(im_state \<Rightarrow> im_state) \<Rightarrow> InMemoryTransport receive_op" where
  "im_receive others src args t =
     (if addr_name src = [] then Some (Inl (invalidArgument ''receive source name is empty''), t)
      else case state_ptr t of
          None \<Rightarrow> Some (Inl (unavailable ''transport not initialized''), t)
        | Some st \<Rightarrow>
            (let n = addr_name src;
                 done = (\<lambda>(r, st'). Some (r, t\<lparr>state_ptr := Some st'\<rparr>))
             in if im_ready st n then done (im_finish st n False)
                else case recv_timeout args of
                    Some d \<Rightarrow>
                      if d = 0 then Some (Inl (timeout ''no message received''), t)
                      else done (im_finish (others st) n True)
                  | None \<Rightarrow>
                      if im_ready (others st) n then done (im_finish (others st) n False) else None))"

definition im_shutdown :: "InMemoryTransport \<Rightarrow> InMemoryTransport" where
  "im_shutdown t = (case state_ptr t of
       None \<Rightarrow> t
     | Some st \<Rightarrow> if stopped st then t else t\<lparr>state_ptr := Some (st\<lparr>stopped := True\<rparr>)\<rparr>)"

text \<open>The abstract view: a FIFO queue per address, and whether the transport is in service.\<close>

definition im_q :: "im_state \<Rightarrow> string \<Rightarrow> Envelope list" where
  "im_q st n = (case um_find (queues st) n of None \<Rightarrow> [] | Some q \<Rightarrow> q)"

definition im_queue :: "InMemoryTransport \<Rightarrow> string \<Rightarrow> Envelope list" where
  "im_queue t n = (case state_ptr t of None \<Rightarrow> [] | Some st \<Rightarrow> im_q st n)"

definition im_live :: "InMemoryTransport \<Rightarrow> bool" where
  "im_live t = (case state_ptr t of None \<Rightarrow> False | Some st \<Rightarrow> \<not> stopped st)"

text \<open>No empty queue is kept in the table: \<^verbatim>\<open>receive()\<close> erases the entry it empties.\<close>

definition im_wf :: "im_state \<Rightarrow> bool" where
  "im_wf st \<longleftrightarrow> um_wf (queues st) \<and> (\<forall>n. um_find (queues st) n \<noteq> Some [])"

section \<open>Threads sharing one transport\<close>

datatype pc =
    Idle
  | Notifying
  | Blocked string bool
  | Woken string bool

record im_sys =
  shared :: im_state
  pcs :: "nat \<Rightarrow> pc"
  sent :: "string \<Rightarrow> Envelope list"
  received :: "string \<Rightarrow> Envelope list"
  failures :: "Status list"

definition im_sys_initial :: im_sys where
  "im_sys_initial = \<lparr>shared = im_initial, pcs = (\<lambda>_. Idle), sent = (\<lambda>_. []),
     received = (\<lambda>_. []), failures = []\<rparr>"

fun wake_up :: "pc \<Rightarrow> pc" where
  "wake_up (Blocked n w) = Woken n w"
| "wake_up p = p"

definition deliver :: "im_sys \<Rightarrow> nat \<Rightarrow> string \<Rightarrow> bool \<Rightarrow> im_sys" where
  "deliver s t n w =
     (case im_finish (shared s) n w of
        (Inr m, st') \<Rightarrow> s\<lparr>shared := st', pcs := (pcs s)(t := Idle),
            received := (received s)(n := received s n @ [envelope m])\<rparr>
      | (Inl e, st') \<Rightarrow> s\<lparr>shared := st', pcs := (pcs s)(t := Idle), failures := e # failures s\<rparr>)"

text \<open>
  \<^verbatim>\<open>send()\<close> and \<^verbatim>\<open>shutdown()\<close> release the mutex before \<^verbatim>\<open>notify_all()\<close>, so the notification is
  a step of its own. A blocked receiver may also wake up spuriously, or because its time is over.
\<close>

inductive im_step :: "im_sys \<Rightarrow> im_sys \<Rightarrow> bool" where
  send: "pcs s t = Idle \<Longrightarrow> n \<noteq> [] \<Longrightarrow> \<not> stopped (shared s) \<Longrightarrow>
    im_step s (s\<lparr>shared := im_enqueue n e (shared s), pcs := (pcs s)(t := Notifying),
      sent := (sent s)(n := sent s n @ [e])\<rparr>)"
| stop: "pcs s t = Idle \<Longrightarrow> \<not> stopped (shared s) \<Longrightarrow>
    im_step s (s\<lparr>shared := (shared s)\<lparr>stopped := True\<rparr>, pcs := (pcs s)(t := Notifying)\<rparr>)"
| notify_all: "pcs s t = Notifying \<Longrightarrow>
    im_step s (s\<lparr>pcs := (\<lambda>u. wake_up (pcs s u))(t := Idle)\<rparr>)"
| receive_now: "pcs s t = Idle \<Longrightarrow> n \<noteq> [] \<Longrightarrow> im_ready (shared s) n \<Longrightarrow>
    im_step s (deliver s t n False)"
| receive_wait: "pcs s t = Idle \<Longrightarrow> n \<noteq> [] \<Longrightarrow> \<not> im_ready (shared s) n \<Longrightarrow>
    im_step s (s\<lparr>pcs := (pcs s)(t := Blocked n timed)\<rparr>)"
| spurious: "pcs s t = Blocked n w \<Longrightarrow> im_step s (s\<lparr>pcs := (pcs s)(t := Woken n w)\<rparr>)"
| wake_ready: "pcs s t = Woken n w \<Longrightarrow> im_ready (shared s) n \<Longrightarrow> im_step s (deliver s t n w)"
| wake_again: "pcs s t = Woken n w \<Longrightarrow> \<not> im_ready (shared s) n \<Longrightarrow>
    im_step s (s\<lparr>pcs := (pcs s)(t := Blocked n w)\<rparr>)"
| expire: "pcs s t \<in> {Blocked n True, Woken n True} \<Longrightarrow> im_step s (deliver s t n True)"

inductive im_reachable :: "im_sys \<Rightarrow> bool" where
  init: "im_reachable im_sys_initial"
| step: "im_reachable s \<Longrightarrow> im_step s s' \<Longrightarrow> im_reachable s'"

inductive_cases im_stepE: "im_step s s'"

definition conserved :: "im_sys \<Rightarrow> bool" where
  "conserved s \<longleftrightarrow> (\<forall>n. sent s n = received s n @ im_q (shared s) n)"

definition no_lost_wakeup :: "im_sys \<Rightarrow> bool" where
  "no_lost_wakeup s \<longleftrightarrow>
     (\<forall>t n w. pcs s t = Blocked n w \<and> im_ready (shared s) n \<longrightarrow> (\<exists>u. pcs s u = Notifying))"

section \<open>Lemmas on one operation\<close>

lemma im_q_enqueue: "im_q (im_enqueue n e st) = (im_q st)(n := im_q st n @ [e])"
  by (auto simp: im_q_def im_enqueue_def um_laws fun_eq_iff)

lemma stopped_enqueue [simp]: "stopped (im_enqueue n e st) = stopped st"
  by (simp add: im_enqueue_def)

lemma im_ready_iff: "im_ready st n \<longleftrightarrow> stopped st \<or> im_q st n \<noteq> []"
  by (auto simp: im_ready_def im_q_def split: option.splits)

text \<open>\<open>im_finish\<close> in terms of the abstract queue: three outcomes.\<close>

lemma im_finish_stopped:
  "stopped st \<Longrightarrow> im_finish st n w = (Inl (unavailable ''transport shut down''), st)"
  by (simp add: im_finish_def)

lemma im_finish_empty:
  "\<not> stopped st \<Longrightarrow> im_q st n = [] \<Longrightarrow>
   im_finish st n w =
     (Inl (timeout (if w then ''receive timed out'' else ''no message received'')), st)"
  by (auto simp: im_finish_def im_q_def split: option.splits)

lemma im_finish_front:
  assumes "\<not> stopped st" and "im_q st n = e # es"
  shows "\<exists>st'. im_finish st n w = (Inr (makeMessageFromEnvelope e), st') \<and>
    \<not> stopped st' \<and> im_q st' = (im_q st)(n := es)"
  using assms
  by (auto simp: im_finish_def im_q_def um_laws fun_eq_iff Let_def split: option.splits)

lemma im_finish_cases:
  obtains (down) "stopped st" "im_finish st n w = (Inl (unavailable ''transport shut down''), st)"
  | (empty) r where "\<not> stopped st" "im_q st n = []" "im_finish st n w = (Inl (timeout r), st)"
  | (front) e es st' where "\<not> stopped st" "im_q st n = e # es"
      "im_finish st n w = (Inr (makeMessageFromEnvelope e), st')" "\<not> stopped st'"
      "im_q st' = (im_q st)(n := es)"
  using im_finish_stopped im_finish_empty im_finish_front
  by (metis list.exhaust)

lemma envelope_makeMessage [simp]: "envelope (makeMessageFromEnvelope e) = e"
  by (simp add: makeMessageFromEnvelope_def)

lemma ack_makeMessage [simp]:
  "ack (makeMessageFromEnvelope e) t = (unsupported ''ack not supported'', t)"
  "nack (makeMessageFromEnvelope e) b t = (unsupported ''nack not supported'', t)"
  by (simp_all add: ack_def nack_def makeMessageFromEnvelope_def)

section \<open>The backend implements the FIFO contract\<close>

interpretation im: fifo_transport im_features im_send "im_receive others" im_queue im_live
  for others
proof (unfold_locales, goal_cases)
  case (4 d a s e)
  then show ?case
    by (auto simp: im_send_def im_live_def im_queue_def im_q_enqueue fun_eq_iff split: option.splits)
next
  case (6 d s e es ra)
  then obtain st where st: "state_ptr s = Some st" "\<not> stopped st" "im_q st (addr_name d) = e # es"
    by (auto simp: im_live_def im_queue_def split: option.splits)
  from im_finish_front [OF st(2,3)] obtain st' where
    "im_finish st (addr_name d) False = (Inr (makeMessageFromEnvelope e), st')"
    "\<not> stopped st'" "im_q st' = (im_q st)(addr_name d := es)" by blast
  with 6 st show ?case
    by (auto simp: im_receive_def im_ready_iff im_live_def im_queue_def fun_eq_iff)
qed (auto simp: im_send_def im_receive_def im_live_def im_queue_def im_ready_iff im_finish_stopped
    split: option.splits)

section \<open>Invariants of the threads\<close>

lemma deliver_conserved: "conserved s \<Longrightarrow> conserved (deliver s t n w)"
  by (rule im_finish_cases [where st = "shared s" and n = n and w = w]) (auto simp: deliver_def conserved_def)

lemma deliver_ready: "im_ready (shared (deliver s t n w)) m \<Longrightarrow> im_ready (shared s) m"
  by (rule im_finish_cases [where st = "shared s" and n = n and w = w])
    (auto simp: deliver_def im_ready_iff split: if_splits)

lemma pcs_deliver [simp]: "pcs (deliver s t n w) = (pcs s)(t := Idle)"
  by (rule im_finish_cases [where st = "shared s" and n = n and w = w]) (auto simp: deliver_def)

lemma wake_up_simps [simp]:
  "wake_up p \<noteq> Blocked n w" "wake_up p = Notifying \<longleftrightarrow> p = Notifying" "wake_up p = Idle \<longleftrightarrow> p = Idle"
  by (cases p; simp)+

lemma im_step_conserved: "im_step s s' \<Longrightarrow> conserved s \<Longrightarrow> conserved s'"
proof (induction rule: im_step.induct)
  case (send s t n e)
  then show ?case by (simp add: conserved_def im_q_enqueue)
next
  case (stop s t)
  have "im_q (shared s\<lparr>stopped := True\<rparr>) = im_q (shared s)" by (simp add: im_q_def fun_eq_iff)
  with stop show ?case by (simp add: conserved_def)
qed (auto simp: deliver_conserved, auto simp: conserved_def)

text \<open>A step of a thread that is not notifying keeps every pending notification.\<close>

lemma no_lost_wakeup_frame:
  assumes "no_lost_wakeup s" and "pcs s t \<noteq> Notifying" and "pcs s' = (pcs s)(t := p)"
    and "\<And>m. im_ready (shared s') m \<Longrightarrow> im_ready (shared s) m"
    and "\<And>n w. p = Blocked n w \<Longrightarrow> \<not> im_ready (shared s') n"
  shows "no_lost_wakeup s'"
  unfolding no_lost_wakeup_def
proof (intro allI impI, elim conjE)
  fix u n w
  assume u: "pcs s' u = Blocked n w" "im_ready (shared s') n"
  then have "u \<noteq> t" using assms(3,5) by auto
  then have "pcs s u = Blocked n w" using u(1) assms(3) by simp
  then obtain v where "pcs s v = Notifying"
    using assms(1,4) u(2) unfolding no_lost_wakeup_def by blast
  then show "\<exists>v. pcs s' v = Notifying" using assms(2,3) by (metis fun_upd_other)
qed

lemma im_step_no_lost_wakeup: "im_step s s' \<Longrightarrow> no_lost_wakeup s \<Longrightarrow> no_lost_wakeup s'"
proof (induction rule: im_step.induct)
  case (send s t n e)
  show ?case unfolding no_lost_wakeup_def by (auto intro: exI [of _ t])
next
  case (stop s t)
  show ?case unfolding no_lost_wakeup_def by (auto intro: exI [of _ t])
next
  case (notify_all s t)
  show ?case unfolding no_lost_wakeup_def by auto
next
  case (receive_now s t n)
  then show ?case by (auto intro!: no_lost_wakeup_frame [of s t _ Idle] dest: deliver_ready)
next
  case (receive_wait s t n timed)
  then show ?case by (auto intro!: no_lost_wakeup_frame [of s t _ "Blocked n timed"])
next
  case (spurious s t n w)
  then show ?case by (auto intro!: no_lost_wakeup_frame [of s t _ "Woken n w"])
next
  case (wake_ready s t n w)
  then show ?case by (auto intro!: no_lost_wakeup_frame [of s t _ Idle] dest: deliver_ready)
next
  case (wake_again s t n w)
  then show ?case by (auto intro!: no_lost_wakeup_frame [of s t _ "Blocked n w"])
next
  case (expire s t n)
  then show ?case by (auto intro!: no_lost_wakeup_frame [of s t _ Idle] dest: deliver_ready)
qed

lemma im_wf_enqueue: "im_wf st \<Longrightarrow> im_wf (im_enqueue n e st)"
  by (auto simp: im_wf_def im_enqueue_def um_laws)

lemma im_wf_finish: "im_wf st \<Longrightarrow> im_wf (snd (im_finish st n w))"
  by (auto simp: im_wf_def im_finish_def um_laws Let_def split: option.splits list.splits)

lemma im_wf_deliver: "im_wf (shared s) \<Longrightarrow> im_wf (shared (deliver s t n w))"
  using im_wf_finish [of "shared s" n w]
  by (auto simp: deliver_def split: prod.splits sum.splits)

lemma im_step_wf: "im_step s s' \<Longrightarrow> im_wf (shared s) \<Longrightarrow> im_wf (shared s')"
  by (induction rule: im_step.induct) (auto simp: im_wf_enqueue im_wf_deliver, auto simp: im_wf_def)

lemma im_reachable_inv:
  "im_reachable s \<Longrightarrow> conserved s \<and> no_lost_wakeup s \<and> im_wf (shared s)"
proof (induction rule: im_reachable.induct)
  case init
  show ?case
    by (simp add: conserved_def no_lost_wakeup_def im_wf_def im_sys_initial_def im_initial_def
        im_q_def um_laws)
next
  case (step s s')
  then show ?case by (blast intro: im_step_conserved im_step_no_lost_wakeup im_step_wf)
qed

text \<open>Two short runs, used to show that the hypotheses of the properties can hold.\<close>

lemma im_run_send_receive:
  "\<exists>s. im_reachable s \<and> received s ''q'' = [empty_envelope]"
proof -
  let ?s1 = "im_sys_initial\<lparr>shared := im_enqueue ''q'' empty_envelope im_initial,
    pcs := (pcs im_sys_initial)(0 := Notifying),
    sent := (sent im_sys_initial)(''q'' := sent im_sys_initial ''q'' @ [empty_envelope])\<rparr>"
  have "im_step im_sys_initial ?s1"
    using im_step.send [of im_sys_initial 0 "''q''" empty_envelope]
    by (simp add: im_sys_initial_def im_initial_def)
  then have r1: "im_reachable ?s1" by (rule im_reachable.step [OF im_reachable.init])
  have q1: "im_q (shared ?s1) ''q'' = [empty_envelope]" "\<not> stopped (shared ?s1)"
    by (simp_all add: im_q_enqueue) (simp_all add: im_initial_def im_q_def um_laws)
  have "im_step ?s1 (deliver ?s1 1 ''q'' False)"
    using q1 by (intro im_step.receive_now) (simp_all add: im_ready_iff im_sys_initial_def)
  then have "im_reachable (deliver ?s1 1 ''q'' False)" by (rule im_reachable.step [OF r1])
  moreover have "received (deliver ?s1 1 ''q'' False) ''q'' = [empty_envelope]"
    using im_finish_front [OF q1(2,1), of False] by (auto simp: deliver_def im_sys_initial_def)
  ultimately show ?thesis by blast
qed

lemma im_run_blocked_stop:
  "\<exists>s. im_reachable s \<and> stopped (shared s) \<and> pcs s 0 = Blocked ''q'' False"
proof -
  let ?s1 = "im_sys_initial\<lparr>pcs := (pcs im_sys_initial)(0 := Blocked ''q'' False)\<rparr>"
  let ?s2 = "?s1\<lparr>shared := (shared ?s1)\<lparr>stopped := True\<rparr>, pcs := (pcs ?s1)(1 := Notifying)\<rparr>"
  have "im_step im_sys_initial ?s1"
    by (rule im_step.receive_wait)
      (simp_all add: im_sys_initial_def im_initial_def im_ready_def um_laws)
  then have r1: "im_reachable ?s1" by (rule im_reachable.step [OF im_reachable.init])
  have "im_step ?s1 ?s2" by (rule im_step.stop) (simp_all add: im_sys_initial_def im_initial_def)
  then have "im_reachable ?s2" by (rule im_reachable.step [OF r1])
  then show ?thesis by (intro exI [of _ ?s2]) simp
qed

section \<open>Properties\<close>

text \<open>
  C9: FIFO and exactly-once delivery. However many threads send, receive, time out, wake up and
  shut the transport down, the envelopes received from an address are, in order, a prefix of the
  envelopes sent to it, and the rest is what the queue of that address holds: nothing is lost,
  duplicated or reordered.
\<close>

theorem im_fifo_exactly_once:
  assumes "im_reachable s"
  shows "sent s n = received s n @ im_q (shared s) n"
  using im_reachable_inv [OF assms] by (simp add: conserved_def)

theorem im_fifo_exactly_once_witness:
  "\<exists>s. im_reachable s \<and> received s ''q'' = [empty_envelope] \<and>
     sent s ''q'' = received s ''q'' @ im_q (shared s) ''q''"
  using im_run_send_receive im_fifo_exactly_once by blast

text \<open>
  C23: shutdown unblocks every waiting receiver, and no wake-up is lost. Once the transport is
  stopped, for every receiver blocked on the condition variable some thread is still about to
  notify, and its notification wakes that receiver; a woken receiver ends its call with an
  unavailable status and leaves the queues alone.
\<close>

theorem im_shutdown_unblocks:
  assumes "im_reachable s" and "stopped (shared s)"
  shows "(pcs s t = Blocked n w \<longrightarrow>
            (\<exists>u s'. pcs s u = Notifying \<and> im_step s s' \<and> pcs s' t = Woken n w)) \<and>
         (pcs s t = Woken n w \<longrightarrow>
            im_step s (deliver s t n w) \<and> pcs (deliver s t n w) t = Idle \<and>
            failures (deliver s t n w) = unavailable ''transport shut down'' # failures s \<and>
            shared (deliver s t n w) = shared s)"
proof (intro conjI impI)
  assume t: "pcs s t = Blocked n w"
  then obtain u where u: "pcs s u = Notifying"
    using im_reachable_inv [OF assms(1)] assms(2)
    unfolding no_lost_wakeup_def im_ready_iff by blast
  let ?s' = "s\<lparr>pcs := (\<lambda>u. wake_up (pcs s u))(u := Idle)\<rparr>"
  have "im_step s ?s'" using u by (rule im_step.notify_all)
  moreover have "pcs ?s' t = Woken n w" using t u by auto
  ultimately show "\<exists>u s'. pcs s u = Notifying \<and> im_step s s' \<and> pcs s' t = Woken n w"
    using u by blast
next
  assume "pcs s t = Woken n w"
  then show "im_step s (deliver s t n w)"
    using assms(2) by (intro im_step.wake_ready) (simp_all add: im_ready_iff)
qed (use assms(2) in \<open>auto simp: deliver_def im_finish_stopped\<close>)

theorem im_shutdown_unblocks_witness:
  "\<exists>s u s'. im_reachable s \<and> stopped (shared s) \<and> pcs s 0 = Blocked ''q'' False \<and>
     pcs s u = Notifying \<and> im_step s s' \<and> pcs s' 0 = Woken ''q'' False"
  using im_run_blocked_stop im_shutdown_unblocks by blast

text \<open>
  C22: a message waiting in a queue is never ignored. Whenever a receiver is blocked although its
  address has a message (or the transport is stopped), a notification is still pending.
\<close>

theorem im_no_lost_wakeup:
  assumes "im_reachable s" and "pcs s t = Blocked n w"
    and "im_q (shared s) n \<noteq> [] \<or> stopped (shared s)"
  shows "\<exists>u. pcs s u = Notifying"
  using im_reachable_inv [OF assms(1)] assms(2,3) unfolding no_lost_wakeup_def im_ready_iff by blast

theorem im_no_lost_wakeup_witness:
  "\<exists>s. im_reachable s \<and> pcs s 0 = Blocked ''q'' False \<and> stopped (shared s) \<and>
     (\<exists>u. pcs s u = Notifying)"
  using im_run_blocked_stop im_no_lost_wakeup by blast

text \<open>
  What one call of \<^verbatim>\<open>receive()\<close> returns, on every branch: the errors for an empty source name
  and a stopped transport, the front envelope of the queue, the immediate timeout of a poll; a
  bounded wait always returns, and an unbounded wait returns exactly if the address becomes
  ready.
\<close>

theorem im_receive_outcomes:
  assumes "state_ptr t = Some st"
  shows "(addr_name src = [] \<longrightarrow> im_receive others src args t =
            Some (Inl (invalidArgument ''receive source name is empty''), t)) \<and>
    (addr_name src \<noteq> [] \<longrightarrow> stopped st \<longrightarrow> im_receive others src args t =
       Some (Inl (unavailable ''transport shut down''), t)) \<and>
    (addr_name src \<noteq> [] \<longrightarrow> \<not> stopped st \<longrightarrow> im_q st (addr_name src) = e # es \<longrightarrow>
       (\<exists>t'. im_receive others src args t = Some (Inr (makeMessageFromEnvelope e), t') \<and>
         im_queue t' = (im_queue t)(addr_name src := es))) \<and>
    (addr_name src \<noteq> [] \<longrightarrow> \<not> im_ready st (addr_name src) \<longrightarrow> recv_timeout args = Some 0 \<longrightarrow>
       im_receive others src args t = Some (Inl (timeout ''no message received''), t)) \<and>
    (recv_timeout args \<noteq> None \<longrightarrow> im_receive others src args t \<noteq> None) \<and>
    (addr_name src \<noteq> [] \<longrightarrow> \<not> im_ready st (addr_name src) \<longrightarrow> recv_timeout args = None \<longrightarrow>
       (im_receive others src args t \<noteq> None \<longleftrightarrow> im_ready (others st) (addr_name src)))"
proof (intro conjI impI)
  assume q: "addr_name src \<noteq> []" "\<not> stopped st" "im_q st (addr_name src) = e # es"
  from im_finish_front [OF q(2,3), of False]
  show "\<exists>t'. im_receive others src args t = Some (Inr (makeMessageFromEnvelope e), t') \<and>
      im_queue t' = (im_queue t)(addr_name src := es)"
    using assms q by (auto simp: im_receive_def im_ready_iff im_queue_def fun_eq_iff)
qed (use assms in \<open>auto simp: im_receive_def im_ready_iff im_finish_stopped Let_def
      split: prod.splits option.splits\<close>)

theorem im_receive_outcomes_witness:
  "state_ptr createTransport_InMemory = Some im_initial \<and>
   im_receive id \<lparr>addr_name = ''tasks''\<rparr> \<lparr>recv_timeout = Some 0, ack_mode = AckAuto\<rparr>
     createTransport_InMemory =
   Some (Inl (timeout ''no message received''), createTransport_InMemory)"
proof -
  have "\<not> im_ready im_initial n" for n
    by (simp add: im_ready_iff im_initial_def im_q_def um_laws)
  moreover have "state_ptr createTransport_InMemory = Some im_initial"
    by (simp add: createTransport_InMemory_def)
  ultimately show ?thesis using im_receive_outcomes [of createTransport_InMemory im_initial] by simp
qed

text \<open>
  The table of queues never keeps an empty queue or two queues of one address, whatever the
  threads do.
\<close>

theorem im_table_wf:
  assumes "im_reachable s"
  shows "um_wf (queues (shared s)) \<and> um_find (queues (shared s)) n \<noteq> Some []"
  using im_reachable_inv [OF assms] by (simp add: im_wf_def)

theorem im_table_wf_witness:
  "\<exists>s. im_reachable s \<and> received s ''q'' = [empty_envelope] \<and> um_wf (queues (shared s)) \<and>
     um_find (queues (shared s)) ''q'' \<noteq> Some []"
  using im_run_send_receive im_table_wf by blast

end
