(* ===== verification/Messenger.thy ===== *)
theory Messenger
  imports Codec InMemory_Transport
begin

text \<open>
  The typed messenger (\<^verbatim>\<open>include/mqss/Messenger.hpp\<close>), a template over a transport backend and a
  codec: both are arguments of its operations. The locale \<open>messenger\<close> joins the contracts of the
  two and proves what typed messaging promises; it is interpreted on the in-memory backend with
  the JSON and the binary codec.
\<close>

text \<open>The typed operations a client of a messenger calls, on a world of type \<open>'w\<close>.\<close>

type_synonym ('m, 'w) recv = "Address \<Rightarrow> ReceiveArgs \<Rightarrow> 'w \<Rightarrow> ('m Result \<times> 'w) option"
type_synonym ('m, 'w) snd_op = "Address \<Rightarrow> 'm \<Rightarrow> SendArgs \<Rightarrow> 'w \<Rightarrow> Status \<times> 'w"

definition messenger_send ::
  "('m \<Rightarrow> Envelope Result) \<Rightarrow> 's send_op \<Rightarrow> Address \<Rightarrow> 'm \<Rightarrow> SendArgs \<Rightarrow> 's \<Rightarrow> Status \<times> 's" where
  "messenger_send encode tsend dest v args t =
     (case encode v of Inl e \<Rightarrow> (e, t) | Inr encoded \<Rightarrow> tsend dest encoded args t)"

definition messenger_receiveExtended ::
  "(Envelope \<Rightarrow> 'm Result) \<Rightarrow> 's receive_op \<Rightarrow> Address \<Rightarrow> ReceiveArgs \<Rightarrow> 's \<Rightarrow>
   (('m \<times> 's Message) Result \<times> 's) option" where
  "messenger_receiveExtended decode treceive src args t =
     (case treceive src args t of
        None \<Rightarrow> None
      | Some (Inl e, t') \<Rightarrow> Some (Inl e, t')
      | Some (Inr msg, t') \<Rightarrow>
          (case decode (envelope msg) of
             Inl e \<Rightarrow> Some (Inl e, t')
           | Inr v \<Rightarrow> Some (Inr (v, msg), t')))"

definition messenger_receive ::
  "(Envelope \<Rightarrow> 'm Result) \<Rightarrow> 's receive_op \<Rightarrow> Address \<Rightarrow> ReceiveArgs \<Rightarrow> 's \<Rightarrow>
   ('m Result \<times> 's) option" where
  "messenger_receive decode treceive src args t =
     (case messenger_receiveExtended decode treceive src args t of
        None \<Rightarrow> None
      | Some (Inl e, t') \<Rightarrow> Some (Inl e, t')
      | Some (Inr (v, msg), t') \<Rightarrow> Some (Inr v, t'))"

definition messenger_features :: "FeatureSet \<Rightarrow> FeatureSet" where
  "messenger_features fs = fs"

text \<open>A producer and a consumer: values sent in order, and a number of calls to \<^verbatim>\<open>receive<T>()\<close>.\<close>

fun send_values ::
  "('m \<Rightarrow> Envelope Result) \<Rightarrow> 's send_op \<Rightarrow> Address \<Rightarrow> SendArgs \<Rightarrow> 'm list \<Rightarrow> 's \<Rightarrow> 's" where
  "send_values encode tsend dest args [] t = t"
| "send_values encode tsend dest args (v # vs) t =
     send_values encode tsend dest args vs (snd (messenger_send encode tsend dest v args t))"

fun receive_values ::
  "(Envelope \<Rightarrow> 'm Result) \<Rightarrow> 's receive_op \<Rightarrow> Address \<Rightarrow> ReceiveArgs \<Rightarrow> nat \<Rightarrow> 's \<Rightarrow>
   ('m Result list \<times> 's) option" where
  "receive_values decode treceive src args 0 t = Some ([], t)"
| "receive_values decode treceive src args (Suc n) t =
     (case messenger_receive decode treceive src args t of
        None \<Rightarrow> None
      | Some (r, t') \<Rightarrow>
          map_option (\<lambda>(rs, t''). (r # rs, t'')) (receive_values decode treceive src args n t'))"

locale messenger = codec + fifo_transport
begin

lemma send_encodes:
  assumes "faithful v" and "addr_name d \<noteq> []" and "\<not> confirm a" and "live t"
  shows "\<exists>e t'. encode v = Inr e \<and> messenger_send encode tsend d v a t = (success, t') \<and> live t' \<and>
    queue t' = (queue t)(addr_name d := queue t (addr_name d) @ [e])"
  using encode_faithful [OF assms(1)] send_accept [OF assms(2-4)]
  by (fastforce simp: messenger_send_def)

lemma send_values_queue:
  assumes "\<forall>v \<in> set vs. faithful v" and "addr_name d \<noteq> []" and "\<not> confirm a" and "live t"
  shows "\<exists>es. map encode vs = map Inr es \<and> live (send_values encode tsend d a vs t) \<and>
    queue (send_values encode tsend d a vs t) = (queue t)(addr_name d := queue t (addr_name d) @ es)"
  using assms(1,4)
proof (induction vs arbitrary: t)
  case Nil
  then show ?case by (intro exI [of _ "[]"]) (simp add: fun_eq_iff)
next
  case (Cons v vs)
  then have "faithful v" by simp
  from send_encodes [OF this assms(2,3) Cons.prems(2)] obtain e t' where
    t': "encode v = Inr e" "messenger_send encode tsend d v a t = (success, t')" "live t'"
      "queue t' = (queue t)(addr_name d := queue t (addr_name d) @ [e])" by blast
  have "\<forall>v \<in> set vs. faithful v" using Cons.prems(1) by simp
  from Cons.IH [OF this t'(3)] obtain es where
    "map encode vs = map Inr es" "live (send_values encode tsend d a vs t')"
    "queue (send_values encode tsend d a vs t') = (queue t')(addr_name d := queue t' (addr_name d) @ es)"
    by blast
  with t' show ?case by (intro exI [of _ "e # es"]) (simp add: fun_eq_iff)
qed

lemma receive_decodes:
  assumes "addr_name d \<noteq> []" and "live t" and "queue t (addr_name d) = e # es"
  shows "\<exists>t'. messenger_receive decode treceive d ra t = Some (decode e, t') \<and> live t' \<and>
    queue t' = (queue t)(addr_name d := es)"
  using receive_front [OF assms, of ra]
  by (auto simp: messenger_receive_def messenger_receiveExtended_def split: sum.splits)

lemma receive_values_queue:
  assumes "addr_name d \<noteq> []" and "live t" and "queue t (addr_name d) = es @ rest"
  shows "\<exists>t'. receive_values decode treceive d ra (length es) t = Some (map decode es, t') \<and>
    live t' \<and> queue t' = (queue t)(addr_name d := rest)"
  using assms(2,3)
proof (induction es arbitrary: t)
  case Nil
  then show ?case by (auto simp: fun_eq_iff)
next
  case (Cons e es)
  then have "queue t (addr_name d) = e # (es @ rest)" by simp
  from receive_decodes [OF assms(1) Cons.prems(1) this, of ra] obtain t1 where
    t1: "messenger_receive decode treceive d ra t = Some (decode e, t1)" "live t1"
      "queue t1 = (queue t)(addr_name d := es @ rest)" by blast
  from Cons.IH [OF t1(2)] t1 show ?case by (auto simp: fun_eq_iff)
qed

text \<open>Values sent in order to an empty address are received in order, each exactly once.\<close>

lemma values_roundtrip:
  assumes "\<forall>v \<in> set vs. faithful v" and "addr_name d \<noteq> []" and "\<not> confirm a" and "live t"
    and "queue t (addr_name d) = []"
  shows "\<exists>t'. receive_values decode treceive d ra (length vs) (send_values encode tsend d a vs t) =
      Some (map Inr vs, t') \<and> queue t' = queue t"
proof -
  from send_values_queue [OF assms(1-4)] obtain es where
    es: "map encode vs = map Inr es" "live (send_values encode tsend d a vs t)"
      "queue (send_values encode tsend d a vs t) = (queue t)(addr_name d := es)"
    using assms(5) by auto
  then have len: "length es = length vs" by (metis length_map)
  have "decode (es ! i) = Inr (vs ! i)" if "i < length vs" for i
    using that assms(1) es(1) len decode_encode by (metis nth_map nth_mem)
  then have "map decode es = map Inr vs" using len by (auto intro: nth_equalityI)
  moreover from receive_values_queue [OF assms(2) es(2), of es "[]" ra] es(3) obtain t' where
    "receive_values decode treceive d ra (length es) (send_values encode tsend d a vs t) =
      Some (map decode es, t')" "queue t' = (queue t)(addr_name d := [])" by auto
  ultimately show ?thesis using len assms(5) by (auto simp: fun_eq_iff)
qed

text \<open>One value through a transport with empty queues, which is left as it was found.\<close>

lemma one_value:
  assumes "encode v = Inr e" and "addr_name d \<noteq> []" and "\<not> confirm a" and "live t"
    and "queue t = (\<lambda>n. [])"
  shows "\<exists>t1 t2. messenger_send encode tsend d v a t = (success, t1) \<and>
    messenger_receive decode treceive d ra t1 = Some (decode e, t2) \<and> live t2 \<and> queue t2 = (\<lambda>n. [])"
proof -
  from send_accept [OF assms(2-4), of e] assms(1,5) obtain t1 where
    t1: "messenger_send encode tsend d v a t = (success, t1)" "live t1" "queue t1 = (\<lambda>n. [])(addr_name d := [e])"
    by (auto simp: messenger_send_def)
  with receive_decodes [OF assms(2), of t1 e "[]" ra] show ?thesis by (auto simp: fun_eq_iff)
qed

text \<open>A value that cannot be encoded never reaches the transport.\<close>

lemma send_unencodable:
  "encode v = Inl s \<Longrightarrow> messenger_send encode tsend d v a t = (s, t) \<and> code s = Serialization"
  by (simp add: messenger_send_def encode_error)

text \<open>A message that cannot be decoded is consumed: the next call sees the one after it.\<close>

lemma undecodable_dropped:
  assumes "addr_name d \<noteq> []" and "live t" and "queue t (addr_name d) = e # es" and "decode e = Inl s"
  shows "\<exists>t'. messenger_receive decode treceive d ra t = Some (Inl s, t') \<and>
    code s = Serialization \<and> queue t' (addr_name d) = es"
  using receive_decodes [OF assms(1-3), of ra] assms(4) decode_error by fastforce

end

interpretation im_json: messenger "ProtoJson_encode ser" "ProtoJson_decode par" "wire_faithful ser par"
  im_features im_send "im_receive others" im_queue im_live for ser par others ..

interpretation im_binary: messenger "ProtoBinary_encode ser" "ProtoBinary_decode par"
  "wire_faithful ser par" im_features im_send "im_receive others" im_queue im_live
  for ser par others ..

text \<open>A live in-memory transport with empty queues.\<close>

definition idle :: "InMemoryTransport \<Rightarrow> bool" where
  "idle t \<longleftrightarrow> im_live t \<and> im_queue t = (\<lambda>n. [])"

lemma idle_initial: "idle createTransport_InMemory"
  by (simp add: idle_def im_live_def im_queue_def im_q_def createTransport_InMemory_def im_initial_def
      um_laws fun_eq_iff)

section \<open>Properties\<close>

text \<open>
  C26: typed messages arrive unchanged, in order and once. Over the in-memory transport with the
  JSON codec, values sent to an address with an empty queue are returned by as many receive calls,
  in the order of sending, and the queues are left as they were; nothing is required of what other
  threads do during a wait, since no call has to wait. The protobuf library is assumed to
  serialize the values faithfully.
\<close>

theorem messenger_fifo_roundtrip:
  assumes "\<forall>v \<in> set vs. wire_faithful ser par v"
    and "addr_name d \<noteq> []" and "\<not> confirm a" and "im_live t" and "im_queue t (addr_name d) = []"
  shows "\<exists>t'. receive_values (ProtoJson_decode par) (im_receive others) d ra (length vs)
        (send_values (ProtoJson_encode ser) im_send d a vs t) = Some (map Inr vs, t') \<and>
      im_queue t' = im_queue t"
  using assms by (rule im_json.values_roundtrip)

theorem messenger_fifo_roundtrip_witness:
  "\<exists>t'. receive_values (ProtoJson_decode (\<lambda>p. Some (length p)))
      (im_receive id) \<lparr>addr_name = ''q''\<rparr> default_receive_args 2
      (send_values (ProtoJson_encode (\<lambda>n. Some (replicate n CHR ''x''))) im_send \<lparr>addr_name = ''q''\<rparr>
        default_send_args [3, 1] createTransport_InMemory) = Some ([Inr 3, Inr 1], t')"
proof -
  let ?ser = "\<lambda>n. Some (replicate n CHR ''x'')"
  let ?par = "\<lambda>p :: string. Some (length p)"
  have "\<forall>v \<in> set [3, 1 :: nat]. wire_faithful ?ser ?par v" by (simp add: wire_faithful_def)
  moreover have "im_live createTransport_InMemory" "im_queue createTransport_InMemory ''q'' = []"
    by (simp_all add: createTransport_InMemory_def im_initial_def im_live_def im_queue_def im_q_def
        um_find_def)
  ultimately show ?thesis
    using messenger_fifo_roundtrip [of "[3, 1]" ?ser ?par "\<lparr>addr_name = ''q''\<rparr>" default_send_args
        createTransport_InMemory id default_receive_args]
    by (auto simp: default_send_args_def numeral_2_eq_2 simp del: receive_values.simps send_values.simps)
qed

text \<open>
  Failures of the codec. A value that cannot be serialized is reported and never reaches the
  transport; a message that cannot be parsed is reported as a serialization failure and is gone
  from the queue, so that it does not block the messages behind it.
\<close>

theorem messenger_codec_failures:
  assumes "ser v = None"
    and "addr_name d \<noteq> []" and "im_live t" and "im_queue t (addr_name d) = e # es"
    and "par (payload e) = None"
  shows "messenger_send (ProtoBinary_encode ser) im_send d v a t =
      (serialization ''protobuf binary serialization failed'', t) \<and>
    (\<exists>t'. messenger_receive (ProtoBinary_decode par) (im_receive others) d ra t =
      Some (Inl (serialization ''protobuf binary parse failed''), t') \<and>
      im_queue t' (addr_name d) = es)"
proof -
  have "ProtoBinary_encode ser v = Inl (serialization ''protobuf binary serialization failed'')"
    "ProtoBinary_decode par e = Inl (serialization ''protobuf binary parse failed'')"
    using assms(1,5) by (simp_all add: ProtoBinary_encode_def ProtoBinary_decode_def)
  with im_binary.send_unencodable [of ser v _ d a t]
    im_binary.undecodable_dropped [OF assms(2-4), of par _ others ra]
  show ?thesis by blast
qed

theorem messenger_codec_failures_witness:
  "\<exists>t'. messenger_receive (ProtoBinary_decode (\<lambda>_. None :: nat option)) (im_receive id)
      \<lparr>addr_name = ''q''\<rparr> default_receive_args
      \<lparr>state_ptr = Some \<lparr>stopped = False, queues = [(''q'', [empty_envelope])]\<rparr>\<rparr> =
      Some (Inl (serialization ''protobuf binary parse failed''), t') \<and> im_queue t' ''q'' = []"
  using messenger_codec_failures [of "\<lambda>_. None" 0 "\<lparr>addr_name = ''q''\<rparr>"
    "\<lparr>state_ptr = Some \<lparr>stopped = False, queues = [(''q'', [empty_envelope])]\<rparr>\<rparr>"
    empty_envelope "[]" "\<lambda>_. None :: nat option" default_send_args id default_receive_args]
  by (auto simp: im_live_def im_queue_def im_q_def um_find_def)

end
