(* ===== verification/QOffload_Service.thy ===== *)
theory QOffload_Service
  imports Control QOffload_Logger Rabbit_Transport Messenger
begin

text \<open>
  The QOffload runtime (\<^verbatim>\<open>QOffload.hpp\<close>, \<^verbatim>\<open>QOffload.cpp\<close>) and its process (\<^verbatim>\<open>main.cpp\<close>): the life
  cycle, and one undisturbed round of each of the three workers; the workers running concurrently
  are in the theory \<open>Worker_System\<close>. The typed messengers of a worker are parameters (\<open>receive\<close>,
  \<open>send\<close>); they act on a world of type \<open>'w\<close>.
\<close>

definition isTimeout :: "Status \<Rightarrow> bool" where
  "isTimeout s \<longleftrightarrow> code s = Timeout"

definition makeTransportOptions :: "RabbitMqConfig \<Rightarrow> RabbitMqSimple_options" where
  "makeTransportOptions config = RabbitMqSimple_default
     \<lparr>opt_host := rmq_host config, opt_port := rmq_port config, opt_username := rmq_user config,
      opt_password := rmq_password config, opt_vhost := rmq_vhost config\<rparr>"

text \<open>The part of the configuration that forwarding reads.\<close>

definition forward_config_of :: "Config \<Rightarrow> forward_config" where
  "forward_config_of config =
     \<lparr>fc_result_queue = queue_result (queue_names config), fc_hpc_node = policy_hpc_node (policy config)\<rparr>"

section \<open>Life cycle\<close>

datatype Worker = TaskWorker | ControlWorker | ResultWorker

record QOffload =
  qo_config :: Config
  qo_tasks :: TaskStore
  qo_resources :: ResourceRegistry
  qo_forwarder :: Forward
  qo_workers :: "Worker list"
  qo_running :: bool
  qo_log :: "string list"

definition QOffload_init :: "Config \<Rightarrow> QOffload" where
  "QOffload_init config = \<lparr>qo_config = config, qo_tasks = TaskStore_empty,
     qo_resources = ResourceRegistry_init,
     qo_forwarder = Forward_init (identity_instance_uid (identity config)),
     qo_workers = [], qo_running = False, qo_log = []\<rparr>"

definition startWorkers :: "QOffload \<Rightarrow> QOffload" where
  "startWorkers q = q\<lparr>qo_workers := qo_workers q @ [TaskWorker, ControlWorker, ResultWorker]\<rparr>"

definition start :: "QOffload \<Rightarrow> QOffload" where
  "start q =
     (if qo_running q then q
      else startWorkers (q\<lparr>qo_running := True, qo_log := qo_log q @ [''Starting QOffload workers'']\<rparr>))"

text \<open>Clearing the vector joins the threads, whose loops end at the stop request.\<close>

definition requestStop :: "QOffload \<Rightarrow> QOffload" where
  "requestStop q =
     (if \<not> qo_running q then q
      else q\<lparr>qo_running := False, qo_log := qo_log q @ [''Stopping QOffload workers''], qo_workers := []\<rparr>)"

section \<open>One round of a worker\<close>

record 'w service =
  sv_forwarder :: Forward
  sv_tasks :: TaskStore
  sv_world :: 'w
  sv_log :: "string list"

definition worker_args :: ReceiveArgs where
  "worker_args = \<lparr>recv_timeout = Some 500, ack_mode = AckAuto\<rparr>"

definition log_unless_ok :: "string \<Rightarrow> Status \<Rightarrow> 'w service \<Rightarrow> 'w service" where
  "log_unless_ok msg st s = (if ok st then s else s\<lparr>sv_log := sv_log s @ [msg @ reason st]\<rparr>)"

definition receive_failed :: "string \<Rightarrow> Status \<Rightarrow> 'w service \<Rightarrow> 'w service" where
  "receive_failed msg e s = (if isTimeout e then s else s\<lparr>sv_log := sv_log s @ [msg @ reason e]\<rparr>)"

definition task_worker_round ::
  "(QuantumTask, 'w) recv \<Rightarrow> (QuantumTask, 'w) snd_op \<Rightarrow> Config \<Rightarrow> 'w service \<Rightarrow> 'w service option" where
  "task_worker_round receive send_task config s =
     (case receive \<lparr>addr_name = queue_request (queue_names config)\<rparr> worker_args (sv_world s) of
        None \<Rightarrow> None
      | Some (Inl e, w) \<Rightarrow> Some (receive_failed ''Failed to receive QuantumTask: '' e (s\<lparr>sv_world := w\<rparr>))
      | Some (Inr request, w) \<Rightarrow>
          (let (qrm_task, f, tasks) =
                 forwardDirectTask request (forward_config_of config) (sv_forwarder s) (sv_tasks s);
               (st, w') = send_task \<lparr>addr_name = queue_qrm_task (queue_names config)\<rparr> qrm_task
                 default_send_args w
           in Some (log_unless_ok ''Failed to forward QuantumTask: '' st
                (s\<lparr>sv_forwarder := f, sv_tasks := tasks, sv_world := w'\<rparr>))))"

definition control_worker_round ::
  "(APIRequest, 'w) recv \<Rightarrow> (QuantumTask, 'w) snd_op \<Rightarrow> (APIResponse, 'w) snd_op \<Rightarrow>
   Config \<Rightarrow> ResourceRegistry \<Rightarrow> 'w service \<Rightarrow> 'w service option" where
  "control_worker_round receive send_task send_response config reg s =
     (case receive \<lparr>addr_name = queue_control_request (queue_names config)\<rparr> worker_args (sv_world s) of
        None \<Rightarrow> None
      | Some (Inl e, w) \<Rightarrow>
          Some (receive_failed ''Failed to receive control APIRequest: '' e (s\<lparr>sv_world := w\<rparr>))
      | Some (Inr request, w) \<Rightarrow>
          (let (out, f, tasks) =
                 control_process request (forward_config_of config) reg (sv_forwarder s) (sv_tasks s);
               s1 = s\<lparr>sv_forwarder := f, sv_tasks := tasks, sv_world := w\<rparr>;
               s2 = (case outbound_task out of
                       None \<Rightarrow> s1
                     | Some task \<Rightarrow>
                         (let (st, w') = send_task \<lparr>addr_name = queue_qrm_task (queue_names config)\<rparr>
                                task default_send_args (sv_world s1)
                          in log_unless_ok ''Failed to forward control QuantumTask: '' st
                               (s1\<lparr>sv_world := w'\<rparr>)));
               s3 = (if resp_destination_queue (response out) = [] then s2
                     else (let (st, w') = send_response
                                \<lparr>addr_name = resp_destination_queue (response out)\<rparr> (response out)
                                default_send_args (sv_world s2)
                           in log_unless_ok ''Failed to send control APIResponse: '' st
                                (s2\<lparr>sv_world := w'\<rparr>)))
           in Some s3))"

definition result_worker_round ::
  "(QuantumResult, 'w) recv \<Rightarrow> (QuantumResult, 'w) snd_op \<Rightarrow> Config \<Rightarrow> 'w service \<Rightarrow> 'w service option" where
  "result_worker_round receive send_result config s =
     (case receive \<lparr>addr_name = queue_result (queue_names config)\<rparr> worker_args (sv_world s) of
        None \<Rightarrow> None
      | Some (Inl e, w) \<Rightarrow> Some (receive_failed ''Failed to receive QuantumResult: '' e (s\<lparr>sv_world := w\<rparr>))
      | Some (Inr result, w) \<Rightarrow>
          (let (outcome, tasks) = processResult result (sv_tasks s);
               s1 = s\<lparr>sv_tasks := tasks, sv_world := w\<rparr>
           in if outcome_kind outcome \<noteq> DirectResult \<or> direct_result outcome = None then Some s1
              else (let (st, w') = send_result \<lparr>addr_name = direct_result_destination outcome\<rparr>
                         (the (direct_result outcome)) default_send_args w
                    in Some (log_unless_ok ''Failed to send mapped QuantumResult: '' st
                         (s1\<lparr>sv_world := w'\<rparr>)))))"

section \<open>Signals\<close>

text \<open>
  A signal set is a set of signal numbers. The main thread blocks the stop signals before it starts
  any other thread, so that they stay pending until \<^verbatim>\<open>sigwait\<close> takes one; \<open>arrivals\<close> are the signals sent to the
  process, in order, and a wait for a signal that is never sent does not end. Signals outside the set are
  not the program's business here.
\<close>

definition sigint :: int where "sigint = 2"

definition sigterm :: int where "sigterm = 15"

text \<open>The set that is filled, and the signal mask of the calling thread with the set added.\<close>

definition blockStopSignals :: "int set \<Rightarrow> int set \<times> int set" where
  "blockStopSignals blocked =
     (let signals = {}; signals = insert sigint signals; signals = insert sigterm signals
      in (signals, blocked \<union> signals))"

text \<open>
  \<open>arrivals\<close> is the order in which \<^verbatim>\<open>sigwait\<close> takes the signals. Of two that are pending together, which one it
  takes is not determined, so for these every order has to be considered; the properties hold for all lists.
\<close>

definition waitForStopSignal :: "int set \<Rightarrow> int list \<Rightarrow> int option" where
  "waitForStopSignal signals arrivals = List.find (\<lambda>s. s \<in> signals) arrivals"

definition signal_text :: "int \<Rightarrow> string" where
  "signal_text n = (if n < 0 then ''-'' @ to_string (nat (- n)) else to_string (nat n))"

section \<open>The process\<close>

text \<open>
  \<^verbatim>\<open>main()\<close>: the file system (\<open>mkdir\<close>: the text of the exception, if creating the directories
  throws), the sinks, the signals that arrive, and what the workers do until the stop signal arrives
  (\<open>work\<close>) are parameters. An exception that \<^verbatim>\<open>main\<close> does not catch ends the process without an exit
  code; \<open>None\<close> is a process that never ends. \<open>main_log\<close> are the lines \<^verbatim>\<open>main\<close> itself logs.
\<close>

record main_outcome =
  exit_code :: "int option"
  std_err :: "string list"
  main_log :: "(level_enum \<times> string) list"
  service_at_exit :: "QOffload option"

definition startup_log :: "Config \<Rightarrow> (level_enum \<times> string) list" where
  "startup_log config =
     [(SpdInfo, ''QOffload starting''),
      (SpdDebug, ''Request queue: '' @ queue_request (queue_names config)),
      (SpdDebug, ''Control request queue: '' @ queue_control_request (queue_names config)),
      (SpdDebug, ''Result queue: '' @ queue_result (queue_names config)),
      (SpdDebug, ''QRM task queue: '' @ queue_qrm_task (queue_names config)),
      (SpdDebug, ''Instance UID: '' @ to_string (unat (identity_instance_uid (identity config))))]"

definition qoffload_main ::
  "PathConfig \<Rightarrow> env \<Rightarrow> string list \<Rightarrow> (string \<Rightarrow> string option) \<Rightarrow> (sink \<Rightarrow> string option) \<Rightarrow>
   int set \<Rightarrow> int list \<Rightarrow> (TaskStore \<times> Forward \<Rightarrow> TaskStore \<times> Forward) \<Rightarrow> Config option \<Rightarrow>
   main_outcome option" where
  "qoffload_main build_paths env argv mkdir throws blocked arrivals work stored =
     (let (stop_signals, blocked') = blockStopSignals blocked in
      case qoffload_loadConfig build_paths env argv of
        Inl e \<Rightarrow> Some \<lparr>exit_code = Some 1, std_err = [reason e], main_log = [], service_at_exit = None\<rparr>
      | Inr loaded \<Rightarrow>
          if mkdir (path_runtime_dir (paths loaded)) \<noteq> None \<or> mkdir (path_log_dir (paths loaded)) \<noteq> None
          then Some \<lparr>exit_code = None, std_err = [], main_log = [], service_at_exit = None\<rparr>
          else case makeLogger throws ''qoffload'' (logging loaded)
                 (logPath (path_log_dir (paths loaded)) ''qoffload.log'') of
            Inl e \<Rightarrow> Some \<lparr>exit_code = Some 1, std_err = [reason e], main_log = [], service_at_exit = None\<rparr>
          | Inr lg \<Rightarrow>
              (let (st, stored') = initConfig loaded stored in
               if \<not> ok st
               then Some \<lparr>exit_code = Some 1, std_err = [],
                   main_log = [(SpdErr, ''Failed to initialize configuration: '' @ reason st)], service_at_exit = None\<rparr>
               else case getConfig stored' of
                 Inl e \<Rightarrow> Some \<lparr>exit_code = Some 1, std_err = [],
                   main_log = [(SpdErr, ''Failed to access configuration: '' @ reason e)], service_at_exit = None\<rparr>
               | Inr config \<Rightarrow>
                   (let q = start (QOffload_init config);
                        (tasks, f) = work (qo_tasks q, qo_forwarder q);
                        q = q\<lparr>qo_tasks := tasks, qo_forwarder := f\<rparr>
                    in case waitForStopSignal stop_signals arrivals of
                         None \<Rightarrow> None
                       | Some signal \<Rightarrow> Some \<lparr>exit_code = Some 0, std_err = [],
                           main_log = startup_log config @
                             [(SpdInfo, ''QOffload stopping after signal '' @ signal_text signal)],
                           service_at_exit = Some (requestStop q)\<rparr>)))"

section \<open>Lemmas\<close>

lemma isTimeout_simps [simp]: "isTimeout (timeout r)" "\<not> isTimeout (unavailable r)"
  "\<not> isTimeout (serialization r)"
  by (simp_all add: isTimeout_def)

lemma task_round_forwards:
  assumes "receive \<lparr>addr_name = queue_request (queue_names config)\<rparr> worker_args (sv_world s) =
      Some (Inr request, w)"
    and "forwardDirectTask request (forward_config_of config) (sv_forwarder s) (sv_tasks s) = (qt, f, tasks)"
    and "send_task \<lparr>addr_name = queue_qrm_task (queue_names config)\<rparr> qt default_send_args w = (success, w')"
  shows "task_worker_round receive send_task config s =
    Some (s\<lparr>sv_forwarder := f, sv_tasks := tasks, sv_world := w'\<rparr>)"
  using assms by (simp add: task_worker_round_def log_unless_ok_def)

lemma result_round_answers:
  assumes "receive \<lparr>addr_name = queue_result (queue_names config)\<rparr> worker_args (sv_world s) =
      Some (Inr result, w)"
    and "processResult result (sv_tasks s) =
      (\<lparr>outcome_kind = DirectResult, direct_result = Some r, direct_result_destination = d\<rparr>, tasks)"
    and "send_result \<lparr>addr_name = d\<rparr> r default_send_args w = (success, w')"
  shows "result_worker_round receive send_result config s = Some (s\<lparr>sv_tasks := tasks, sv_world := w'\<rparr>)"
  using assms by (simp add: result_worker_round_def log_unless_ok_def)

lemma running_workers:
  "qo_workers q = (if qo_running q then [TaskWorker, ControlWorker, ResultWorker] else []) \<Longrightarrow>
   qo_workers (start q) = [TaskWorker, ControlWorker, ResultWorker] \<and> qo_running (start q)"
  "qo_workers q = (if qo_running q then [TaskWorker, ControlWorker, ResultWorker] else []) \<Longrightarrow>
   qo_workers (requestStop q) = [] \<and> \<not> qo_running (requestStop q)"
  by (auto simp: start_def startWorkers_def requestStop_def split: if_splits)

section \<open>Properties\<close>

text \<open>
  The life cycle of the service. After any sequence of starts (true) and stops (false), the
  service runs exactly if the last call was a start, and then it has exactly one worker of each
  kind; otherwise it has none. Repeated starts and repeated stops have no further effect.
\<close>

theorem qoffload_life_cycle:
  "let q = foldl (\<lambda>q b. if b then start q else requestStop q) (QOffload_init config) calls in
     (qo_running q \<longleftrightarrow> calls \<noteq> [] \<and> last calls) \<and>
     qo_workers q = (if qo_running q then [TaskWorker, ControlWorker, ResultWorker] else [])"
proof (induction calls rule: rev_induct)
  case Nil
  show ?case by (simp add: QOffload_init_def)
next
  case (snoc b calls)
  then show ?case using running_workers by (auto simp: Let_def)
qed

text \<open>
  A failed receive changes nothing but the log. When the messenger of a worker reports a
  failure, the round leaves the task store and the identifier counter alone; a timeout is not
  logged, and any other failure is logged with its reason.
\<close>

theorem failed_receive_harmless:
  assumes "receive_task \<lparr>addr_name = queue_request (queue_names config)\<rparr> worker_args (sv_world s) = Some (Inl e, w)"
    and "receive_result \<lparr>addr_name = queue_result (queue_names config)\<rparr> worker_args (sv_world s) = Some (Inl e, w)"
    and "receive_request \<lparr>addr_name = queue_control_request (queue_names config)\<rparr> worker_args (sv_world s) = Some (Inl e, w)"
  shows "task_worker_round receive_task send_task config s =
      Some (s\<lparr>sv_world := w, sv_log := sv_log s @
        (if code e = Timeout then [] else [''Failed to receive QuantumTask: '' @ reason e])\<rparr>) \<and>
    result_worker_round receive_result send_result config s =
      Some (s\<lparr>sv_world := w, sv_log := sv_log s @
        (if code e = Timeout then [] else [''Failed to receive QuantumResult: '' @ reason e])\<rparr>) \<and>
    control_worker_round receive_request send_task send_response config reg s =
      Some (s\<lparr>sv_world := w, sv_log := sv_log s @
        (if code e = Timeout then [] else [''Failed to receive control APIRequest: '' @ reason e])\<rparr>)"
  using assms
  by (simp add: task_worker_round_def result_worker_round_def control_worker_round_def
      receive_failed_def isTimeout_def)

theorem failed_receive_harmless_witness:
  "sv_tasks (the (task_worker_round (\<lambda>_ _ w. Some (Inl (timeout ''receive timed out''), w))
      (\<lambda>_ _ _ w. (success, w)) (makeDefaultConfig \<lparr>path_runtime_dir = [], path_log_dir = [], path_state_file = []\<rparr>)
      \<lparr>sv_forwarder = Forward_init 11, sv_tasks = TaskStore_empty, sv_world = (), sv_log = []\<rparr>)) =
   TaskStore_empty"
  using failed_receive_harmless [of "\<lambda>_ _ w. Some (Inl (timeout ''receive timed out''), w)"
    "makeDefaultConfig \<lparr>path_runtime_dir = [], path_log_dir = [], path_state_file = []\<rparr>"
    "\<lparr>sv_forwarder = Forward_init 11, sv_tasks = TaskStore_empty, sv_world = (), sv_log = []\<rparr>"
    "timeout ''receive timed out''" "()" "\<lambda>_ _ w. Some (Inl (timeout ''receive timed out''), w)"
    "\<lambda>_ _ w. Some (Inl (timeout ''receive timed out''), w)" "\<lambda>_ _ _ w. (success, w)"]
  by simp

text \<open>
  C40: how the process ends. It ends by itself only when it cannot start: a configuration or logger
  failure is printed and exits with 1, and a failure to create the directories ends it without an
  exit code. Otherwise it runs until the first interrupt or termination signal, whatever other
  signals come before, never if none comes; then it stops the service, which was started with the loaded
  configuration, joins its workers and exits with 0. The stop signals are blocked before the first thread is
  started.
\<close>

theorem qoffload_main_exit:
  "let out = qoffload_main build_paths env argv mkdir throws blocked arrivals work None in
     {sigint, sigterm} \<subseteq> snd (blockStopSignals blocked) \<and>
     (case qoffload_loadConfig build_paths env argv of
        Inl e \<Rightarrow> \<exists>o1. out = Some o1 \<and> exit_code o1 = Some 1 \<and> std_err o1 = [reason e]
      | Inr c \<Rightarrow>
          if mkdir (path_runtime_dir (paths c)) = None \<and> mkdir (path_log_dir (paths c)) = None
          then case makeLogger throws ''qoffload'' (logging c) (logPath (path_log_dir (paths c)) ''qoffload.log'') of
              Inl e \<Rightarrow> \<exists>o1. out = Some o1 \<and> exit_code o1 = Some 1 \<and> std_err o1 = [reason e]
            | Inr lg \<Rightarrow>
                (case filter (\<lambda>s. s = sigint \<or> s = sigterm) arrivals of
                   [] \<Rightarrow> out = None
                 | s # rest \<Rightarrow> \<exists>o1 q. out = Some o1 \<and> exit_code o1 = Some 0 \<and>
                     last (main_log o1) = (SpdInfo, ''QOffload stopping after signal '' @ signal_text s) \<and>
                     service_at_exit o1 = Some q \<and> qo_config q = c \<and> \<not> qo_running q \<and> qo_workers q = [] \<and>
                     (qo_tasks q, qo_forwarder q) =
                       work (TaskStore_empty, Forward_init (identity_instance_uid (identity c))))
          else \<exists>o1. out = Some o1 \<and> exit_code o1 = None)"
proof -
  have "waitForStopSignal (fst (blockStopSignals blocked)) arrivals =
      (case filter (\<lambda>s. s = sigint \<or> s = sigterm) arrivals of [] \<Rightarrow> None | s # rest \<Rightarrow> Some s)"
    by (induction arrivals) (auto simp: waitForStopSignal_def blockStopSignals_def Let_def)
  then show ?thesis
    by (auto simp: qoffload_main_def initConfig_def getConfig_def requestStop_def start_def
        startWorkers_def QOffload_init_def Let_def case_prod_beta blockStopSignals_def split: sum.splits list.splits)
qed

end
