(* ===== verification/Worker_System.thy ===== *)
theory Worker_System
  imports Control
begin

text \<open>
  The three workers of QOffload running concurrently (\<^verbatim>\<open>QOffload.cpp\<close>, \<^verbatim>\<open>startWorkers\<close>). A step is
  one atomic action: the increment of the identifier counter, one call of the task store (each
  holds the store's mutex for its whole body), or one message operation. The resource manager is
  the environment: it may answer any task it was sent, any number of times and in any order, with
  any result that carries the identifier of the task. The fields from \<open>ws_issued\<close> on record the
  history and influence nothing.
\<close>

text \<open>What \<^verbatim>\<open>forwardDirectTask\<close> and \<^verbatim>\<open>createControlTask\<close> register and send, given the identifier.\<close>

definition direct_entry :: "uint64 \<Rightarrow> QuantumTask \<Rightarrow> PendingTask" where
  "direct_entry k request = \<lparr>kind = DirectTask, forwarded_task_id = k,
     original_task_id = to_uint64 (qt_task_id request),
     original_result_destination = qt_result_destination request\<rparr>"

definition outgoing_task :: "forward_config \<Rightarrow> uint64 \<Rightarrow> QuantumTask \<Rightarrow> QuantumTask" where
  "outgoing_task config k task =
     (let task = task\<lparr>qt_task_id := to_int32 k, qt_result_destination := fc_result_queue config\<rparr>
      in if fc_hpc_node config then task\<lparr>qt_priority := 1\<rparr> else task)"

datatype task_pc =
    TaskIdle
  | TaskAssigned uint64 QuantumTask
  | TaskSending uint64 QuantumTask

datatype control_pc =
    ControlIdle
  | ControlAssigned uint64 APIRequest CreateQuantumTaskCommand
  | ControlSending uint64 APIRequest QuantumTask
  | ControlTaking uint64 bool APIRequest
  | ControlReplying APIRequest ControlResult

datatype result_pc =
    ResultIdle
  | ResultStoring uint64 CompletedControlTask
  | ResultSending uint64 string QuantumResult

record workers =
  ws_forwarder :: Forward
  ws_store :: TaskStore
  ws_task :: task_pc
  ws_control :: control_pc
  ws_result :: result_pc
  ws_issued :: nat
  ws_requests :: "(uint64 \<times> QuantumTask) list"
  ws_registered :: "uint64 \<Rightarrow> PendingTask option"
  ws_sent :: "(uint64 \<times> QuantumTask) list"
  ws_taken :: "uint64 list"
  ws_answers :: "(uint64 \<times> string \<times> QuantumResult) list"
  ws_replies :: "(APIRequest \<times> ControlResult) list"
  ws_fetched :: "uint64 list"

definition workers_initial :: "uint64 \<Rightarrow> workers" where
  "workers_initial uid = \<lparr>ws_forwarder = Forward_init uid, ws_store = TaskStore_empty,
     ws_task = TaskIdle, ws_control = ControlIdle, ws_result = ResultIdle, ws_issued = 0,
     ws_requests = [],
     ws_registered = Map.empty, ws_sent = [], ws_taken = [], ws_answers = [], ws_replies = [],
     ws_fetched = []\<rparr>"

text \<open>The queries that are one call of the store, or none.\<close>

definition simple_query :: "ControlCommand \<Rightarrow> ResourceRegistry \<Rightarrow> TaskStore \<Rightarrow> ControlResult option" where
  "simple_query c reg tasks =
     (case c of
        GetTaskStatusCommand k \<Rightarrow> Some (fst (handle_GetTaskStatus k tasks))
      | ListResourcesCommand \<Rightarrow> Some (handle_ListResources reg)
      | GetResourceInfoCommand n \<Rightarrow> Some (handle_GetResourceInfo n reg)
      | QueryPendingTasksCommand n \<Rightarrow> Some (handle_QueryPendingTasks n tasks reg)
      | InvalidControlCommand m \<Rightarrow> Some (handle_Invalid m)
      | _ \<Rightarrow> None)"

text \<open>The queries that look at the status first and then take the completed task.\<close>

definition fetch_query :: "ControlCommand \<Rightarrow> (uint64 \<times> bool) option" where
  "fetch_query c =
     (case c of
        GetTaskResultCommand k \<Rightarrow> Some (k, False)
      | GetCancelReasonCommand k \<Rightarrow> Some (k, True)
      | _ \<Rightarrow> None)"

definition fetch_result :: "bool \<Rightarrow> CompletedControlTask option \<Rightarrow> ControlResult" where
  "fetch_result reason_only r =
     (case r of
        None \<Rightarrow> ControlError JobNotFound
      | Some c \<Rightarrow> if reason_only then CancelReasonResult (cancel_reason c) else TaskResultResult c)"

inductive ws_step :: "forward_config \<Rightarrow> ResourceRegistry \<Rightarrow> workers \<Rightarrow> workers \<Rightarrow> bool"
  for config reg where
  task_receive: "ws_task s = TaskIdle \<Longrightarrow> nextTaskId (ws_forwarder s) = (k, f) \<Longrightarrow>
    ws_step config reg s (s\<lparr>ws_forwarder := f, ws_task := TaskAssigned k request,
      ws_issued := ws_issued s + 1, ws_requests := (k, request) # ws_requests s\<rparr>)"
| task_register: "ws_task s = TaskAssigned k request \<Longrightarrow>
    ws_step config reg s (s\<lparr>ws_store := addDirectTask (direct_entry k request) (ws_store s),
      ws_task := TaskSending k (outgoing_task config k request),
      ws_registered := (ws_registered s)(k \<mapsto> direct_entry k request)\<rparr>)"
| task_send: "ws_task s = TaskSending k task \<Longrightarrow>
    ws_step config reg s (s\<lparr>ws_task := TaskIdle, ws_sent := (k, task) # ws_sent s\<rparr>)"
| task_send_fail: "ws_task s = TaskSending k task \<Longrightarrow>
    ws_step config reg s (s\<lparr>ws_task := TaskIdle\<rparr>)"
| control_create: "ws_control s = ControlIdle \<Longrightarrow> command_of r = CreateQuantumTask cmd \<Longrightarrow>
    nextTaskId (ws_forwarder s) = (k, f) \<Longrightarrow>
    ws_step config reg s (s\<lparr>ws_forwarder := f, ws_control := ControlAssigned k r cmd,
      ws_issued := ws_issued s + 1\<rparr>)"
| control_register: "ws_control s = ControlAssigned k r cmd \<Longrightarrow>
    ws_step config reg s (s\<lparr>ws_store := addControlTask k (ws_store s),
      ws_control := ControlSending k r
        (outgoing_task config k (applyCreateTaskCommand QuantumTask_default cmd)),
      ws_registered := (ws_registered s)(k \<mapsto> control_entry k)\<rparr>)"
| control_send: "ws_control s = ControlSending k r task \<Longrightarrow>
    ws_step config reg s (s\<lparr>ws_sent := (k, task) # ws_sent s,
      ws_control := ControlReplying r (TaskCreatedResult (to_uint64 (qt_task_id task)))\<rparr>)"
| control_send_fail: "ws_control s = ControlSending k r task \<Longrightarrow>
    ws_step config reg s (s\<lparr>
      ws_control := ControlReplying r (TaskCreatedResult (to_uint64 (qt_task_id task)))\<rparr>)"
| control_query: "ws_control s = ControlIdle \<Longrightarrow> simple_query (command_of r) reg (ws_store s) = Some c \<Longrightarrow>
    ws_step config reg s (s\<lparr>ws_control := ControlReplying r c\<rparr>)"
| control_fetch_waiting: "ws_control s = ControlIdle \<Longrightarrow> fetch_query (command_of r) = Some (k, b) \<Longrightarrow>
    status k (ws_store s) = Waiting \<Longrightarrow>
    ws_step config reg s (s\<lparr>ws_control := ControlReplying r (ControlError JobIsWaiting)\<rparr>)"
| control_fetch: "ws_control s = ControlIdle \<Longrightarrow> fetch_query (command_of r) = Some (k, b) \<Longrightarrow>
    status k (ws_store s) \<noteq> Waiting \<Longrightarrow>
    ws_step config reg s (s\<lparr>ws_control := ControlTaking k b r\<rparr>)"
| control_take: "ws_control s = ControlTaking k b r \<Longrightarrow>
    takeCompletedControlTask k (ws_store s) = (c, tasks) \<Longrightarrow>
    ws_step config reg s (s\<lparr>ws_store := tasks, ws_control := ControlReplying r (fetch_result b c),
      ws_fetched := (if c = None then ws_fetched s else k # ws_fetched s)\<rparr>)"
| control_reply: "ws_control s = ControlReplying r c \<Longrightarrow>
    ws_step config reg s (s\<lparr>ws_control := ControlIdle, ws_replies := (r, c) # ws_replies s\<rparr>)"
| result_unknown: "ws_result s = ResultIdle \<Longrightarrow> (k, task) \<in> set (ws_sent s) \<Longrightarrow>
    qr_task_id (result :: QuantumResult) = qt_task_id task \<Longrightarrow>
    takePending (to_uint64 (qr_task_id result)) (ws_store s) = (None, tasks) \<Longrightarrow>
    ws_step config reg s (s\<lparr>ws_store := tasks\<rparr>)"
| result_control: "ws_result s = ResultIdle \<Longrightarrow> (k, task) \<in> set (ws_sent s) \<Longrightarrow>
    qr_task_id result = qt_task_id task \<Longrightarrow>
    takePending (to_uint64 (qr_task_id result)) (ws_store s) = (Some p, tasks) \<Longrightarrow>
    kind p = ControlTask \<Longrightarrow>
    ws_step config reg s (s\<lparr>ws_store := tasks, ws_result := ResultStoring k (completed_task p result),
      ws_taken := k # ws_taken s\<rparr>)"
| result_direct: "ws_result s = ResultIdle \<Longrightarrow> (k, task) \<in> set (ws_sent s) \<Longrightarrow>
    qr_task_id result = qt_task_id task \<Longrightarrow>
    takePending (to_uint64 (qr_task_id result)) (ws_store s) = (Some p, tasks) \<Longrightarrow>
    kind p = DirectTask \<Longrightarrow>
    ws_step config reg s (s\<lparr>ws_store := tasks,
      ws_result := ResultSending k (original_result_destination p)
        (result\<lparr>qr_task_id := to_int32 (original_task_id p),
          qr_destination := original_result_destination p\<rparr>),
      ws_taken := k # ws_taken s\<rparr>)"
| result_store: "ws_result s = ResultStoring k c \<Longrightarrow>
    ws_step config reg s (s\<lparr>ws_store := storeCompletedControlTask c (ws_store s),
      ws_result := ResultIdle\<rparr>)"
| result_send: "ws_result s = ResultSending k dest r \<Longrightarrow>
    ws_step config reg s (s\<lparr>ws_result := ResultIdle, ws_answers := (k, dest, r) # ws_answers s\<rparr>)"
| result_send_fail: "ws_result s = ResultSending k dest r \<Longrightarrow>
    ws_step config reg s (s\<lparr>ws_result := ResultIdle\<rparr>)"

inductive ws_reachable :: "forward_config \<Rightarrow> ResourceRegistry \<Rightarrow> uint64 \<Rightarrow> workers \<Rightarrow> bool"
  for config reg uid where
  init: "ws_reachable config reg uid (workers_initial uid)"
| step: "ws_reachable config reg uid s \<Longrightarrow> ws_step config reg s s' \<Longrightarrow> ws_reachable config reg uid s'"

inductive_cases ws_stepE: "ws_step config reg s s'"

text \<open>The bound under which identifiers are told apart by their 32-bit images.\<close>

definition ids_fit :: "uint64 \<Rightarrow> workers \<Rightarrow> bool" where
  "ids_fit uid s \<longleftrightarrow> unat uid < 10000 \<and> ws_issued s * 10000 + unat uid < 2 ^ 31"

section \<open>The steps of one operation in a row\<close>

lemma forwardDirectTask_steps:
  "forwardDirectTask request config f tasks =
   (outgoing_task config (fst (nextTaskId f)) request, snd (nextTaskId f),
    addDirectTask (direct_entry (fst (nextTaskId f)) request) tasks)"
  by (simp add: forwardDirectTask_def outgoing_task_def direct_entry_def nextTaskId_def Let_def)

lemma createControlTask_steps:
  "createControlTask task config f tasks =
   (outgoing_task config (fst (nextTaskId f)) task, snd (nextTaskId f),
    addControlTask (fst (nextTaskId f)) tasks)"
  by (simp add: createControlTask_def outgoing_task_def nextTaskId_def Let_def)

lemma execute_fetch_steps:
  assumes "fetch_query c = Some (k, b)"
  shows "executeControlCommand c config reg f tasks =
    (if status k tasks = Waiting
     then (\<lparr>exec_result = ControlError JobIsWaiting, exec_outbound_task = None\<rparr>, f, tasks)
     else case takeCompletedControlTask k tasks of
       (r, tasks') \<Rightarrow> (\<lparr>exec_result = fetch_result b r, exec_outbound_task = None\<rparr>, f, tasks'))"
  using assms
  by (auto simp: fetch_query_def fetch_result_def handler_defs Let_def
      split: ControlCommand.splits option.splits prod.splits)

lemma execute_query_steps:
  assumes "simple_query c reg tasks = Some r"
  shows "executeControlCommand c config reg f tasks =
    (\<lparr>exec_result = r, exec_outbound_task = None\<rparr>, f, tasks)"
  using assms by (auto simp: simple_query_def handler_defs split: ControlCommand.splits)

lemma qt_task_id_outgoing [simp]: "qt_task_id (outgoing_task config k task) = to_int32 k"
  by (simp add: outgoing_task_def Let_def)

section \<open>Identifiers\<close>

definition issued :: "uint64 \<Rightarrow> workers \<Rightarrow> uint64 \<Rightarrow> bool" where
  "issued uid s k \<longleftrightarrow> (\<exists>i < ws_issued s. k = task_id_at uid i)"

text \<open>The identifier a worker has drawn and not registered yet.\<close>

fun task_fresh :: "task_pc \<Rightarrow> uint64 option" where
  "task_fresh (TaskAssigned k request) = Some k"
| "task_fresh _ = None"

fun control_fresh :: "control_pc \<Rightarrow> uint64 option" where
  "control_fresh (ControlAssigned k r cmd) = Some k"
| "control_fresh _ = None"

definition inv_ids :: "uint64 \<Rightarrow> workers \<Rightarrow> bool" where
  "inv_ids uid s \<longleftrightarrow>
     ws_forwarder s = \<lparr>instance_uid = uid, next_task_index = of_nat (ws_issued s)\<rparr> \<and>
     (\<forall>k. ws_registered s k \<noteq> None \<longrightarrow> issued uid s k) \<and>
     (\<forall>k \<in> fst ` set (ws_requests s). issued uid s k) \<and> distinct (map fst (ws_requests s)) \<and>
     (\<forall>k. task_fresh (ws_task s) = Some k \<longrightarrow> issued uid s k \<and> ws_registered s k = None) \<and>
     (\<forall>k. control_fresh (ws_control s) = Some k \<longrightarrow> issued uid s k \<and> ws_registered s k = None \<and>
        task_fresh (ws_task s) \<noteq> Some k)"

lemma issued_fits: "ids_fit uid s \<Longrightarrow> issued uid s k \<Longrightarrow> fits_int32 k"
proof -
  assume "ids_fit uid s" "issued uid s k"
  then obtain i where i: "i < ws_issued s" "k = task_id_at uid i"
    "ws_issued s * 10000 + unat uid < 2 ^ 31" by (auto simp: issued_def ids_fit_def)
  then have "i * 10000 + unat uid < 2 ^ 31" by (meson add_less_mono1 less_trans mult_less_mono1 zero_less_numeral)
  moreover from this have "unat k = i * 10000 + unat uid"
    unfolding i(2) by (intro unat_task_id_at) simp
  ultimately show ?thesis by (simp add: fits_int32_def)
qed

lemma next_id_fresh:
  assumes "ids_fit uid s" and "issued uid s k"
  shows "k \<noteq> task_id_at uid (ws_issued s)"
proof
  assume eq: "k = task_id_at uid (ws_issued s)"
  from assms obtain i where i: "i < ws_issued s" "k = task_id_at uid i"
    "ws_issued s * 10000 + unat uid < 2 ^ 31" by (auto simp: issued_def ids_fit_def)
  have "unat (task_id_at uid i) = i * 10000 + unat uid"
    using i by (intro unat_task_id_at) simp
  moreover have "unat (task_id_at uid (ws_issued s)) = ws_issued s * 10000 + unat uid"
    using i by (intro unat_task_id_at) simp
  ultimately show False using i(1,2) eq by simp
qed

lemma next_id:
  assumes "inv_ids uid s" and "nextTaskId (ws_forwarder s) = (k, f)"
  shows "k = task_id_at uid (ws_issued s)"
    and "f = \<lparr>instance_uid = uid, next_task_index = of_nat (Suc (ws_issued s))\<rparr>"
  using assms by (simp_all add: inv_ids_def nextTaskId_def task_id_at_def add.commute)

lemma ids_fit_step: "ws_step config reg s s' \<Longrightarrow> ids_fit uid s' \<Longrightarrow> ids_fit uid s"
  by (cases rule: ws_step.cases) (auto simp: ids_fit_def)

lemma issued_mono:
  "ws_issued s' = ws_issued s \<Longrightarrow> issued uid s' k \<longleftrightarrow> issued uid s k"
  "ws_issued s' = Suc (ws_issued s) \<Longrightarrow> issued uid s' k \<longleftrightarrow> issued uid s k \<or> k = task_id_at uid (ws_issued s)"
  by (auto simp: issued_def less_Suc_eq)

lemma inv_ids_init: "inv_ids uid (workers_initial uid)"
  by (simp add: inv_ids_def workers_initial_def Forward_init_def)

lemma inv_ids_draw:
  assumes "inv_ids uid s" and "ids_fit uid s" and "nextTaskId (ws_forwarder s) = (k, f)"
    and "ws_issued s' = Suc (ws_issued s)"
  shows "\<not> issued uid s k" and "issued uid s' x \<longleftrightarrow> issued uid s x \<or> x = k"
    and "ws_registered s k = None" and "k \<notin> fst ` set (ws_requests s)"
    and "task_fresh (ws_task s) \<noteq> Some k" and "control_fresh (ws_control s) \<noteq> Some k"
proof -
  note k = next_id(1) [OF assms(1,3)]
  show fresh: "\<not> issued uid s k" using next_id_fresh [OF assms(2)] k by blast
  show "issued uid s' x \<longleftrightarrow> issued uid s x \<or> x = k" using issued_mono(2) [OF assms(4)] k by simp
  show "ws_registered s k = None" "k \<notin> fst ` set (ws_requests s)"
    "task_fresh (ws_task s) \<noteq> Some k" "control_fresh (ws_control s) \<noteq> Some k"
    using assms(1) fresh unfolding inv_ids_def by blast+
qed

lemma inv_ids_step:
  assumes "inv_ids uid s" and "ids_fit uid s" and "ws_step config reg s s'"
  shows "inv_ids uid s'"
  using assms(3)
proof cases
  case (task_receive k f request)
  have n: "ws_issued s' = Suc (ws_issued s)" by (simp add: task_receive(1))
  note draw = inv_ids_draw [OF assms(1,2) task_receive(3) n] and f = next_id(2) [OF assms(1) task_receive(3)]
  show ?thesis
    using assms(1) draw(3,4,6) unfolding inv_ids_def draw(2)
    by (simp add: task_receive(1) f) blast
next
  case (control_create r cmd k f)
  have n: "ws_issued s' = Suc (ws_issued s)" by (simp add: control_create(1))
  note draw = inv_ids_draw [OF assms(1,2) control_create(4) n] and f = next_id(2) [OF assms(1) control_create(4)]
  show ?thesis
    using assms(1) draw(3,4,5) unfolding inv_ids_def draw(2)
    by (simp add: control_create(1) f)
next
  case (task_register k request)
  then show ?thesis using assms(1) by (auto simp: inv_ids_def issued_def)
next
  case (control_register k r cmd)
  then show ?thesis using assms(1) by (auto simp: inv_ids_def issued_def)
qed (use assms(1) in \<open>simp_all add: inv_ids_def issued_def\<close>)

section \<open>Registered tasks\<close>

text \<open>A task that is about to be sent or has been sent is registered, under the id it carries.\<close>

definition sending_ok :: "workers \<Rightarrow> uint64 \<Rightarrow> QuantumTask \<Rightarrow> bool" where
  "sending_ok s k task \<longleftrightarrow> ws_registered s k \<noteq> None \<and> qt_task_id task = to_int32 k"

definition origin_ok :: "workers \<Rightarrow> uint64 \<Rightarrow> PendingTask \<Rightarrow> bool" where
  "origin_ok s k p \<longleftrightarrow> p = control_entry k \<or>
     (\<exists>request. (k, request) \<in> set (ws_requests s) \<and> p = direct_entry k request)"

definition inv_store :: "workers \<Rightarrow> bool" where
  "inv_store s \<longleftrightarrow>
     pending_map (ws_store s) = (\<lambda>k. if k \<in> set (ws_taken s) then None else ws_registered s k) \<and>
     set (ws_taken s) \<subseteq> dom (ws_registered s) \<and> distinct (ws_taken s) \<and>
     (\<forall>k task. (k, task) \<in> set (ws_sent s) \<longrightarrow> sending_ok s k task) \<and>
     (\<forall>k task. ws_task s = TaskSending k task \<longrightarrow> sending_ok s k task) \<and>
     (\<forall>k r task. ws_control s = ControlSending k r task \<longrightarrow> sending_ok s k task) \<and>
     (\<forall>k request. ws_task s = TaskAssigned k request \<longrightarrow> (k, request) \<in> set (ws_requests s)) \<and>
     (\<forall>k p. ws_registered s k = Some p \<longrightarrow> origin_ok s k p)"

lemma sent_lookup:
  assumes "inv_ids uid s" and "ids_fit uid s" and "inv_store s"
    and "(k, task) \<in> set (ws_sent s)" and "qr_task_id result = qt_task_id task"
  shows "to_uint64 (qr_task_id result) = k"
proof -
  have "ws_registered s k \<noteq> None" "qt_task_id task = to_int32 k"
    using assms(3,4) by (auto simp: inv_store_def sending_ok_def)
  then show ?thesis
    using assms(1,2,5) issued_fits [OF assms(2)] to_uint64_to_int32 by (simp add: inv_ids_def)
qed

lemma takePending_maps:
  assumes "takePending k tasks = (r, tasks')"
  shows "r = pending_map tasks k" "pending_map tasks' = (pending_map tasks)(k := None)"
    "completed_map tasks' = completed_map tasks"
  using ts.take_pending_result [of k tasks] ts.take_pending_maps [of k tasks] assms by auto

text \<open>The store after the result worker has taken the entry of a task it was sent.\<close>

lemma inv_store_take:
  assumes "inv_store s" and "takePending k (ws_store s) = (Some p, tasks)"
  shows "ws_registered s k = Some p" "k \<notin> set (ws_taken s)"
    "pending_map tasks = (\<lambda>x. if x \<in> set (k # ws_taken s) then None else ws_registered s x)"
  using takePending_maps(1,2) [OF assms(2)] assms(1)
  by (auto simp: inv_store_def fun_eq_iff split: if_splits)

lemma inv_store_init: "inv_store (workers_initial uid)"
  by (simp add: inv_store_def workers_initial_def fun_eq_iff)

lemma origin_ok_mono:
  "origin_ok s k p \<Longrightarrow> set (ws_requests s) \<subseteq> set (ws_requests s') \<Longrightarrow> origin_ok s' k p"
  by (auto simp: origin_ok_def)

lemma inv_store_register:
  assumes "inv_store s" and "ws_registered s k = None"
    and "ws_registered s' = (ws_registered s)(k \<mapsto> p)" and "origin_ok s' k p"
    and "pending_map (ws_store s') = (pending_map (ws_store s))(k \<mapsto> p)"
    and "ws_taken s' = ws_taken s" and "ws_sent s' = ws_sent s" and "ws_requests s' = ws_requests s"
    and "\<forall>k task. ws_task s' = TaskSending k task \<longrightarrow> sending_ok s' k task"
    and "\<forall>k r task. ws_control s' = ControlSending k r task \<longrightarrow> sending_ok s' k task"
    and "\<forall>k request. ws_task s' = TaskAssigned k request \<longrightarrow> (k, request) \<in> set (ws_requests s')"
  shows "inv_store s'"
proof -
  have "k \<notin> set (ws_taken s)" using assms(1,2) by (auto simp: inv_store_def)
  with assms show ?thesis
    by (auto simp: inv_store_def fun_eq_iff sending_ok_def origin_ok_def)
qed

lemma inv_store_step:
  assumes "inv_ids uid s" and "ids_fit uid s" and "inv_store s" and "ws_step config reg s s'"
  shows "inv_store s'"
  using assms(4)
proof cases
  case (task_receive k f request)
  then show ?thesis
    using assms(3) by (auto simp: inv_store_def sending_ok_def intro: origin_ok_mono [of s])
next
  case (task_register k request)
  have "ws_registered s k = None" "(k, request) \<in> set (ws_requests s)"
    using assms(1,3) task_register(2) by (auto simp: inv_ids_def inv_store_def)
  then show ?thesis
    using task_register assms(3)
    by (intro inv_store_register [OF assms(3), where k = k and p = "direct_entry k request"])
      (auto simp: ts.maps direct_entry_def origin_ok_def sending_ok_def inv_store_def)
next
  case (control_register k r cmd)
  have "ws_registered s k = None" using assms(1) control_register(2) by (auto simp: inv_ids_def)
  then show ?thesis
    using control_register assms(3)
    by (intro inv_store_register [OF assms(3), where k = k and p = "control_entry k"])
      (auto simp: ts.maps origin_ok_def sending_ok_def inv_store_def)
next
  case (control_take k b r c tasks)
  then have "pending_map tasks = pending_map (ws_store s)"
    using ts.take_completed_maps(1) [of k "ws_store s"] by simp
  then show ?thesis using assms(3) control_take(1,2) by (auto simp: inv_store_def sending_ok_def origin_ok_def)
next
  case (result_unknown k task result tasks)
  then have "tasks = ws_store s" by (auto simp: takePending_def split: option.splits)
  then show ?thesis using assms(3) result_unknown(1) by simp
next
  case (result_control k task result p tasks)
  note k = sent_lookup [OF assms(1-3) result_control(3,4)]
  note take = inv_store_take [OF assms(3) result_control(5) [unfolded k]]
  show ?thesis
    using assms(3) take by (auto simp: result_control(1) inv_store_def sending_ok_def origin_ok_def)
next
  case (result_direct k task result p tasks)
  note k = sent_lookup [OF assms(1-3) result_direct(3,4)]
  note take = inv_store_take [OF assms(3) result_direct(5) [unfolded k]]
  show ?thesis
    using assms(3) take by (auto simp: result_direct(1) inv_store_def sending_ok_def origin_ok_def)
next
  case (result_store k c)
  then show ?thesis
    using assms(3) by (auto simp: inv_store_def sending_ok_def origin_ok_def ts.maps)
qed (use assms(3) in \<open>auto simp: inv_store_def sending_ok_def origin_ok_def\<close>)

section \<open>Answers to direct clients\<close>

definition answer_ok :: "workers \<Rightarrow> uint64 \<Rightarrow> string \<Rightarrow> QuantumResult \<Rightarrow> bool" where
  "answer_ok s k dest r \<longleftrightarrow> k \<in> set (ws_taken s) \<and>
     (\<exists>request. (k, request) \<in> set (ws_requests s) \<and> dest = qt_result_destination request \<and>
        qr_task_id r = qt_task_id request \<and> qr_destination r = dest)"

definition inv_answers :: "workers \<Rightarrow> bool" where
  "inv_answers s \<longleftrightarrow>
     (\<forall>k dest r. (k, dest, r) \<in> set (ws_answers s) \<longrightarrow> answer_ok s k dest r) \<and>
     distinct (map fst (ws_answers s)) \<and>
     (\<forall>k dest r. ws_result s = ResultSending k dest r \<longrightarrow>
        answer_ok s k dest r \<and> k \<notin> fst ` set (ws_answers s))"

lemma answer_ok_mono:
  "answer_ok s k dest r \<Longrightarrow> set (ws_taken s) \<subseteq> set (ws_taken s') \<Longrightarrow>
   set (ws_requests s) \<subseteq> set (ws_requests s') \<Longrightarrow> answer_ok s' k dest r"
  by (auto simp: answer_ok_def)

lemma inv_answers_taken:
  "inv_answers s \<Longrightarrow> k \<in> fst ` set (ws_answers s) \<Longrightarrow> k \<in> set (ws_taken s)"
  by (auto simp: inv_answers_def answer_ok_def)

lemma inv_answers_step:
  assumes "inv_ids uid s" and "ids_fit uid s" and "inv_store s" and "inv_answers s"
    and "ws_step config reg s s'"
  shows "inv_answers s'"
  using assms(5)
proof cases
  case (result_direct k task result p tasks)
  note k = sent_lookup [OF assms(1-3) result_direct(3,4)]
  note take = inv_store_take [OF assms(3) result_direct(5) [unfolded k]]
  have "origin_ok s k p" using assms(3) take(1) by (simp add: inv_store_def)
  with result_direct(6) obtain request where
    "(k, request) \<in> set (ws_requests s)" "p = direct_entry k request"
    by (auto simp: origin_ok_def control_entry_def)
  then have "answer_ok s' k (original_result_destination p)
      (result\<lparr>qr_task_id := to_int32 (original_task_id p),
        qr_destination := original_result_destination p\<rparr>)"
    by (auto simp: answer_ok_def result_direct(1) direct_entry_def)
  moreover have "k \<notin> fst ` set (ws_answers s)"
    using inv_answers_taken [OF assms(4)] take(2) by blast
  ultimately show ?thesis
    using assms(4) by (auto simp: inv_answers_def result_direct(1) intro: answer_ok_mono [of s])
next
  case (result_send k dest r)
  then show ?thesis
    using assms(4) by (auto simp: inv_answers_def intro: answer_ok_mono [of s])
qed (use assms(4) in \<open>auto simp: inv_answers_def intro: answer_ok_mono [of s]\<close>)

section \<open>Results of control tasks\<close>

definition is_control :: "workers \<Rightarrow> uint64 \<Rightarrow> bool" where
  "is_control s k \<longleftrightarrow> ws_registered s k = Some (control_entry k)"

text \<open>A control task whose result has been taken is being stored, stored, or fetched.\<close>

definition inv_control :: "workers \<Rightarrow> bool" where
  "inv_control s \<longleftrightarrow>
     (\<forall>k c. completed_map (ws_store s) k = Some c \<longrightarrow>
        k \<in> set (ws_taken s) \<and> is_control s k \<and> k \<notin> set (ws_fetched s)) \<and>
     (\<forall>k c. ws_result s = ResultStoring k c \<longrightarrow> ct_task_id c = k \<and> k \<in> set (ws_taken s) \<and>
        is_control s k \<and> k \<notin> set (ws_fetched s) \<and> completed_map (ws_store s) k = None) \<and>
     set (ws_fetched s) \<subseteq> set (ws_taken s) \<and> distinct (ws_fetched s) \<and>
     (\<forall>k. k \<in> set (ws_taken s) \<and> is_control s k \<longrightarrow>
        completed_map (ws_store s) k \<noteq> None \<or> k \<in> set (ws_fetched s) \<or>
        (\<exists>c. ws_result s = ResultStoring k c))"

lemma inv_control_init: "inv_control (workers_initial uid)"
  by (simp add: inv_control_def workers_initial_def)

lemma inv_control_register:
  assumes "inv_control s" and "inv_store s" and "ws_registered s k = None"
    and "ws_registered s' = (ws_registered s)(k \<mapsto> p)"
    and "completed_map (ws_store s') = completed_map (ws_store s)"
    and "ws_taken s' = ws_taken s" and "ws_fetched s' = ws_fetched s" and "ws_result s' = ws_result s"
  shows "inv_control s'"
proof -
  have "k \<notin> set (ws_taken s)" using assms(2,3) by (auto simp: inv_store_def)
  with assms(1) show ?thesis
    unfolding inv_control_def is_control_def assms(4-8) by auto
qed

lemma inv_control_step:
  assumes "inv_ids uid s" and "ids_fit uid s" and "inv_store s" and "inv_control s"
    and "ws_step config reg s s'"
  shows "inv_control s'"
  using assms(5)
proof cases
  case (task_register k request)
  have "ws_registered s k = None" using assms(1) task_register(2) by (auto simp: inv_ids_def)
  then show ?thesis
    by (rule inv_control_register [OF assms(4,3)]) (simp_all add: task_register ts.maps)
next
  case (control_register k r cmd)
  have "ws_registered s k = None" using assms(1) control_register(2) by (auto simp: inv_ids_def)
  then show ?thesis
    by (rule inv_control_register [OF assms(4,3)]) (simp_all add: control_register ts.maps)
next
  case (control_take k b r c tasks)
  have maps: "c = completed_map (ws_store s) k" "completed_map tasks = (completed_map (ws_store s))(k := None)"
    using control_take(3) ts.take_completed_result [of k "ws_store s"]
      ts.take_completed_maps(2) [of k "ws_store s"] by simp_all
  show ?thesis
    using assms(4) maps by (auto simp: inv_control_def is_control_def control_take(1))
next
  case (result_unknown k task result tasks)
  then have "tasks = ws_store s" by (auto simp: takePending_def split: option.splits)
  then show ?thesis using assms(4) result_unknown(1) by simp
next
  case (result_control k task result p tasks)
  note k = sent_lookup [OF assms(1-3) result_control(3,4)]
  note take = inv_store_take [OF assms(3) result_control(5) [unfolded k]]
    and maps = takePending_maps(3) [OF result_control(5)]
  have "origin_ok s k p" using assms(3) take(1) by (simp add: inv_store_def)
  with result_control(6) have p: "p = control_entry k" by (auto simp: origin_ok_def direct_entry_def)
  then have "ct_task_id (completed_task p result) = k" by (simp add: control_entry_def)
  with assms(4) take(1,2) p show ?thesis
    by (auto simp: inv_control_def is_control_def result_control(1,2) maps)
next
  case (result_direct k task result p tasks)
  note k = sent_lookup [OF assms(1-3) result_direct(3,4)]
  note take = inv_store_take [OF assms(3) result_direct(5) [unfolded k]]
    and maps = takePending_maps(3) [OF result_direct(5)]
  have "\<not> is_control s k" using take(1) result_direct(6) by (auto simp: is_control_def control_entry_def)
  with assms(4) take(1,2) show ?thesis
    by (auto simp: inv_control_def is_control_def result_direct(1,2) maps)
next
  case (result_store k c)
  then show ?thesis
    using assms(4) by (auto simp: inv_control_def is_control_def ts.maps)
qed (use assms(4) in \<open>auto simp: inv_control_def is_control_def\<close>)

lemma reachable_invariants:
  assumes "ws_reachable config reg uid s" and "ids_fit uid s"
  shows "inv_ids uid s \<and> inv_store s \<and> inv_answers s \<and> inv_control s"
  using assms
proof (induction rule: ws_reachable.induct)
  case init
  show ?case by (simp add: inv_ids_init inv_store_init inv_control_init)
      (simp add: inv_answers_def workers_initial_def)
next
  case (step s s')
  note fit = ids_fit_step [OF step.hyps(2) step.prems]
  then show ?case
    using step.IH [OF fit] inv_ids_step [OF _ fit step.hyps(2)] inv_store_step [OF _ fit _ step.hyps(2)]
      inv_answers_step [OF _ fit _ _ step.hyps(2)] inv_control_step [OF _ fit _ _ step.hyps(2)]
    by blast
qed

section \<open>Two runs\<close>

text \<open>A direct task that is forwarded (\<open>direct_run1\<close>) and answered (\<open>direct_run2\<close>).\<close>

definition run_request :: QuantumTask where
  "run_request = QuantumTask_default\<lparr>qt_task_id := 7, qt_result_destination := ''client''\<rparr>"

definition run_config :: forward_config where
  "run_config = \<lparr>fc_result_queue = ''results'', fc_hpc_node = False\<rparr>"

definition direct_run1 :: workers where
  "direct_run1 = (workers_initial 11)\<lparr>ws_forwarder := snd (nextTaskId (Forward_init 11)),
     ws_store := addDirectTask (direct_entry 11 run_request) TaskStore_empty,
     ws_issued := 1, ws_requests := [(11, run_request)],
     ws_registered := [11 \<mapsto> direct_entry 11 run_request],
     ws_sent := [(11, outgoing_task run_config 11 run_request)]\<rparr>"

definition direct_run2 :: workers where
  "direct_run2 = direct_run1\<lparr>ws_store := snd (takePending 11 (ws_store direct_run1)),
     ws_taken := [11], ws_answers := [(11, ''client'', QuantumResult_default
       \<lparr>qr_task_id := 7, qr_destination := ''client''\<rparr>)]\<rparr>"

text \<open>
  A control task that is created and sent, and whose result is being processed: after the step
  that takes the pending entry and before the step that stores the result.
\<close>

definition create_request :: APIRequest where
  "create_request = APIRequest_default\<lparr>req_response_queue := ''reply'',
     req_typed_request := ReqCreateTask \<lparr>ctr_shots = 100, ctr_circuit = [''OPENQASM 2.0;''],
       ctr_circuit_format = ''qasm'', ctr_resource_name = ''Q20'', ctr_no_modify = False\<rparr>\<rparr>"

definition create_cmd :: CreateQuantumTaskCommand where
  "create_cmd = \<lparr>cmd_shots = 100, cmd_circuit_files = [''OPENQASM 2.0;''],
     cmd_circuit_format = ''qasm'', cmd_resource_name = ''Q20'', cmd_no_modify = False\<rparr>"

definition create_task :: QuantumTask where
  "create_task = outgoing_task run_config 11 (applyCreateTaskCommand QuantumTask_default create_cmd)"

definition control_run1 :: "bool \<Rightarrow> workers" where
  "control_run1 arrived = (workers_initial 11)\<lparr>ws_forwarder := snd (nextTaskId (Forward_init 11)),
     ws_store := addControlTask 11 TaskStore_empty, ws_issued := 1,
     ws_registered := [11 \<mapsto> control_entry 11],
     ws_sent := (if arrived then [(11, create_task)] else []),
     ws_replies := [(create_request, TaskCreatedResult 11)]\<rparr>"

definition control_run2 :: workers where
  "control_run2 = (control_run1 True)\<lparr>ws_store := snd (takePending 11 (ws_store (control_run1 True))),
     ws_taken := [11],
     ws_result := ResultStoring 11 (completed_task (control_entry 11)
       (QuantumResult_default\<lparr>qr_task_id := 11\<rparr>))\<rparr>"

lemma run_ids: "to_int32 11 = 11" "to_uint64 11 = 11" "to_int32 (to_uint64 7) = 7"
  "nextTaskId (Forward_init 11) = (11, snd (nextTaskId (Forward_init 11)))"
  by (simp_all add: to_int32_def to_uint64_def) (simp add: nextTaskId_def Forward_init_def)

lemma ws_steps:
  "ws_reachable config reg uid s \<Longrightarrow> ws_step config reg s s1 \<Longrightarrow> ws_step config reg s1 s2 \<Longrightarrow>
   ws_step config reg s2 s3 \<Longrightarrow> ws_reachable config reg uid s3"
  by (blast intro: ws_reachable.step)

lemma direct_run1_reachable: "ws_reachable run_config reg 11 direct_run1"
proof -
  define s0 where "s0 = workers_initial 11"
  define s1 where "s1 = s0\<lparr>ws_forwarder := snd (nextTaskId (Forward_init 11)),
    ws_task := TaskAssigned 11 run_request, ws_issued := ws_issued s0 + 1,
    ws_requests := (11, run_request) # ws_requests s0\<rparr>"
  define s2 where "s2 = s1\<lparr>ws_store := addDirectTask (direct_entry 11 run_request) (ws_store s1),
    ws_task := TaskSending 11 (outgoing_task run_config 11 run_request),
    ws_registered := (ws_registered s1)(11 \<mapsto> direct_entry 11 run_request)\<rparr>"
  define s3 where "s3 = s2\<lparr>ws_task := TaskIdle,
    ws_sent := (11, outgoing_task run_config 11 run_request) # ws_sent s2\<rparr>"
  have pc0: "ws_task s0 = TaskIdle" and "ws_forwarder s0 = Forward_init 11"
    by (simp_all add: s0_def workers_initial_def)
  then have n: "nextTaskId (ws_forwarder s0) = (11, snd (nextTaskId (Forward_init 11)))"
    using run_ids(4) by metis
  have pc1: "ws_task s1 = TaskAssigned 11 run_request" by (simp add: s1_def)
  have pc2: "ws_task s2 = TaskSending 11 (outgoing_task run_config 11 run_request)" by (simp add: s2_def)
  have "ws_reachable run_config reg 11 s0" unfolding s0_def by (rule ws_reachable.init)
  moreover have "ws_step run_config reg s0 s1" unfolding s1_def by (rule ws_step.task_receive [OF pc0 n])
  moreover have "ws_step run_config reg s1 s2" unfolding s2_def by (rule ws_step.task_register [OF pc1])
  moreover have "ws_step run_config reg s2 s3" unfolding s3_def by (rule ws_step.task_send [OF pc2])
  ultimately have "ws_reachable run_config reg 11 s3" by (rule ws_steps)
  moreover have "s3 = direct_run1"
    by (simp add: s3_def s2_def s1_def s0_def direct_run1_def workers_initial_def)
  ultimately show ?thesis by simp
qed

lemma direct_run2_reachable: "ws_reachable run_config reg 11 direct_run2"
proof -
  define r where "r = QuantumResult_default\<lparr>qr_task_id := 11\<rparr>"
  define p where "p = direct_entry 11 run_request"
  define tasks where "tasks = snd (takePending 11 (ws_store direct_run1))"
  define s1 where "s1 = direct_run1\<lparr>ws_store := tasks, ws_result := ResultSending 11
      (original_result_destination p) (r\<lparr>qr_task_id := to_int32 (original_task_id p),
        qr_destination := original_result_destination p\<rparr>), ws_taken := 11 # ws_taken direct_run1\<rparr>"
  have id: "to_uint64 (qr_task_id r) = 11" by (simp add: r_def run_ids)
  have "ws_store direct_run1 = addDirectTask p TaskStore_empty" by (simp add: direct_run1_def p_def)
  then have take: "takePending (to_uint64 (qr_task_id r)) (ws_store direct_run1) = (Some p, tasks)"
    by (simp add: id tasks_def takePending_def addDirectTask_def TaskStore_empty_def p_def direct_entry_def um_laws)
  have sent: "(11, outgoing_task run_config 11 run_request) \<in> set (ws_sent direct_run1)"
    and pc: "ws_result direct_run1 = ResultIdle"
    by (simp_all add: direct_run1_def workers_initial_def)
  have rid: "qr_task_id r = qt_task_id (outgoing_task run_config 11 run_request)"
    by (simp add: r_def run_ids)
  have "kind p = DirectTask" by (simp add: p_def direct_entry_def)
  then have "ws_step run_config reg direct_run1 s1"
    unfolding s1_def by (rule ws_step.result_direct [OF pc sent rid take])
  then have s1: "ws_reachable run_config reg 11 s1" by (rule ws_reachable.step [OF direct_run1_reachable])
  have pc1: "ws_result s1 = ResultSending 11 (original_result_destination p)
      (r\<lparr>qr_task_id := to_int32 (original_task_id p), qr_destination := original_result_destination p\<rparr>)"
    by (simp add: s1_def)
  have "direct_run2 = s1\<lparr>ws_result := ResultIdle, ws_answers := (11, original_result_destination p,
      r\<lparr>qr_task_id := to_int32 (original_task_id p), qr_destination := original_result_destination p\<rparr>) #
      ws_answers s1\<rparr>"
    by (simp add: direct_run2_def s1_def tasks_def p_def direct_entry_def r_def run_request_def)
      (simp add: direct_run1_def workers_initial_def)
  with ws_reachable.step [OF s1 ws_step.result_send [OF pc1]] show ?thesis by simp
qed

lemma control_run1_reachable: "ws_reachable run_config reg 11 (control_run1 arrived)"
proof -
  define s0 where "s0 = workers_initial 11"
  define s1 where "s1 = s0\<lparr>ws_forwarder := snd (nextTaskId (Forward_init 11)),
    ws_control := ControlAssigned 11 create_request create_cmd, ws_issued := ws_issued s0 + 1\<rparr>"
  define s2 where "s2 = s1\<lparr>ws_store := addControlTask 11 (ws_store s1),
    ws_control := ControlSending 11 create_request
      (outgoing_task run_config 11 (applyCreateTaskCommand QuantumTask_default create_cmd)),
    ws_registered := (ws_registered s1)(11 \<mapsto> control_entry 11)\<rparr>"
  define s3 where "s3 = s2\<lparr>ws_sent := (if arrived then (11, create_task) # ws_sent s2 else ws_sent s2),
    ws_control := ControlReplying create_request (TaskCreatedResult (to_uint64 (qt_task_id create_task)))\<rparr>"
  define s4 where "s4 = s3\<lparr>ws_control := ControlIdle, ws_replies :=
    (create_request, TaskCreatedResult (to_uint64 (qt_task_id create_task))) # ws_replies s3\<rparr>"
  have pc0: "ws_control s0 = ControlIdle" and "ws_forwarder s0 = Forward_init 11"
    by (simp_all add: s0_def workers_initial_def)
  then have n: "nextTaskId (ws_forwarder s0) = (11, snd (nextTaskId (Forward_init 11)))"
    using run_ids(4) by metis
  have cmd: "command_of create_request = CreateQuantumTask create_cmd"
    by (simp add: command_of_typed typed_decode_def makeCreateCommand_def create_request_def create_cmd_def)
  have pc1: "ws_control s1 = ControlAssigned 11 create_request create_cmd" by (simp add: s1_def)
  have pc2: "ws_control s2 = ControlSending 11 create_request create_task"
    by (simp add: s2_def create_task_def)
  have pc3: "ws_control s3 = ControlReplying create_request (TaskCreatedResult (to_uint64 (qt_task_id create_task)))"
    by (simp add: s3_def)
  have "ws_reachable run_config reg 11 s0" unfolding s0_def by (rule ws_reachable.init)
  moreover have "ws_step run_config reg s0 s1"
    unfolding s1_def by (rule ws_step.control_create [OF pc0 cmd n])
  moreover have "ws_step run_config reg s1 s2" unfolding s2_def by (rule ws_step.control_register [OF pc1])
  moreover have "ws_step run_config reg s2 s3"
    unfolding s3_def using ws_step.control_send [OF pc2, of run_config reg]
      ws_step.control_send_fail [OF pc2, of run_config reg]
    by (cases arrived) simp_all
  ultimately have "ws_reachable run_config reg 11 s3" by (rule ws_steps)
  then have "ws_reachable run_config reg 11 s4"
    unfolding s4_def by (rule ws_reachable.step) (rule ws_step.control_reply [OF pc3])
  moreover have "to_uint64 (qt_task_id create_task) = 11" by (simp add: create_task_def run_ids)
  then have "s4 = control_run1 arrived"
    by (cases arrived) (simp_all add: s4_def s3_def s2_def s1_def s0_def control_run1_def workers_initial_def)
  ultimately show ?thesis by simp
qed

lemma control_run2_reachable: "ws_reachable run_config reg 11 control_run2"
proof -
  define r where "r = QuantumResult_default\<lparr>qr_task_id := 11\<rparr>"
  define s where "s = control_run1 True"
  define tasks where "tasks = snd (takePending 11 (ws_store s))"
  have "ws_store s = addControlTask 11 TaskStore_empty" by (simp add: s_def control_run1_def)
  moreover have id: "to_uint64 (qr_task_id r) = 11" by (simp add: r_def run_ids)
  ultimately have take: "takePending (to_uint64 (qr_task_id r)) (ws_store s) = (Some (control_entry 11), tasks)"
    by (simp add: tasks_def takePending_def addControlTask_def addDirectTask_def TaskStore_empty_def
        control_entry_def um_laws)
  have sent: "(11, create_task) \<in> set (ws_sent s)" and pc: "ws_result s = ResultIdle"
    by (simp_all add: s_def control_run1_def workers_initial_def)
  have rid: "qr_task_id r = qt_task_id create_task" by (simp add: r_def create_task_def run_ids)
  have "kind (control_entry 11) = ControlTask" by (simp add: control_entry_def)
  from ws_reachable.step [OF control_run1_reachable [of _ True, folded s_def]
      ws_step.result_control [OF pc sent rid take this]]
  show ?thesis by (simp add: control_run2_def s_def tasks_def r_def)
      (simp add: control_run1_def workers_initial_def)
qed

lemma runs_fit:
  "ids_fit 11 direct_run1" "ids_fit 11 direct_run2" "ids_fit 11 (control_run1 b)" "ids_fit 11 control_run2"
  by (simp_all add: ids_fit_def direct_run2_def direct_run1_def control_run2_def control_run1_def)

section \<open>Properties\<close>

text \<open>
  C10: direct clients get their own results, under every interleaving of the three workers. As long
  as the identifiers handed out so far are below \<open>2 ^ 31\<close> and the instance uid below 10000, every
  answer sent belongs to one request, goes to that request's queue and carries that request's task
  id, and no request is answered twice, however often and in whatever order the resource manager
  returns results.
\<close>

theorem direct_answers_correct:
  assumes "ws_reachable config reg uid s" and "ids_fit uid s"
  shows "distinct (map fst (ws_requests s)) \<and> distinct (map fst (ws_answers s)) \<and>
    (\<forall>k dest r. (k, dest, r) \<in> set (ws_answers s) \<longrightarrow>
       (\<exists>request. (k, request) \<in> set (ws_requests s) \<and> dest = qt_result_destination request \<and>
          qr_task_id r = qt_task_id request \<and> qr_destination r = dest))"
  using reachable_invariants [OF assms]
  by (auto simp: inv_ids_def inv_answers_def answer_ok_def)

theorem direct_answers_correct_witness:
  "ws_answers direct_run2 = [(11, ''client'', QuantumResult_default
       \<lparr>qr_task_id := 7, qr_destination := ''client''\<rparr>)] \<and>
   (\<exists>request. (11, request) \<in> set (ws_requests direct_run2) \<and> ''client'' = qt_result_destination request)"
proof -
  have a: "ws_answers direct_run2 = [(11, ''client'', QuantumResult_default
      \<lparr>qr_task_id := 7, qr_destination := ''client''\<rparr>)]" by (simp add: direct_run2_def)
  from direct_answers_correct [OF direct_run2_reachable runs_fit(2)] a show ?thesis by auto
qed

text \<open>
  C8: no control task is lost. As long as the identifiers handed out so far are below \<open>2 ^ 31\<close> and the instance uid
  below 10000 (\<open>ids_fit\<close>), in every reachable state in which the result worker is between two messages, a registered control task is waiting as long as no result has been taken for it,
  completed or cancelled afterwards, and not found exactly when a client has fetched it.
\<close>

theorem control_tasks_accounted:
  assumes "ws_reachable config reg uid s" and "ids_fit uid s" and "ws_result s = ResultIdle"
    and "ws_registered s k = Some (control_entry k)"
  shows "(status k (ws_store s) = Waiting \<longleftrightarrow> k \<notin> set (ws_taken s)) \<and>
    (status k (ws_store s) = NotFound \<longleftrightarrow> k \<in> set (ws_fetched s)) \<and> distinct (ws_fetched s)"
proof -
  note inv = reachable_invariants [OF assms(1,2)]
  have p: "pending_map (ws_store s) k = None \<longleftrightarrow> k \<in> set (ws_taken s)"
    using inv assms(4) by (simp add: inv_store_def)
  have c: "inv_control s" using inv by blast
  then have f: "k \<in> set (ws_fetched s) \<Longrightarrow> k \<in> set (ws_taken s) \<and> completed_map (ws_store s) k = None"
    unfolding inv_control_def by (metis not_Some_eq subsetD)
  have t: "k \<in> set (ws_taken s) \<Longrightarrow> completed_map (ws_store s) k = None \<Longrightarrow> k \<in> set (ws_fetched s)"
    using c assms(4) unfolding inv_control_def is_control_def assms(3) by blast
  have "distinct (ws_fetched s)" using c unfolding inv_control_def by blast
  with p f t show ?thesis unfolding ts.status_waiting_iff ts.status_not_found_iff by auto
qed

theorem control_tasks_accounted_witness:
  "ws_reachable run_config ResourceRegistry_init 11 (control_run1 True) \<and>
   status 11 (ws_store (control_run1 True)) = Waiting"
proof -
  have "ws_result (control_run1 True) = ResultIdle"
    "ws_registered (control_run1 True) 11 = Some (control_entry 11)" "ws_taken (control_run1 True) = []"
    by (simp_all add: control_run1_def workers_initial_def)
  with control_tasks_accounted [OF control_run1_reachable runs_fit(3), of True 11]
  show ?thesis by (simp add: control_run1_reachable)
qed

text \<open>
  C21: tasks are registered before they are sent. In every interleaving, as long as the identifiers handed out so far
  are below \<open>2 ^ 31\<close> and the instance uid below 10000 (\<open>ids_fit\<close>), the first result of a task that was sent finds
  its pending entry, even when it arrives before the worker that sent the task has moved on. (From \<open>2 ^ 31\<close>
  on it does not: theory \<open>Forward\<close>.)
\<close>

theorem first_result_known:
  assumes "ws_reachable config reg uid s" and "ids_fit uid s"
    and "(k, task) \<in> set (ws_sent s)" and "k \<notin> set (ws_taken s)"
    and "qr_task_id result = qt_task_id task"
  shows "outcome_kind (fst (processResult result (ws_store s))) \<noteq> UnknownTask"
proof -
  note inv = reachable_invariants [OF assms(1,2)]
  have id: "to_uint64 (qr_task_id result) = k"
    using sent_lookup [OF _ assms(2) _ assms(3,5)] inv by blast
  have "sending_ok s k task" using inv assms(3) unfolding inv_store_def by blast
  then obtain p where "ws_registered s k = Some p" by (auto simp: sending_ok_def)
  then have "pending_map (ws_store s) (to_uint64 (qr_task_id result)) = Some p"
    using inv assms(4) id by (simp add: inv_store_def)
  then show ?thesis
    using processResult_direct processResult_control by (cases "kind p") fastforce+
qed

theorem first_result_known_witness:
  "outcome_kind (fst (processResult (QuantumResult_default\<lparr>qr_task_id := 11\<rparr>) (ws_store direct_run1)))
   \<noteq> UnknownTask"
proof -
  have "(11, outgoing_task run_config 11 run_request) \<in> set (ws_sent direct_run1)"
    "(11 :: uint64) \<notin> set (ws_taken direct_run1)"
    by (simp_all add: direct_run1_def workers_initial_def)
  from first_result_known [OF direct_run1_reachable runs_fit(1) this,
      of "QuantumResult_default\<lparr>qr_task_id := 11\<rparr>"]
  show ?thesis by (simp add: run_ids)
qed

text \<open>
  A control task can be reported as not found while its result is being processed. The worker
  that handles a result first takes the pending entry and then stores the result; in between, a
  status request for the task is answered ``not found'', although its result was never fetched.
\<close>

theorem transient_not_found:
  "\<exists>s k. ws_reachable run_config reg 11 s \<and> ws_registered s k = Some (control_entry k) \<and>
     ws_fetched s = [] \<and> status k (ws_store s) = NotFound"
proof -
  have "pending_map (ws_store control_run2) 11 = None" "completed_map (ws_store control_run2) 11 = None"
    by (simp_all add: control_run2_def control_run1_def ts.maps)
  then have "status 11 (ws_store control_run2) = NotFound" by (simp add: ts.status_not_found_iff)
  moreover have "ws_registered control_run2 11 = Some (control_entry 11)" "ws_fetched control_run2 = []"
    by (simp_all add: control_run2_def control_run1_def workers_initial_def)
  ultimately show ?thesis using control_run2_reachable by blast
qed

text \<open>
  A task that could not be sent is reported as created. When the send to the resource manager
  fails, the client is still told the identifier, and the task is registered as pending although
  no result for it can arrive.
\<close>

theorem unsent_task_reported_created:
  "\<exists>s r k. ws_reachable run_config reg 11 s \<and> (r, TaskCreatedResult k) \<in> set (ws_replies s) \<and>
     ws_sent s = [] \<and> ws_control s = ControlIdle \<and> status k (ws_store s) = Waiting"
proof -
  let ?s = "control_run1 False"
  have "pending_map (ws_store ?s) 11 = Some (control_entry 11)" by (simp add: control_run1_def ts.maps)
  then have "status 11 (ws_store ?s) = Waiting" by (simp add: ts.status_waiting_iff)
  moreover have "(create_request, TaskCreatedResult 11) \<in> set (ws_replies ?s)" "ws_sent ?s = []"
    "ws_control ?s = ControlIdle"
    by (simp_all add: control_run1_def workers_initial_def)
  ultimately show ?thesis using control_run1_reachable by blast
qed

end
