(* ===== verification/Worker_Rounds.thy ===== *)
theory Worker_Rounds
  imports QOffload_Service Worker_System "HOL-Library.Multiset"
begin

text \<open>
  The two models of the QOffload workers joined. A round of a worker (\<open>QOffload_Service\<close>), with whatever
  messenger, is a run of that worker's atomic steps (\<open>Worker_System\<close>), and so what holds of every
  interleaving of the steps holds of every schedule of rounds. The second part shows that no worker
  can keep another from finishing what it has begun.
\<close>

section \<open>The rounds of the service\<close>

text \<open>The typed messenger operations of the three workers.\<close>

record 'w worker_ops =
  wo_receive_task :: "(QuantumTask, 'w) recv"
  wo_receive_request :: "(APIRequest, 'w) recv"
  wo_receive_result :: "(QuantumResult, 'w) recv"
  wo_send_task :: "(QuantumTask, 'w) snd_op"
  wo_send_response :: "(APIResponse, 'w) snd_op"
  wo_send_result :: "(QuantumResult, 'w) snd_op"

text \<open>The loop body of each of the threads that \<^verbatim>\<open>startWorkers\<close> creates, and a schedule of such bodies.\<close>

fun worker_round ::
  "Worker \<Rightarrow> 'w worker_ops \<Rightarrow> Config \<Rightarrow> ResourceRegistry \<Rightarrow> 'w service \<Rightarrow> 'w service option" where
  "worker_round TaskWorker ops config reg s =
     task_worker_round (wo_receive_task ops) (wo_send_task ops) config s"
| "worker_round ControlWorker ops config reg s =
     control_worker_round (wo_receive_request ops) (wo_send_task ops) (wo_send_response ops) config reg s"
| "worker_round ResultWorker ops config reg s =
     result_worker_round (wo_receive_result ops) (wo_send_result ops) config s"

fun worker_rounds ::
  "Worker list \<Rightarrow> 'w worker_ops \<Rightarrow> Config \<Rightarrow> ResourceRegistry \<Rightarrow> 'w service \<Rightarrow> 'w service option" where
  "worker_rounds [] ops config reg s = Some s"
| "worker_rounds (k # ks) ops config reg s =
     Option.bind (worker_round k ops config reg s) (worker_rounds ks ops config reg)"

text \<open>
  A world that remembers, the latest first, the tasks that clients sent, the tasks handed to the
  resource manager and the answers sent, and whether every result so far carried the identifier of
  a task handed out before it. The operations are those of the messengers; the memory influences
  nothing.
\<close>

record 'w recorded =
  rc_world :: 'w
  rc_requests :: "QuantumTask list"
  rc_tasks :: "QuantumTask list"
  rc_answers :: "(string \<times> QuantumResult) list"
  rc_honest :: bool

definition rec_receive ::
  "('m, 'w) recv \<Rightarrow> ('m \<Rightarrow> 'w recorded \<Rightarrow> 'w recorded) \<Rightarrow> ('m, 'w recorded) recv" where
  "rec_receive receive note a args w =
     (case receive a args (rc_world w) of
        None \<Rightarrow> None
      | Some (Inl e, v) \<Rightarrow> Some (Inl e, w\<lparr>rc_world := v\<rparr>)
      | Some (Inr m, v) \<Rightarrow> Some (Inr m, note m (w\<lparr>rc_world := v\<rparr>)))"

definition rec_send ::
  "('m, 'w) snd_op \<Rightarrow> (Address \<Rightarrow> 'm \<Rightarrow> 'w recorded \<Rightarrow> 'w recorded) \<Rightarrow> ('m, 'w recorded) snd_op" where
  "rec_send send note a m args w =
     (let (st, v) = send a m args (rc_world w); w' = w\<lparr>rc_world := v\<rparr>
      in (st, if ok st then note a m w' else w'))"

definition recording :: "'w worker_ops \<Rightarrow> 'w recorded worker_ops" where
  "recording ops = \<lparr>
     wo_receive_task = rec_receive (wo_receive_task ops)
       (\<lambda>t w. w\<lparr>rc_requests := t # rc_requests w\<rparr>),
     wo_receive_request = rec_receive (wo_receive_request ops) (\<lambda>r w. w),
     wo_receive_result = rec_receive (wo_receive_result ops)
       (\<lambda>r w. w\<lparr>rc_honest := (rc_honest w \<and> qr_task_id r \<in> qt_task_id ` set (rc_tasks w))\<rparr>),
     wo_send_task = rec_send (wo_send_task ops) (\<lambda>a t w. w\<lparr>rc_tasks := t # rc_tasks w\<rparr>),
     wo_send_response = rec_send (wo_send_response ops) (\<lambda>a r w. w),
     wo_send_result = rec_send (wo_send_result ops)
       (\<lambda>a r w. w\<lparr>rc_answers := (addr_name a, r) # rc_answers w\<rparr>)\<rparr>"

definition service_initial :: "uint64 \<Rightarrow> 'w \<Rightarrow> 'w recorded service" where
  "service_initial uid v = \<lparr>sv_forwarder = Forward_init uid, sv_tasks = TaskStore_empty,
     sv_world = \<lparr>rc_world = v, rc_requests = [], rc_tasks = [], rc_answers = [], rc_honest = True\<rparr>,
     sv_log = []\<rparr>"

section \<open>A round is a run\<close>

text \<open>The state of the step system between two rounds of the service.\<close>

definition serves :: "'w recorded service \<Rightarrow> workers \<Rightarrow> bool" where
  "serves s w \<longleftrightarrow> ws_forwarder w = sv_forwarder s \<and> ws_store w = sv_tasks s \<and>
     ws_task w = TaskIdle \<and> ws_control w = ControlIdle \<and> ws_result w = ResultIdle \<and>
     map snd (ws_requests w) = rc_requests (sv_world s) \<and> map snd (ws_sent w) = rc_tasks (sv_world s) \<and>
     map snd (ws_answers w) = rc_answers (sv_world s)"

lemma serves_initial: "serves (service_initial uid v) (workers_initial uid)"
  by (simp add: serves_def service_initial_def workers_initial_def)

text \<open>A run that is a number of steps in a row, and how many identifiers it may have drawn.\<close>

definition runs_to :: "forward_config \<Rightarrow> ResourceRegistry \<Rightarrow> workers \<Rightarrow> workers \<Rightarrow> bool" where
  "runs_to config reg w w' \<longleftrightarrow> (ws_step config reg)\<^sup>*\<^sup>* w w' \<and> ws_issued w' \<le> Suc (ws_issued w)"

lemma runs_to_refl: "runs_to config reg w w"
  by (simp add: runs_to_def)

lemma runs_to_steps:
  "ws_step config reg w w1 \<Longrightarrow> ws_issued w1 \<le> Suc (ws_issued w) \<Longrightarrow> runs_to config reg w w1"
  "runs_to config reg w w1 \<Longrightarrow> ws_step config reg w1 w2 \<Longrightarrow> ws_issued w2 = ws_issued w1 \<Longrightarrow>
    runs_to config reg w w2"
  by (auto simp: runs_to_def)

lemma runs_to_reachable:
  assumes "runs_to config reg w w'" and "ws_reachable config reg uid w"
  shows "ws_reachable config reg uid w'"
proof -
  have "(ws_step config reg)\<^sup>*\<^sup>* w w'" using assms(1) by (simp add: runs_to_def)
  then show ?thesis
    by (induction rule: rtranclp_induct) (auto intro: assms(2) ws_reachable.step)
qed

lemma serves_frame:
  "serves s w \<Longrightarrow> serves (receive_failed msg e (s\<lparr>sv_world := (sv_world s)\<lparr>rc_world := v\<rparr>\<rparr>)) w"
  "serves s w \<Longrightarrow> serves (log_unless_ok msg st s) w \<and> serves (s\<lparr>sv_world := (sv_world s)\<lparr>rc_world := v\<rparr>\<rparr>) w"
  by (auto simp: serves_def receive_failed_def log_unless_ok_def)

subsection \<open>The task worker\<close>

text \<open>The state after the task worker has handled a request, sent on if \<open>arrived\<close>.\<close>

definition task_handled :: "forward_config \<Rightarrow> QuantumTask \<Rightarrow> bool \<Rightarrow> workers \<Rightarrow> workers" where
  "task_handled config request arrived w =
     (let (k, f) = nextTaskId (ws_forwarder w)
      in w\<lparr>ws_forwarder := f, ws_task := TaskIdle, ws_store := addDirectTask (direct_entry k request) (ws_store w),
        ws_issued := ws_issued w + 1, ws_requests := (k, request) # ws_requests w,
        ws_registered := (ws_registered w)(k \<mapsto> direct_entry k request),
        ws_sent := (if arrived then (k, outgoing_task config k request) # ws_sent w else ws_sent w)\<rparr>)"

lemma task_run:
  assumes "ws_task w = TaskIdle"
  shows "runs_to config reg w (task_handled config request arrived w)"
proof -
  obtain k f where n: "nextTaskId (ws_forwarder w) = (k, f)" by fastforce
  define w1 where "w1 = w\<lparr>ws_forwarder := f, ws_task := TaskAssigned k request, ws_issued := ws_issued w + 1,
      ws_requests := (k, request) # ws_requests w\<rparr>"
  define w2 where "w2 = w1\<lparr>ws_store := addDirectTask (direct_entry k request) (ws_store w1),
      ws_task := TaskSending k (outgoing_task config k request),
      ws_registered := (ws_registered w1)(k \<mapsto> direct_entry k request)\<rparr>"
  from ws_step.task_receive [OF assms(1) n] have "ws_step config reg w w1" by (simp add: w1_def)
  then have r1: "runs_to config reg w w1" by (rule runs_to_steps) (simp add: w1_def)
  have "ws_task w1 = TaskAssigned k request" by (simp add: w1_def)
  from ws_step.task_register [OF this] have "ws_step config reg w1 w2" by (simp add: w2_def)
  then have r2: "runs_to config reg w w2" by (rule runs_to_steps(2) [OF r1]) (simp add: w2_def)
  have pc2: "ws_task w2 = TaskSending k (outgoing_task config k request)" by (simp add: w2_def)
  have "task_handled config request arrived w =
      (if arrived then w2\<lparr>ws_task := TaskIdle, ws_sent := (k, outgoing_task config k request) # ws_sent w2\<rparr>
       else w2\<lparr>ws_task := TaskIdle\<rparr>)"
    using n by (cases w) (simp add: w2_def w1_def task_handled_def)
  then have "ws_step config reg w2 (task_handled config request arrived w)"
    using ws_step.task_send [OF pc2] ws_step.task_send_fail [OF pc2] by simp
  then show ?thesis by (rule runs_to_steps(2) [OF r2]) (simp add: w2_def w1_def task_handled_def n)
qed

lemma task_round_runs:
  assumes "task_worker_round (wo_receive_task (recording ops)) (wo_send_task (recording ops)) config s = Some s'"
    and "serves s w"
  shows "\<exists>w'. runs_to (forward_config_of config) reg w w' \<and> serves s' w'"
proof -
  let ?src = "\<lparr>addr_name = queue_request (queue_names config)\<rparr>"
  let ?fc = "forward_config_of config"
  obtain r v where recv: "wo_receive_task ops ?src worker_args (rc_world (sv_world s)) = Some (r, v)"
    using assms(1) by (cases "wo_receive_task ops ?src worker_args (rc_world (sv_world s))")
      (auto simp: task_worker_round_def recording_def rec_receive_def)
  show ?thesis
  proof (cases r)
    case (Inl e)
    then have "s' = receive_failed ''Failed to receive QuantumTask: '' e (s\<lparr>sv_world := (sv_world s)\<lparr>rc_world := v\<rparr>\<rparr>)"
      using assms(1) recv by (simp add: task_worker_round_def recording_def rec_receive_def)
    then show ?thesis using serves_frame(1) [OF assms(2)] runs_to_refl by (intro exI [of _ w]) simp
  next
    case (Inr request)
    obtain k f where n: "nextTaskId (ws_forwarder w) = (k, f)" by fastforce
    have idle: "ws_task w = TaskIdle" and eqs: "ws_forwarder w = sv_forwarder s" "ws_store w = sv_tasks s"
      using assms(2) by (simp_all add: serves_def)
    obtain st v' where send: "wo_send_task ops \<lparr>addr_name = queue_qrm_task (queue_names config)\<rparr>
        (outgoing_task ?fc k request) default_send_args v = (st, v')"
      by fastforce
    show ?thesis
      using task_run [OF idle, of ?fc reg request "ok st"] assms recv send n
      by (intro exI [of _ "task_handled ?fc request (ok st) w"])
        (auto simp: task_handled_def task_worker_round_def recording_def rec_receive_def rec_send_def Inr
          forwardDirectTask_steps eqs [symmetric] serves_def log_unless_ok_def Let_def)
  qed
qed

subsection \<open>The control worker\<close>

text \<open>What the service observes of a run of the control worker.\<close>

definition control_ran ::
  "workers \<Rightarrow> APIRequest \<Rightarrow> ControlExecutionOutcome \<Rightarrow> Forward \<Rightarrow> TaskStore \<Rightarrow> bool \<Rightarrow> workers \<Rightarrow> bool" where
  "control_ran w r out f tasks arrived w' \<longleftrightarrow>
     ws_forwarder w' = f \<and> ws_store w' = tasks \<and> ws_control w' = ControlIdle \<and>
     ws_task w' = ws_task w \<and> ws_result w' = ws_result w \<and> ws_requests w' = ws_requests w \<and>
     ws_answers w' = ws_answers w \<and> ws_replies w' = (r, exec_result out) # ws_replies w \<and>
     map snd (ws_sent w') = (case exec_outbound_task out of
        Some t \<Rightarrow> (if arrived then [t] else []) @ map snd (ws_sent w)
      | None \<Rightarrow> map snd (ws_sent w))"

lemma create_run:
  assumes idle: "ws_control w = ControlIdle" and cmd: "command_of r = CreateQuantumTask cmd"
    and ex: "executeControlCommand (command_of r) config reg (ws_forwarder w) (ws_store w) = (out, f, tasks)"
  shows "\<exists>w'. runs_to config reg w w' \<and> control_ran w r out f tasks arrived w'"
proof -
  obtain k f' where n: "nextTaskId (ws_forwarder w) = (k, f')" by fastforce
  let ?t = "outgoing_task config k (applyCreateTaskCommand QuantumTask_default cmd)"
  define w1 where "w1 = w\<lparr>ws_forwarder := f', ws_control := ControlAssigned k r cmd,
      ws_issued := ws_issued w + 1\<rparr>"
  define w2 where "w2 = w1\<lparr>ws_store := addControlTask k (ws_store w1),
      ws_control := ControlSending k r ?t, ws_registered := (ws_registered w1)(k \<mapsto> control_entry k)\<rparr>"
  define w3 where "w3 = (if arrived
      then w2\<lparr>ws_sent := (k, ?t) # ws_sent w2,
        ws_control := ControlReplying r (TaskCreatedResult (to_uint64 (qt_task_id ?t)))\<rparr>
      else w2\<lparr>ws_control := ControlReplying r (TaskCreatedResult (to_uint64 (qt_task_id ?t)))\<rparr>)"
  define w4 where "w4 = w3\<lparr>ws_control := ControlIdle,
      ws_replies := (r, TaskCreatedResult (to_uint64 (qt_task_id ?t))) # ws_replies w3\<rparr>"
  from ws_step.control_create [OF idle cmd n] have "ws_step config reg w w1" by (simp add: w1_def)
  then have r1: "runs_to config reg w w1" by (rule runs_to_steps) (simp add: w1_def)
  have "ws_control w1 = ControlAssigned k r cmd" by (simp add: w1_def)
  from ws_step.control_register [OF this] have "ws_step config reg w1 w2" by (simp add: w2_def)
  then have r2: "runs_to config reg w w2" by (rule runs_to_steps(2) [OF r1]) (simp add: w2_def)
  have pc2: "ws_control w2 = ControlSending k r ?t" by (simp add: w2_def)
  have "ws_step config reg w2 w3"
    using ws_step.control_send [OF pc2] ws_step.control_send_fail [OF pc2] unfolding w3_def by simp
  then have r3: "runs_to config reg w w3" by (rule runs_to_steps(2) [OF r2]) (simp add: w3_def)
  have "ws_control w3 = ControlReplying r (TaskCreatedResult (to_uint64 (qt_task_id ?t)))"
    by (simp add: w3_def)
  from ws_step.control_reply [OF this] have "ws_step config reg w3 w4" by (simp add: w4_def)
  then have "runs_to config reg w w4" by (rule runs_to_steps(2) [OF r3]) (simp add: w4_def)
  moreover have "out = \<lparr>exec_result = TaskCreatedResult (to_uint64 (qt_task_id ?t)),
      exec_outbound_task = Some ?t\<rparr>" "f = f'" "tasks = addControlTask k (ws_store w)"
    using ex by (auto simp: cmd createControlTask_steps n)
  then have "control_ran w r out f tasks arrived w4"
    by (simp add: control_ran_def w4_def w3_def w2_def w1_def)
  ultimately show ?thesis by blast
qed

lemma reply_run:
  assumes "runs_to config reg w w1" and "ws_control w1 = ControlReplying r c"
    and "ws_task w1 = ws_task w \<and> ws_result w1 = ws_result w \<and> ws_requests w1 = ws_requests w \<and>
      ws_answers w1 = ws_answers w \<and> ws_replies w1 = ws_replies w \<and> ws_sent w1 = ws_sent w"
  shows "\<exists>w'. runs_to config reg w w' \<and> control_ran w r \<lparr>exec_result = c, exec_outbound_task = None\<rparr>
    (ws_forwarder w1) (ws_store w1) arrived w'"
  using runs_to_steps(2) [OF assms(1) ws_step.control_reply [OF assms(2)]] assms(3)
  by (intro exI [of _ "w1\<lparr>ws_control := ControlIdle, ws_replies := (r, c) # ws_replies w1\<rparr>"])
    (simp add: control_ran_def)

lemma query_run:
  assumes idle: "ws_control w = ControlIdle" and q: "simple_query (command_of r) reg (ws_store w) = Some c"
    and ex: "executeControlCommand (command_of r) config reg (ws_forwarder w) (ws_store w) = (out, f, tasks)"
  shows "\<exists>w'. runs_to config reg w w' \<and> control_ran w r out f tasks arrived w'"
proof -
  let ?w1 = "w\<lparr>ws_control := ControlReplying r c\<rparr>"
  have "runs_to config reg w ?w1"
    by (rule runs_to_steps(1)) (simp_all add: ws_step.control_query [OF idle q])
  then have "\<exists>w'. runs_to config reg w w' \<and> control_ran w r \<lparr>exec_result = c, exec_outbound_task = None\<rparr>
      (ws_forwarder ?w1) (ws_store ?w1) arrived w'"
    by (rule reply_run) simp_all
  then show ?thesis using ex execute_query_steps [OF q] by simp
qed

lemma fetch_run:
  assumes idle: "ws_control w = ControlIdle" and q: "fetch_query (command_of r) = Some (k, b)"
    and ex: "executeControlCommand (command_of r) config reg (ws_forwarder w) (ws_store w) = (out, f, tasks)"
  shows "\<exists>w'. runs_to config reg w w' \<and> control_ran w r out f tasks arrived w'"
proof (cases "status k (ws_store w) = Waiting")
  case True
  let ?w1 = "w\<lparr>ws_control := ControlReplying r (ControlError JobIsWaiting)\<rparr>"
  have "runs_to config reg w ?w1"
    by (rule runs_to_steps(1)) (simp_all add: ws_step.control_fetch_waiting [OF idle q True])
  then have "\<exists>w'. runs_to config reg w w' \<and>
      control_ran w r \<lparr>exec_result = ControlError JobIsWaiting, exec_outbound_task = None\<rparr>
      (ws_forwarder ?w1) (ws_store ?w1) arrived w'"
    by (rule reply_run) simp_all
  then show ?thesis using ex execute_fetch_steps [OF q] True by simp
next
  case False
  obtain c tasks' where t: "takeCompletedControlTask k (ws_store w) = (c, tasks')" by fastforce
  let ?w1 = "w\<lparr>ws_control := ControlTaking k b r\<rparr>"
  let ?w2 = "?w1\<lparr>ws_store := tasks', ws_control := ControlReplying r (fetch_result b c),
      ws_fetched := (if c = None then ws_fetched ?w1 else k # ws_fetched ?w1)\<rparr>"
  have "runs_to config reg w ?w1"
    by (rule runs_to_steps(1)) (simp_all add: ws_step.control_fetch [OF idle q False])
  moreover have "ws_step config reg ?w1 ?w2" by (rule ws_step.control_take) (simp_all add: t)
  ultimately have "runs_to config reg w ?w2" by (rule runs_to_steps(2)) simp
  then have "\<exists>w'. runs_to config reg w w' \<and>
      control_ran w r \<lparr>exec_result = fetch_result b c, exec_outbound_task = None\<rparr>
      (ws_forwarder ?w2) (ws_store ?w2) arrived w'"
    by (rule reply_run) simp_all
  then show ?thesis using ex execute_fetch_steps [OF q] False t by simp
qed

lemma control_run:
  assumes "ws_control w = ControlIdle"
    and "executeControlCommand (command_of r) config reg (ws_forwarder w) (ws_store w) = (out, f, tasks)"
  shows "\<exists>w'. runs_to config reg w w' \<and> control_ran w r out f tasks arrived w'"
proof (cases "command_of r")
  case (CreateQuantumTask cmd)
  then show ?thesis by (rule create_run [OF assms(1) _ assms(2)])
next
  case (GetTaskResultCommand k)
  then have "fetch_query (command_of r) = Some (k, False)" by (simp add: fetch_query_def)
  then show ?thesis by (rule fetch_run [OF assms(1) _ assms(2)])
next
  case (GetCancelReasonCommand k)
  then have "fetch_query (command_of r) = Some (k, True)" by (simp add: fetch_query_def)
  then show ?thesis by (rule fetch_run [OF assms(1) _ assms(2)])
qed (rule query_run [OF assms(1) _ assms(2)], simp add: simple_query_def)+

text \<open>What a recorded send changes of the memory.\<close>

lemma sv_log_unless_ok [simp]:
  "sv_forwarder (log_unless_ok m st s) = sv_forwarder s" "sv_tasks (log_unless_ok m st s) = sv_tasks s"
  "sv_world (log_unless_ok m st s) = sv_world s"
  by (simp_all add: log_unless_ok_def)

lemma send_response_seen:
  "rc_requests (snd (wo_send_response (recording ops) a m args v)) = rc_requests v"
  "rc_tasks (snd (wo_send_response (recording ops) a m args v)) = rc_tasks v"
  "rc_answers (snd (wo_send_response (recording ops) a m args v)) = rc_answers v"
  by (simp_all add: recording_def rec_send_def Let_def case_prod_beta)

lemma send_task_seen:
  "rc_requests (snd (wo_send_task (recording ops) a m args v)) = rc_requests v"
  "rc_tasks (snd (wo_send_task (recording ops) a m args v)) =
     (if ok (fst (wo_send_task ops a m args (rc_world v))) then [m] else []) @ rc_tasks v"
  "rc_answers (snd (wo_send_task (recording ops) a m args v)) = rc_answers v"
  by (simp_all add: recording_def rec_send_def Let_def case_prod_beta)

lemma send_result_seen:
  "rc_requests (snd (wo_send_result (recording ops) a m args v)) = rc_requests v"
  "rc_tasks (snd (wo_send_result (recording ops) a m args v)) = rc_tasks v"
  "rc_answers (snd (wo_send_result (recording ops) a m args v)) =
     (if ok (fst (wo_send_result ops a m args (rc_world v))) then [(addr_name a, m)] else []) @ rc_answers v"
  "rc_honest (snd (wo_send_result (recording ops) a m args v)) = rc_honest v"
  by (simp_all add: recording_def rec_send_def Let_def case_prod_beta)

lemmas sends_seen = send_response_seen send_task_seen send_result_seen

lemma receive_request_seen:
  "wo_receive_request (recording ops) a args v = map_option (\<lambda>(r, u). (r, v\<lparr>rc_world := u\<rparr>))
     (wo_receive_request ops a args (rc_world v))"
  by (auto simp: recording_def rec_receive_def split: option.splits sum.splits)

lemma receive_result_seen:
  "wo_receive_result (recording ops) a args v = map_option (\<lambda>(r, u). (r, case r of
       Inl e \<Rightarrow> v\<lparr>rc_world := u\<rparr>
     | Inr m \<Rightarrow> v\<lparr>rc_world := u,
         rc_honest := (rc_honest v \<and> qr_task_id m \<in> qt_task_id ` set (rc_tasks v))\<rparr>))
     (wo_receive_result ops a args (rc_world v))"
  by (auto simp: recording_def rec_receive_def split: option.splits sum.splits)

lemma control_round_runs:
  assumes round: "control_worker_round (wo_receive_request (recording ops)) (wo_send_task (recording ops))
      (wo_send_response (recording ops)) config reg s = Some s'"
    and "serves s w"
  shows "\<exists>w'. runs_to (forward_config_of config) reg w w' \<and> serves s' w'"
proof -
  let ?src = "\<lparr>addr_name = queue_control_request (queue_names config)\<rparr>"
  let ?fc = "forward_config_of config"
  obtain r v where recv: "wo_receive_request ops ?src worker_args (rc_world (sv_world s)) = Some (r, v)"
    using round by (cases "wo_receive_request ops ?src worker_args (rc_world (sv_world s))")
      (auto simp: control_worker_round_def receive_request_seen)
  show ?thesis
  proof (cases r)
    case (Inl e)
    then have "s' = receive_failed ''Failed to receive control APIRequest: '' e
        (s\<lparr>sv_world := (sv_world s)\<lparr>rc_world := v\<rparr>\<rparr>)"
      using round recv by (simp add: control_worker_round_def receive_request_seen)
    then show ?thesis using serves_frame(1) [OF assms(2)] runs_to_refl by (intro exI [of _ w]) simp
  next
    case (Inr request)
    have idle: "ws_control w = ControlIdle" and eqs: "ws_forwarder w = sv_forwarder s" "ws_store w = sv_tasks s"
      using assms(2) by (simp_all add: serves_def)
    obtain out f tasks where ex: "executeControlCommand (command_of request) ?fc reg (ws_forwarder w)
        (ws_store w) = (out, f, tasks)" by (metis prod_cases3)
    define arrived where "arrived = (case exec_outbound_task out of None \<Rightarrow> False
      | Some t \<Rightarrow> ok (fst (wo_send_task ops \<lparr>addr_name = queue_qrm_task (queue_names config)\<rparr> t default_send_args v)))"
    obtain w' where w': "runs_to ?fc reg w w'" "control_ran w request out f tasks arrived w'"
      using control_run [OF idle ex] by blast
    have ex': "executeControlCommand (dec_command (protocol_decode (controlProtocolFor request) request)) ?fc reg
        (sv_forwarder s) (sv_tasks s) = (out, f, tasks)"
      using ex by (simp add: command_of_def eqs)
    have p: "control_process request ?fc reg (sv_forwarder s) (sv_tasks s) =
        (\<lparr>outbound_task = exec_outbound_task out, response = protocol_encode (controlProtocolFor request)
           (exec_result out) (dec_response_queue (protocol_decode (controlProtocolFor request) request))\<rparr>, f, tasks)"
      unfolding control_process_def Let_def ex' by simp
    have "sv_forwarder s' = f \<and> sv_tasks s' = tasks \<and>
        rc_requests (sv_world s') = rc_requests (sv_world s) \<and> rc_answers (sv_world s') = rc_answers (sv_world s) \<and>
        rc_tasks (sv_world s') = (case exec_outbound_task out of
           Some t \<Rightarrow> (if arrived then [t] else []) @ rc_tasks (sv_world s) | None \<Rightarrow> rc_tasks (sv_world s))"
      using round
      by (cases "exec_outbound_task out")
        (auto simp: control_worker_round_def receive_request_seen recv Inr p Let_def case_prod_beta
          arrived_def sends_seen split: if_splits)
    then have "serves s' w'"
      using assms(2) w'(2) unfolding serves_def control_ran_def by (cases "exec_outbound_task out") simp_all
    with w'(1) show ?thesis by blast
  qed
qed

subsection \<open>The result worker\<close>

lemma result_run:
  assumes idle: "ws_result w = ResultIdle" and sent: "qr_task_id result \<in> qt_task_id ` snd ` set (ws_sent w)"
    and p: "processResult result (ws_store w) = (outcome, tasks)"
  shows "\<exists>w'. runs_to config reg w w' \<and> ws_forwarder w' = ws_forwarder w \<and> ws_store w' = tasks \<and>
    ws_task w' = ws_task w \<and> ws_control w' = ws_control w \<and> ws_result w' = ResultIdle \<and>
    ws_requests w' = ws_requests w \<and> ws_sent w' = ws_sent w \<and>
    map snd (ws_answers w') = (if arrived \<and> outcome_kind outcome = DirectResult
      then [(direct_result_destination outcome, the (direct_result outcome))] else []) @ map snd (ws_answers w)"
proof -
  obtain k task where t: "(k, task) \<in> set (ws_sent w)" "qr_task_id result = qt_task_id task"
    using sent by auto
  obtain e tasks1 where tk: "takePending (to_uint64 (qr_task_id result)) (ws_store w) = (e, tasks1)" by fastforce
  show ?thesis
  proof (cases e)
    case None
    let ?w1 = "w\<lparr>ws_store := tasks1\<rparr>"
    have "ws_step config reg w ?w1" by (rule ws_step.result_unknown [OF idle t tk [unfolded None]])
    then have "runs_to config reg w ?w1" by (rule runs_to_steps(1)) simp
    then show ?thesis using p tk None idle
      by (intro exI [of _ ?w1]) (auto simp: processResult_def)
  next
    case (Some pt)
    show ?thesis
    proof (cases "kind pt")
      case ControlTask
      let ?w1 = "w\<lparr>ws_store := tasks1, ws_result := ResultStoring k (completed_task pt result),
          ws_taken := k # ws_taken w\<rparr>"
      let ?w2 = "?w1\<lparr>ws_store := storeCompletedControlTask (completed_task pt result) (ws_store ?w1),
          ws_result := ResultIdle\<rparr>"
      have "ws_step config reg w ?w1"
        by (rule ws_step.result_control [OF idle t tk [unfolded Some] ControlTask])
      then have "runs_to config reg w ?w1" by (rule runs_to_steps(1)) simp
      moreover have "ws_step config reg ?w1 ?w2" by (rule ws_step.result_store) simp
      ultimately have "runs_to config reg w ?w2" by (rule runs_to_steps(2)) simp
      then show ?thesis using p tk Some ControlTask
        by (intro exI [of _ ?w2]) (auto simp: processResult_def)
    next
      case DirectTask
      let ?d = "original_result_destination pt"
      let ?r = "result\<lparr>qr_task_id := to_int32 (original_task_id pt), qr_destination := ?d\<rparr>"
      let ?w1 = "w\<lparr>ws_store := tasks1, ws_result := ResultSending k ?d ?r, ws_taken := k # ws_taken w\<rparr>"
      let ?w2 = "if arrived then ?w1\<lparr>ws_result := ResultIdle, ws_answers := (k, ?d, ?r) # ws_answers ?w1\<rparr>
          else ?w1\<lparr>ws_result := ResultIdle\<rparr>"
      have "ws_step config reg w ?w1"
        by (rule ws_step.result_direct [OF idle t tk [unfolded Some] DirectTask])
      then have r1: "runs_to config reg w ?w1" by (rule runs_to_steps(1)) simp
      have pc: "ws_result ?w1 = ResultSending k ?d ?r" by simp
      have "ws_step config reg ?w1 ?w2"
        using ws_step.result_send [OF pc] ws_step.result_send_fail [OF pc] by (cases arrived) simp_all
      then have "runs_to config reg w ?w2" by (rule runs_to_steps(2) [OF r1]) simp
      then show ?thesis using p tk Some DirectTask
        by (intro exI [of _ ?w2]) (auto simp: processResult_def)
    qed
  qed
qed

lemma result_round_runs:
  assumes round: "result_worker_round (wo_receive_result (recording ops)) (wo_send_result (recording ops)) config s =
      Some s'"
    and "serves s w" and honest: "rc_honest (sv_world s')"
  shows "\<exists>w'. runs_to (forward_config_of config) reg w w' \<and> serves s' w'"
proof -
  let ?src = "\<lparr>addr_name = queue_result (queue_names config)\<rparr>"
  obtain r v where recv: "wo_receive_result ops ?src worker_args (rc_world (sv_world s)) = Some (r, v)"
    using round by (cases "wo_receive_result ops ?src worker_args (rc_world (sv_world s))")
      (auto simp: result_worker_round_def receive_result_seen)
  show ?thesis
  proof (cases r)
    case (Inl e)
    then have "s' = receive_failed ''Failed to receive QuantumResult: '' e
        (s\<lparr>sv_world := (sv_world s)\<lparr>rc_world := v\<rparr>\<rparr>)"
      using round recv by (simp add: result_worker_round_def receive_result_seen)
    then show ?thesis using serves_frame(1) [OF assms(2)] runs_to_refl by (intro exI [of _ w]) simp
  next
    case (Inr result)
    have idle: "ws_result w = ResultIdle" and eqs: "ws_store w = sv_tasks s"
      and tasks: "map snd (ws_sent w) = rc_tasks (sv_world s)"
      using assms(2) by (simp_all add: serves_def)
    obtain outcome tasks where p: "processResult result (ws_store w) = (outcome, tasks)" by fastforce
    have "qr_task_id result \<in> qt_task_id ` set (rc_tasks (sv_world s))"
      using round honest recv Inr
      by (auto simp: result_worker_round_def receive_result_seen Let_def case_prod_beta sends_seen
          split: if_splits)
    then have sent: "qr_task_id result \<in> qt_task_id ` snd ` set (ws_sent w)"
      unfolding tasks [symmetric] by simp
    define arrived where "arrived = ok (fst (wo_send_result ops \<lparr>addr_name = direct_result_destination outcome\<rparr>
        (the (direct_result outcome)) default_send_args v))"
    obtain w' where w': "runs_to (forward_config_of config) reg w w'" "ws_forwarder w' = ws_forwarder w"
      "ws_store w' = tasks" "ws_task w' = ws_task w" "ws_control w' = ws_control w" "ws_result w' = ResultIdle"
      "ws_requests w' = ws_requests w" "ws_sent w' = ws_sent w"
      "map snd (ws_answers w') = (if arrived \<and> outcome_kind outcome = DirectResult
        then [(direct_result_destination outcome, the (direct_result outcome))] else []) @ map snd (ws_answers w)"
      using result_run [OF idle sent p, of "forward_config_of config" reg arrived] by blast
    have obs: "sv_forwarder s = ws_forwarder w" "rc_requests (sv_world s) = map snd (ws_requests w)"
      "rc_tasks (sv_world s) = map snd (ws_sent w)" "rc_answers (sv_world s) = map snd (ws_answers w)"
      "ws_task w = TaskIdle" "ws_control w = ControlIdle"
      using assms(2) by (simp_all add: serves_def)
    have "serves s' w'"
    proof (cases "outcome_kind outcome = DirectResult")
      case True
      then obtain x where x: "direct_result outcome = Some x"
        using p by (auto simp: processResult_def Let_def split: prod.splits option.splits if_splits)
      from round have "sv_forwarder s' = sv_forwarder s" "sv_tasks s' = tasks"
        "rc_requests (sv_world s') = rc_requests (sv_world s)" "rc_tasks (sv_world s') = rc_tasks (sv_world s)"
        "rc_answers (sv_world s') = (if arrived then [(direct_result_destination outcome, x)] else []) @
           rc_answers (sv_world s)"
        by (simp_all add: result_worker_round_def receive_result_seen recv Inr p [unfolded eqs] True x Let_def
            case_prod_beta sends_seen arrived_def split del: if_split) (auto simp: sends_seen)
      then show ?thesis unfolding serves_def using w'(2-9) True x by (simp add: obs)
    next
      case False
      with round have "sv_forwarder s' = sv_forwarder s" "sv_tasks s' = tasks"
        "rc_requests (sv_world s') = rc_requests (sv_world s)" "rc_tasks (sv_world s') = rc_tasks (sv_world s)"
        "rc_answers (sv_world s') = rc_answers (sv_world s)"
        by (auto simp: result_worker_round_def receive_result_seen recv Inr p [unfolded eqs] Let_def)
      then show ?thesis unfolding serves_def using w'(2-9) False by (simp add: obs)
    qed
    with w'(1) show ?thesis by blast
  qed
qed

section \<open>Schedules of rounds\<close>

lemma worker_round_runs:
  assumes "worker_round k (recording ops) config reg s = Some s'" and "serves s w"
    and "rc_honest (sv_world s')"
  shows "\<exists>w'. runs_to (forward_config_of config) reg w w' \<and> serves s' w'"
  using assms task_round_runs [OF _ assms(2)] control_round_runs [OF _ assms(2)]
    result_round_runs [OF _ assms(2)]
  by (cases k) simp_all

text \<open>A dishonest result is never forgotten.\<close>

lemma honest_ops:
  "rc_honest (snd (wo_send_task (recording ops) a t args v)) = rc_honest v"
  "rc_honest (snd (wo_send_response (recording ops) a m args v)) = rc_honest v"
  "wo_receive_task (recording ops) a rargs v = Some (x, v') \<Longrightarrow> rc_honest v' = rc_honest v"
  by (auto simp: recording_def rec_send_def rec_receive_def Let_def case_prod_beta
      split: option.splits sum.splits)

lemma honest_frame [simp]:
  "sv_world (receive_failed m e s) = sv_world s"
  by (simp add: receive_failed_def)

lemma worker_round_honest:
  assumes "worker_round k (recording ops) config reg s = Some s'" and "rc_honest (sv_world s')"
  shows "rc_honest (sv_world s)"
proof (cases k)
  case TaskWorker
  with assms show ?thesis
    by (auto simp: task_worker_round_def Let_def case_prod_beta honest_ops(1) split: option.splits sum.splits
        dest!: honest_ops(3))
next
  case ControlWorker
  with assms show ?thesis
    by (auto simp: control_worker_round_def receive_request_seen Let_def case_prod_beta honest_ops
        split: option.splits sum.splits if_splits)
next
  case ResultWorker
  with assms show ?thesis
    by (auto simp: result_worker_round_def receive_result_seen Let_def case_prod_beta send_result_seen
        split: option.splits sum.splits if_splits)
qed

lemma worker_rounds_honest:
  "worker_rounds ks (recording ops) config reg s = Some s' \<Longrightarrow> rc_honest (sv_world s') \<Longrightarrow>
   rc_honest (sv_world s)"
  by (induction ks arbitrary: s) (auto split: bind_splits dest: worker_round_honest)

lemma worker_rounds_run:
  assumes "worker_rounds ks (recording ops) config reg s = Some s'" and "serves s w"
    and "rc_honest (sv_world s')" and "ws_reachable (forward_config_of config) reg uid w"
  shows "\<exists>w'. ws_reachable (forward_config_of config) reg uid w' \<and> serves s' w' \<and>
    ws_issued w' \<le> ws_issued w + length ks"
  using assms
proof (induction ks arbitrary: s w)
  case Nil
  then show ?case by auto
next
  case (Cons k ks)
  from Cons.prems(1) obtain s1 where s1: "worker_round k (recording ops) config reg s = Some s1"
    "worker_rounds ks (recording ops) config reg s1 = Some s'" by (auto split: bind_splits)
  have "rc_honest (sv_world s1)" by (rule worker_rounds_honest [OF s1(2) Cons.prems(3)])
  then obtain w1 where w1: "runs_to (forward_config_of config) reg w w1" "serves s1 w1"
    using worker_round_runs [OF s1(1) Cons.prems(2)] by blast
  obtain w' where "ws_reachable (forward_config_of config) reg uid w'" "serves s' w'"
    "ws_issued w' \<le> ws_issued w1 + length ks"
    using Cons.IH [OF s1(2) w1(2) Cons.prems(3) runs_to_reachable [OF w1(1) Cons.prems(4)]] by blast
  moreover have "ws_issued w1 \<le> Suc (ws_issued w)" using w1(1) by (simp add: runs_to_def)
  ultimately show ?case by (intro exI [of _ w']) simp
qed

text \<open>Keys without repetition: values matched by key are matched with their multiplicity.\<close>

lemma map_values: "map (\<lambda>(k, a). h a) xs = map h (map snd xs)"
  by (simp add: case_prod_beta)

lemma keyed_subset_mset:
  assumes "distinct (map fst xs)" and "distinct (map fst ys)"
    and "\<And>k a. (k, a) \<in> set xs \<Longrightarrow> \<exists>b. (k, b) \<in> set ys \<and> f a = g b"
  shows "mset (map (\<lambda>(k, a). f a) xs) \<subseteq># mset (map (\<lambda>(k, b). g b) ys)"
proof -
  let ?h = "\<lambda>k. g (the (map_of ys k))"
  have "map (\<lambda>(k, a). f a) xs = map ?h (map fst xs)"
    using assms(3) map_of_is_SomeI [OF assms(2)] by fastforce
  moreover have "map (\<lambda>(k, b). g b) ys = map ?h (map fst ys)"
    using map_of_is_SomeI [OF assms(2)] by fastforce
  moreover have "set (map fst xs) \<subseteq> set (map fst ys)"
    using assms(3) by (auto simp: image_iff) (metis fst_conv)
  then have "mset_set (set (map fst xs)) \<subseteq># mset_set (set (map fst ys))"
    by (intro subset_imp_msubset_mset_set) simp_all
  then have "mset (map fst xs) \<subseteq># mset (map fst ys)"
    unfolding mset_set_set [OF assms(1)] mset_set_set [OF assms(2)] .
  ultimately show ?thesis by (metis image_mset_subseteq_mono mset_map)
qed

section \<open>Properties\<close>

text \<open>
  C6: the service implements the step system. Whatever the messengers do, every schedule of rounds of
  the three workers is a run of the atomic steps: it ends in a reachable state with the same
  identifier counter and task store, all workers idle, in which the recorded requests, sends and
  answers are those of the service. The only requirement is on the environment: no result may
  carry an identifier that was not handed out.
\<close>

theorem service_implements_steps:
  assumes "worker_rounds ks (recording ops) config reg (service_initial uid v) = Some s"
    and "rc_honest (sv_world s)"
  shows "\<exists>w. ws_reachable (forward_config_of config) reg uid w \<and> serves s w \<and> ws_issued w \<le> length ks"
  using worker_rounds_run [OF assms(1) serves_initial assms(2) ws_reachable.init]
  by (simp add: workers_initial_def)

text \<open>A service whose clients ask the same thing again and whose resource manager answers task 11 again.\<close>

definition echo_ops :: "unit worker_ops" where
  "echo_ops = \<lparr>wo_receive_task = (\<lambda>a args w. Some (Inr run_request, w)),
     wo_receive_request = (\<lambda>a args w. Some (Inl (timeout ''receive timed out''), w)),
     wo_receive_result = (\<lambda>a args w. Some (Inr (QuantumResult_default\<lparr>qr_task_id := 11\<rparr>), w)),
     wo_send_task = (\<lambda>a m args w. (success, w)), wo_send_response = (\<lambda>a m args w. (success, w)),
     wo_send_result = (\<lambda>a m args w. (success, w))\<rparr>"

definition echo_config :: Config where
  "echo_config = makeDefaultConfig \<lparr>path_runtime_dir = [], path_log_dir = [], path_state_file = []\<rparr>"

lemma echo_rounds:
  "\<exists>s. worker_rounds [TaskWorker, ControlWorker, ResultWorker] (recording echo_ops) echo_config reg
     (service_initial 11 ()) = Some s \<and> rc_honest (sv_world s) \<and> rc_requests (sv_world s) = [run_request] \<and>
     rc_answers (sv_world s) = [(''client'', QuantumResult_default\<lparr>qr_task_id := 7, qr_destination := ''client''\<rparr>)]"
proof -
  let ?fc = "forward_config_of echo_config"
  let ?p = "direct_entry 11 run_request"
  let ?tasks = "addDirectTask ?p TaskStore_empty"
  obtain f where f: "nextTaskId (Forward_init 11) = (11, f)" using run_ids(4) by blast
  have r: "to_uint64 (qr_task_id (QuantumResult_default\<lparr>qr_task_id := 11\<rparr>)) = 11" by (simp add: run_ids)
  obtain t2 where t: "takePending 11 ?tasks = (Some ?p, t2)"
    by (simp add: takePending_def addDirectTask_def TaskStore_empty_def direct_entry_def um_laws)
  have p: "processResult (QuantumResult_default\<lparr>qr_task_id := 11\<rparr>) ?tasks =
      (\<lparr>outcome_kind = DirectResult, direct_result = Some (QuantumResult_default\<lparr>qr_task_id := 7,
          qr_destination := ''client''\<rparr>), direct_result_destination = ''client''\<rparr>, t2)"
    unfolding processResult_def r Let_def t by (simp add: direct_entry_def run_request_def run_ids)
  show ?thesis
    by (simp add: task_worker_round_def control_worker_round_def result_worker_round_def recording_def
        rec_receive_def rec_send_def echo_ops_def service_initial_def forwardDirectTask_steps f p
        log_unless_ok_def receive_failed_def run_ids Let_def)
qed

theorem service_implements_steps_witness:
  "\<exists>s w. worker_rounds [TaskWorker, ControlWorker, ResultWorker] (recording echo_ops) echo_config ResourceRegistry_init
     (service_initial 11 ()) = Some s \<and>
     ws_reachable (forward_config_of echo_config) ResourceRegistry_init 11 w \<and> serves s w \<and> ws_answers w \<noteq> []"
proof -
  obtain s where s: "worker_rounds [TaskWorker, ControlWorker, ResultWorker] (recording echo_ops) echo_config ResourceRegistry_init
     (service_initial 11 ()) = Some s" "rc_honest (sv_world s)" "rc_answers (sv_world s) \<noteq> []"
    using echo_rounds [of ResourceRegistry_init] by auto
  from service_implements_steps [OF s(1,2)] s(1,3) show ?thesis by (auto simp: serves_def)
qed

text \<open>
  C1: no client gets a foreign answer or two answers. After any schedule of rounds that stays within
  the identifier space, with any messengers and any honest resource manager that may answer tasks
  repeatedly and in any order, the answers sent, as pairs of a queue and a task id, are contained
  in the requests received, with their multiplicity.
\<close>

theorem service_answers_contained:
  assumes "worker_rounds ks (recording ops) config reg (service_initial uid v) = Some s"
    and "rc_honest (sv_world s)" and "unat uid < 10000" and "length ks * 10000 + unat uid < 2 ^ 31"
  shows "mset (map (\<lambda>(d, r). (d, qr_task_id r)) (rc_answers (sv_world s))) \<subseteq>#
    mset (map (\<lambda>q. (qt_result_destination q, qt_task_id q)) (rc_requests (sv_world s)))"
proof -
  obtain w where w: "ws_reachable (forward_config_of config) reg uid w" "serves s w" "ws_issued w \<le> length ks"
    using worker_rounds_run [OF assms(1) serves_initial assms(2) ws_reachable.init]
    by (auto simp: workers_initial_def)
  then have "ids_fit uid w" using assms(3,4) by (simp add: ids_fit_def)
  note inv = reachable_invariants [OF w(1) this]
  have "mset (map (\<lambda>(k, a). (\<lambda>(d, r). (d, qr_task_id r)) a) (ws_answers w)) \<subseteq>#
      mset (map (\<lambda>(k, q). (qt_result_destination q, qt_task_id q)) (ws_requests w))"
  proof (rule keyed_subset_mset)
    show "distinct (map fst (ws_answers w))" "distinct (map fst (ws_requests w))"
      using inv by (simp_all add: inv_ids_def inv_answers_def)
    have ok: "\<forall>k d r. (k, d, r) \<in> set (ws_answers w) \<longrightarrow> answer_ok w k d r"
      using inv unfolding inv_answers_def by blast
    show "\<exists>q. (k, q) \<in> set (ws_requests w) \<and>
        (\<lambda>(d, r). (d, qr_task_id r)) a = (qt_result_destination q, qt_task_id q)"
      if "(k, a) \<in> set (ws_answers w)" for k a
      using ok that unfolding answer_ok_def by (cases a) (metis case_prod_conv)
  qed
  moreover have "map snd (ws_answers w) = rc_answers (sv_world s)" "map snd (ws_requests w) = rc_requests (sv_world s)"
    using w(2) by (simp_all add: serves_def)
  then have "map (\<lambda>(k, a). (\<lambda>(d, r). (d, qr_task_id r)) a) (ws_answers w) =
      map (\<lambda>(d, r). (d, qr_task_id r)) (rc_answers (sv_world s))"
    "map (\<lambda>(k, q). (qt_result_destination q, qt_task_id q)) (ws_requests w) =
      map (\<lambda>q. (qt_result_destination q, qt_task_id q)) (rc_requests (sv_world s))"
    unfolding map_values [of _ "ws_answers w"] map_values [of _ "ws_requests w"] by simp_all
  ultimately show ?thesis by simp
qed

theorem service_answers_contained_witness:
  "\<exists>s. worker_rounds [TaskWorker, ControlWorker, ResultWorker] (recording echo_ops) echo_config ResourceRegistry_init
     (service_initial 11 ()) = Some s \<and> {#(''client'', 7)#} \<subseteq>#
     mset (map (\<lambda>q. (qt_result_destination q, qt_task_id q)) (rc_requests (sv_world s)))"
proof -
  obtain s where s: "worker_rounds [TaskWorker, ControlWorker, ResultWorker] (recording echo_ops) echo_config ResourceRegistry_init
      (service_initial 11 ()) = Some s" "rc_honest (sv_world s)"
      "rc_answers (sv_world s) = [(''client'', QuantumResult_default\<lparr>qr_task_id := 7, qr_destination := ''client''\<rparr>)]"
    using echo_rounds [of ResourceRegistry_init] by auto
  from service_answers_contained [OF s(1,2)] s(1,3) show ?thesis by simp
qed

end
