(* ===== verification/Qrm_Config.thy ===== *)
theory Qrm_Config
  imports QOffload_Logger Rabbit_Transport
begin

text \<open>
  Configuration and logging of the QRM workflow example (\<^verbatim>\<open>examples/qrm_workflow/src/Config.cpp\<close>,
  \<^verbatim>\<open>include/Config.hpp\<close>, \<^verbatim>\<open>include/Logger.hpp\<close>, \<^verbatim>\<open>ConfigDefaults.hpp.in\<close>). Unlike the framework's
  own configuration it never fails: an integer variable that does not parse is replaced by its
  default. The two directories that the build substitutes are a parameter. \<open>ndebug\<close> says whether
  the program was built without assertions; a failed assertion is the value \<open>Aborts\<close>.
\<close>

text \<open>How a C++ computation ends, beside returning.\<close>

datatype 'a outcome = Returns 'a | Throws string | Aborts | Undefined

fun bind_outcome :: "'a outcome \<Rightarrow> ('a \<Rightarrow> 'b outcome) \<Rightarrow> 'b outcome" where
  "bind_outcome (Returns x) f = f x"
| "bind_outcome (Throws e) f = Throws e"
| "bind_outcome Aborts f = Aborts"
| "bind_outcome Undefined f = Undefined"

definition assertion :: "bool \<Rightarrow> bool \<Rightarrow> 'a outcome \<Rightarrow> 'a outcome" where
  "assertion ndebug b k = (if b \<or> ndebug then k else Aborts)"

section \<open>Configuration\<close>

record qrm_RabbitMqConfig =
  qrm_host :: string
  qrm_port :: int32
  qrm_user :: string
  qrm_password :: string
  qrm_vhost :: string

record qrm_QueueConfig =
  queue_scheduler :: string
  queue_compiler :: string
  queue_results :: string
  queue_submitter :: string

record qrm_LoggingConfig =
  qrm_log_dir :: string
  daemon_logger :: string
  scheduler_logger :: string
  compiler_logger :: string
  submitter_logger :: string
  daemon_log :: string
  scheduler_log :: string
  compiler_log :: string
  submitter_log :: string

record qrm_PathConfig =
  benchmark_dir :: string
  qdmi_device_objs_dir :: string

record QDMIDevices =
  qdmi_device_obj :: string
  qdmi_device_prefix :: string

record qrm_Config =
  qrm_amqp :: qrm_RabbitMqConfig
  qrm_queues :: qrm_QueueConfig
  qrm_logging :: qrm_LoggingConfig
  qrm_paths :: qrm_PathConfig
  qrm_devices :: QDMIDevices

text \<open>The directories substituted when the project is configured.\<close>

record qrm_build =
  build_log_dir :: string
  build_benchmark_dir :: string

definition qrm_getEnvOr :: "env \<Rightarrow> string \<Rightarrow> string \<Rightarrow> string" where
  "qrm_getEnvOr env name fallback = (case env name of Some value \<Rightarrow> value | None \<Rightarrow> fallback)"

definition qrm_getEnvOr_int :: "env \<Rightarrow> string \<Rightarrow> int32 \<Rightarrow> int32" where
  "qrm_getEnvOr_int env name fallback =
     (case env name of
        None \<Rightarrow> fallback
      | Some value \<Rightarrow>
          (case from_chars True int32_min int32_max value of
             FcOk result rest \<Rightarrow> if rest = [] then of_int result else fallback
           | FcInvalid \<Rightarrow> fallback
           | FcOutOfRange rest \<Rightarrow> fallback))"

definition qrm_logPath :: "string \<Rightarrow> string \<Rightarrow> string" where
  "qrm_logPath dir file = path_append dir file"

definition qrm_loadConfig :: "qrm_build \<Rightarrow> env \<Rightarrow> string list \<Rightarrow> qrm_Config" where
  "qrm_loadConfig build env argv =
     (let log_dir = qrm_getEnvOr env ''QRM_LOG_DIR'' (build_log_dir build)
      in \<lparr>qrm_amqp =
            \<lparr>qrm_host = qrm_getEnvOr env ''QRM_AMQP_HOST'' ''localhost'',
             qrm_port = qrm_getEnvOr_int env ''QRM_AMQP_PORT'' 5672,
             qrm_user = qrm_getEnvOr env ''QRM_AMQP_USER'' ''myuser'',
             qrm_password = qrm_getEnvOr env ''QRM_AMQP_PASSWORD'' ''mypassword'',
             qrm_vhost = qrm_getEnvOr env ''QRM_AMQP_VHOST'' ''/''\<rparr>,
          qrm_queues =
            \<lparr>queue_scheduler = qrm_getEnvOr env ''QRM_SCHEDULER_QUEUE'' ''scheduler.tasks.queue'',
             queue_compiler = qrm_getEnvOr env ''QRM_COMPILER_QUEUE'' ''compiler.tasks.queue'',
             queue_results = qrm_getEnvOr env ''QRM_RESULTS_QUEUE'' ''test.results.queue'',
             queue_submitter = qrm_getEnvOr env ''QRM_SUBMITTER_QUEUE'' ''submitter.tasks.queue''\<rparr>,
          qrm_logging =
            \<lparr>qrm_log_dir = log_dir,
             daemon_logger = ''mqss::Daemon'', scheduler_logger = ''mqss::Scheduler'',
             compiler_logger = ''mqss::Compiler'', submitter_logger = ''mqss::Submitter'',
             daemon_log = qrm_logPath log_dir ''daemon.log'',
             scheduler_log = qrm_logPath log_dir ''scheduler.log'',
             compiler_log = qrm_logPath log_dir ''compiler.log'',
             submitter_log = qrm_logPath log_dir ''submitter.log''\<rparr>,
          qrm_paths =
            \<lparr>benchmark_dir = qrm_getEnvOr env ''QRM_BENCHMARK_DIR'' (build_benchmark_dir build),
             qdmi_device_objs_dir = []\<rparr>,
          qrm_devices = \<lparr>qdmi_device_obj = [], qdmi_device_prefix = []\<rparr>\<rparr>)"

text \<open>The process-wide configuration: the static object and its flag.\<close>

record qrm_config_store =
  stored_config :: qrm_Config
  config_initialized :: bool

definition qrm_initConfig :: "bool \<Rightarrow> qrm_Config \<Rightarrow> qrm_config_store \<Rightarrow> qrm_config_store outcome" where
  "qrm_initConfig ndebug new_config store =
     assertion ndebug (\<not> config_initialized store)
       (Returns (store\<lparr>stored_config := new_config, config_initialized := True\<rparr>))"

definition qrm_getConfig :: "bool \<Rightarrow> qrm_config_store \<Rightarrow> qrm_Config outcome" where
  "qrm_getConfig ndebug store =
     assertion ndebug (config_initialized store) (Returns (stored_config store))"

section \<open>Logger and transport options\<close>

definition qrm_makeLogger :: "(sink \<Rightarrow> string option) \<Rightarrow> string \<Rightarrow> string \<Rightarrow> logger outcome" where
  "qrm_makeLogger throws name log_file =
     (case push_sink throws StdoutColorSink [] of
        Inl x \<Rightarrow> Throws x
      | Inr sinks \<Rightarrow>
          (case (if log_file = [] then Inr sinks else push_sink throws (BasicFileSink log_file True) sinks) of
             Inl x \<Rightarrow> Throws x
           | Inr sinks \<Rightarrow> Returns \<lparr>logger_name = name, logger_sinks = sinks,
               logger_pattern = ''[%Y-%m-%d %H:%M:%S.%e] [%n] [%^%l%$] %v'',
               logger_level = SpdInfo, logger_flush_on = SpdInfo\<rparr>))"

text \<open>The options each of the four programs passes to its messenger.\<close>

definition qrm_transport_options :: "qrm_Config \<Rightarrow> RabbitMqSimple_options" where
  "qrm_transport_options config = RabbitMqSimple_default
     \<lparr>opt_host := qrm_host (qrm_amqp config), opt_port := qrm_port (qrm_amqp config),
      opt_username := qrm_user (qrm_amqp config), opt_password := qrm_password (qrm_amqp config)\<rparr>"

text \<open>The common beginning of the four programs, up to the messenger.\<close>

definition qrm_setup ::
  "bool \<Rightarrow> qrm_build \<Rightarrow> env \<Rightarrow> string list \<Rightarrow> (sink \<Rightarrow> string option) \<Rightarrow>
   (qrm_LoggingConfig \<Rightarrow> string) \<Rightarrow> (qrm_LoggingConfig \<Rightarrow> string) \<Rightarrow> qrm_config_store \<Rightarrow>
   (qrm_Config \<times> logger \<times> RabbitMqSimple_options) outcome" where
  "qrm_setup ndebug build env argv throws name_of log_of store =
     bind_outcome (qrm_initConfig ndebug (qrm_loadConfig build env argv) store) (\<lambda>store.
     bind_outcome (qrm_getConfig ndebug store) (\<lambda>config.
     bind_outcome (qrm_makeLogger throws (name_of (qrm_logging config)) (log_of (qrm_logging config)))
       (\<lambda>lg. Returns (config, lg, qrm_transport_options config))))"

section \<open>Lemmas\<close>

lemma bind_returns_iff [returns_iff]:
  "bind_outcome m f = Returns y \<longleftrightarrow> (\<exists>x. m = Returns x \<and> f x = Returns y)"
  by (cases m) auto

lemma assertion_returns_iff [returns_iff]:
  "assertion ndebug b k = Returns y \<longleftrightarrow> (b \<or> ndebug) \<and> k = Returns y"
  by (simp add: assertion_def)

lemma assertion_simps [simp]: "assertion ndebug True k = k" "assertion True b k = k"
  "assertion False False k = Aborts"
  by (simp_all add: assertion_def)

lemma qrm_getEnvOr_eq: "qrm_getEnvOr env name d = getEnvOr env [name] d"
  by (simp add: qrm_getEnvOr_def getEnvOr_def split: option.split)

lemma qrm_getEnvOr_int_eq:
  "qrm_getEnvOr_int env name d = (case getEnvOr_int env [name] d of Inr v \<Rightarrow> v | Inl e \<Rightarrow> d)"
  by (auto simp: qrm_getEnvOr_int_def getEnvOr_int_def getEnvOr_integral_def parse_whole_def
      split: option.splits from_chars_result.splits)

section \<open>Properties\<close>

text \<open>
  The workflow reads its variables as the framework does, except that errors are silent. A
  program whose configuration was not set before starts with exactly the values of the framework's
  accessors; where the framework reports a malformed or out-of-range port as a configuration error,
  the workflow connects to the default port 5672; it never fails on its environment, and the
  virtual host is always the default one, whatever \<^verbatim>\<open>QRM_AMQP_VHOST\<close> says.
\<close>

theorem qrm_setup_environment:
  "qrm_setup ndebug build env argv (\<lambda>k. None) scheduler_logger scheduler_log
     \<lparr>stored_config = c0, config_initialized = False\<rparr> =
   (let config = qrm_loadConfig build env argv in
    Returns (config,
      \<lparr>logger_name = ''mqss::Scheduler'',
       logger_sinks = [StdoutColorSink,
         BasicFileSink (path_append (getEnvOr env [''QRM_LOG_DIR''] (build_log_dir build)) ''scheduler.log'') True],
       logger_pattern = ''[%Y-%m-%d %H:%M:%S.%e] [%n] [%^%l%$] %v'',
       logger_level = SpdInfo, logger_flush_on = SpdInfo\<rparr>,
      \<lparr>opt_host = getEnvOr env [''QRM_AMQP_HOST''] ''localhost'',
       opt_port = (case getEnvOr_int env [''QRM_AMQP_PORT''] 5672 of Inr v \<Rightarrow> v | Inl e \<Rightarrow> 5672),
       opt_username = getEnvOr env [''QRM_AMQP_USER''] ''myuser'',
       opt_password = getEnvOr env [''QRM_AMQP_PASSWORD''] ''mypassword'', opt_vhost = ''/''\<rparr>))"
proof -
  have "path_append d ''scheduler.log'' \<noteq> []" for d by (simp add: path_append_def)
  then show ?thesis
    by (simp add: qrm_setup_def qrm_initConfig_def qrm_getConfig_def qrm_makeLogger_def push_sink_def
        qrm_loadConfig_def qrm_logPath_def qrm_transport_options_def RabbitMqSimple_default_def
        qrm_getEnvOr_eq qrm_getEnvOr_int_eq Let_def)
qed

end
