(* ===== verification/Qrm_Workflow.thy ===== *)
theory Qrm_Workflow
  imports Qrm_Config Proto_Messages Messenger
begin

text \<open>
  The scheduler and the daemon of the QRM workflow example (\<^verbatim>\<open>src/Scheduler.cpp\<close>,
  \<^verbatim>\<open>src/Daemon.cpp\<close>), and what the four programs of the workflow share. A program is its world
  (what its messenger acts on) and its log; the typed messenger operations are parameters. A
  round of a polling loop is a function to \<open>option\<close>, where \<open>None\<close> means that the receive does not
  return.
\<close>

record 'w qrm_process =
  qp_world :: 'w
  qp_log :: "(level_enum \<times> string) list"

definition spd_info :: "string \<Rightarrow> 'w qrm_process \<Rightarrow> 'w qrm_process" where
  "spd_info msg p = p\<lparr>qp_log := qp_log p @ [(SpdInfo, msg)]\<rparr>"

definition spd_error :: "string \<Rightarrow> 'w qrm_process \<Rightarrow> 'w qrm_process" where
  "spd_error msg p = p\<lparr>qp_log := qp_log p @ [(SpdErr, msg)]\<rparr>"

text \<open>How the format library prints an \<^verbatim>\<open>int32\<close>.\<close>

definition int_text :: "int32 \<Rightarrow> string" where
  "int_text i = (if sint i < 0 then ''-'' @ to_string (nat (- sint i)) else to_string (nat (sint i)))"

definition poll_args :: ReceiveArgs where
  "poll_args = \<lparr>recv_timeout = Some 5000, ack_mode = AckAuto\<rparr>"

section \<open>Scheduler\<close>

definition scheduler_round ::
  "(QuantumTask, 'w) recv \<Rightarrow> (QuantumTask, 'w) snd_op \<Rightarrow> qrm_Config \<Rightarrow> 'w qrm_process \<Rightarrow>
   'w qrm_process option" where
  "scheduler_round receive send config p0 =
     (let p = spd_info ''Waiting for a new job'' p0 in
      case receive \<lparr>addr_name = queue_scheduler (qrm_queues config)\<rparr> poll_args (qp_world p) of
        None \<Rightarrow> None
      | Some (Inl e, w) \<Rightarrow>
          Some (if code e = Timeout then p\<lparr>qp_world := w\<rparr>
                else spd_error (''Receive error: '' @ reason e) (p\<lparr>qp_world := w\<rparr>))
      | Some (Inr task, w) \<Rightarrow>
          (let p1 = spd_info (''Received task: '' @ int_text (qt_task_id task)) (p\<lparr>qp_world := w\<rparr>);
               p2 = spd_info (''Forwarding task to compiler: '' @ int_text (qt_task_id task)) p1;
               (send_st, w') = send \<lparr>addr_name = queue_compiler (qrm_queues config)\<rparr> task
                 default_send_args (qp_world p2);
               p3 = p2\<lparr>qp_world := w'\<rparr>
           in Some (if \<not> ok send_st then spd_error (''Failed to send task: '' @ reason send_st) p3
                    else spd_info (''Task forwarded to compiler: '' @ int_text (qt_task_id task)) p3)))"

section \<open>Daemon\<close>

definition daemon_task :: "qrm_Config \<Rightarrow> QuantumTask" where
  "daemon_task config = QuantumTask_default
     \<lparr>qt_task_id := 111, qt_n_qbits := 2, qt_n_shots := 0, qt_optimisation_level := 1,
      qt_result_destination := queue_results (qrm_queues config), qt_preferred_qpu := ''planqc'',
      qt_circuit_files := [path_append (benchmark_dir (qrm_paths config)) ''bell_state.mlir''],
      qt_circuit_file_type := ''cpp''\<rparr>"

definition daemon_report :: "QuantumResult \<Rightarrow> 'w qrm_process \<Rightarrow> int outcome \<times> 'w qrm_process" where
  "daemon_report decoded p =
     (let p1 = fold spd_info
            ([''Task received by daemon queue'', ''Results Received by Test/Daemon Queue!'',
              ''-->Decoded task id: '' @ int_text (qr_task_id decoded),
              ''-->Executed Circuit files dump:'' @ [CHR 0x0A]] @
             qr_executed_circuits decoded @ [''-->Results:'']) p
      in case qr_results decoded of
           [] \<Rightarrow> (Undefined, p1)
         | cr # crs \<Rightarrow> (Returns 0, fold spd_info
             (map (\<lambda>(key, count). ''count['' @ key @ ''] : '' @ int_text count) (counts cr)) p1))"

text \<open>
  The body of \<^verbatim>\<open>main\<close> after the messenger is made; \<open>others\<close> is what the other programs do between
  the send and the receive.
\<close>

definition daemon_main ::
  "(QuantumResult, 'w) recv \<Rightarrow> (QuantumTask, 'w) snd_op \<Rightarrow> ('w \<Rightarrow> 'w) \<Rightarrow> qrm_Config \<Rightarrow>
   'w qrm_process \<Rightarrow> (int outcome \<times> 'w qrm_process) option" where
  "daemon_main receive send others config p0 =
     (let p = spd_info ''Starting daemon'' p0;
          task = daemon_task config;
          (send_st, w) = send \<lparr>addr_name = queue_scheduler (qrm_queues config)\<rparr> task default_send_args
            (qp_world p);
          p1 = p\<lparr>qp_world := w\<rparr>
      in if \<not> ok send_st
         then Some (Returns 1, spd_error (''Message could not be sent: '' @ reason send_st) p1)
         else
           (let p2 = spd_info ''Task sent'' p1 in
            case receive \<lparr>addr_name = qt_result_destination task\<rparr>
                   \<lparr>recv_timeout = Some 60000, ack_mode = AckAuto\<rparr> (others (qp_world p2)) of
              None \<Rightarrow> None
            | Some (Inl e, w') \<Rightarrow>
                Some (Returns 1, spd_error (''Failed to receive result: '' @ reason e) (p2\<lparr>qp_world := w'\<rparr>))
            | Some (Inr decoded, w') \<Rightarrow> Some (daemon_report decoded (p2\<lparr>qp_world := w'\<rparr>))))"

section \<open>Lemmas\<close>

lemma log_keeps_world [simp]: "qp_world (spd_info m p) = qp_world p" "qp_world (spd_error m p) = qp_world p"
  by (simp_all add: spd_info_def spd_error_def)

lemma fold_info_world [simp]: "qp_world (fold spd_info ms p) = qp_world p"
  by (induction ms arbitrary: p) auto

lemma fold_info_log: "qp_log (fold spd_info ms p) = qp_log p @ map (Pair SpdInfo) ms"
  by (induction ms arbitrary: p) (auto simp: spd_info_def)

lemma daemon_report_world [simp]: "qp_world (snd (daemon_report r p)) = qp_world p"
  by (simp add: daemon_report_def Let_def split: list.split)

lemma scheduler_round_forwards:
  assumes "receive \<lparr>addr_name = queue_scheduler (qrm_queues config)\<rparr> poll_args (qp_world p) = Some (Inr task, w)"
    and "send \<lparr>addr_name = queue_compiler (qrm_queues config)\<rparr> task default_send_args w = (success, w')"
  shows "\<exists>p'. scheduler_round receive send config p = Some p' \<and> qp_world p' = w'"
  using assms by (simp add: scheduler_round_def Let_def)

lemma daemon_main_reports:
  assumes "send \<lparr>addr_name = queue_scheduler (qrm_queues config)\<rparr> (daemon_task config)
      default_send_args (qp_world p) = (success, w)"
    and "receive \<lparr>addr_name = queue_results (qrm_queues config)\<rparr>
      \<lparr>recv_timeout = Some 60000, ack_mode = AckAuto\<rparr> (others w) = Some (Inr r, w')"
    and "qr_results r \<noteq> []"
  shows "\<exists>p'. daemon_main receive send others config p = Some (Returns 0, p') \<and> qp_world p' = w' \<and>
    (\<exists>earlier. qp_log p' = earlier @ map (\<lambda>(key, count). (SpdInfo, ''count['' @ key @ ''] : '' @ int_text count))
       (counts (hd (qr_results r))))"
proof -
  have "qt_result_destination (daemon_task config) = queue_results (qrm_queues config)"
    by (simp add: daemon_task_def)
  then show ?thesis using assms
    by (cases "qr_results r")
      (auto simp: daemon_main_def daemon_report_def fold_info_log Let_def case_prod_beta)
qed

section \<open>Properties\<close>

text \<open>
  How the daemon ends. It sends one task, and none other, to the scheduler's queue. If the send
  fails it exits with 1 and receives nothing; if the receive fails it exits with 1 and logs
  the reason; a result with at least one circuit ends it with exit code 0 and a log line for every
  count of the first circuit, and a result without circuits is an out-of-range access.
\<close>

theorem daemon_outcomes:
  "let (st, w) = send \<lparr>addr_name = queue_scheduler (qrm_queues config)\<rparr> (daemon_task config)
         default_send_args (qp_world p) in
   if \<not> ok st then \<exists>p'. daemon_main receive send others config p = Some (Returns 1, p') \<and> qp_world p' = w
   else case receive \<lparr>addr_name = queue_results (qrm_queues config)\<rparr>
          \<lparr>recv_timeout = Some 60000, ack_mode = AckAuto\<rparr> (others w) of
     None \<Rightarrow> daemon_main receive send others config p = None
   | Some (Inl e, w') \<Rightarrow> \<exists>p'. daemon_main receive send others config p = Some (Returns 1, p') \<and>
       qp_world p' = w' \<and> last (qp_log p') = (SpdErr, ''Failed to receive result: '' @ reason e)
   | Some (Inr r, w') \<Rightarrow> \<exists>out p'. daemon_main receive send others config p = Some (out, p') \<and>
       qp_world p' = w' \<and> out = (if qr_results r = [] then Undefined else Returns 0) \<and>
       (\<exists>earlier. qp_log p' = earlier @ (if qr_results r = [] then [] else
          map (\<lambda>(key, count). (SpdInfo, ''count['' @ key @ ''] : '' @ int_text count))
            (counts (hd (qr_results r)))))"
proof -
  obtain st w where s: "send \<lparr>addr_name = queue_scheduler (qrm_queues config)\<rparr> (daemon_task config)
      default_send_args (qp_world p) = (st, w)" by fastforce
  have d: "qt_result_destination (daemon_task config) = queue_results (qrm_queues config)"
    by (simp add: daemon_task_def)
  show ?thesis
    using s d
    by (auto simp: daemon_main_def daemon_report_def fold_info_log spd_error_def Let_def
        case_prod_beta split: option.split sum.split list.split prod.split)
qed

end
