(* ===== verification/Qrm_Compiler.thy ===== *)
theory Qrm_Compiler
  imports Qrm_Workflow
begin

text \<open>
  The compiler of the QRM workflow example (\<^verbatim>\<open>src/Compiler.cpp\<close>). The MLIR libraries and the file
  system are a parameter of type \<open>mlir\<close>, acting on a state of type \<open>'s\<close>; everything the file itself
  does, in particular the removal of gate definitions from the generated text, is defined here.
\<close>

section \<open>Removal of gate definitions\<close>

definition starts_gate :: "string \<Rightarrow> bool" where
  "starts_gate line \<longleftrightarrow> sublist ''gate '' line \<and> sublist ''{'' line"

definition ends_gate :: "string \<Rightarrow> bool" where
  "ends_gate line \<longleftrightarrow> sublist ''}'' line"

fun strip_lines :: "bool \<Rightarrow> string list \<Rightarrow> string" where
  "strip_lines inGateBlock [] = []"
| "strip_lines inGateBlock (line # lines) =
     (if starts_gate line then strip_lines True lines
      else if inGateBlock then strip_lines (if ends_gate line then False else inGateBlock) lines
      else line @ [CHR 0x0A] @ strip_lines inGateBlock lines)"

definition stripSpuriousGateDefs :: "string \<Rightarrow> string" where
  "stripSpuriousGateDefs qasm = strip_lines False (getlines (CHR 0x0A) qasm)"

section \<open>Compiler passes\<close>

datatype mlir_pass = O1 | BasisConversion string | QuakeToQASM2

text \<open>
  \<open>ml_mkstemp\<close> is the descriptor \<^verbatim>\<open>mkstemp\<close> returns; \<open>ml_parse\<close> is null when the file does not
  parse; running a pass manager on a module gives whether it failed, the module, and the text
  written to the output stream.
\<close>

record ('m, 's) mlir =
  ml_mkstemp :: "'s \<Rightarrow> int \<times> 's"
  ml_parse :: "string \<Rightarrow> 's \<Rightarrow> 'm option"
  ml_run :: "mlir_pass list \<Rightarrow> 'm \<Rightarrow> bool \<times> 'm \<times> string"

definition native_gates :: "string \<Rightarrow> string" where
  "native_gates target_qpu = (if target_qpu = ''planqc'' then ''rx,cz,rz'' else ''phased_rx, cz'')"

text \<open>The result, the errors logged, and the state; a null module is dereferenced.\<close>

definition lowerToOutputFormat ::
  "('m, 's) mlir \<Rightarrow> string \<Rightarrow> int32 \<Rightarrow> string \<Rightarrow> string \<Rightarrow> 's \<Rightarrow> string outcome \<times> string list \<times> 's" where
  "lowerToOutputFormat api src_path opt_level target_qpu result_type s =
     (let (fd, s) = ml_mkstemp api s in
      if fd < 0 then (Throws ''mkstemp failed'', [], s)
      else case ml_parse api src_path s of
        None \<Rightarrow> (Undefined, [''failed to parse MLIR file'' @ [CHR 0x0A]], s)
      | Some mod_op \<Rightarrow>
          (let pm = [O1];
               (failed1, mod_op, text1) = ml_run api pm mod_op;
               errors1 = (if failed1 then [''Compiler: Pipeline failed'' @ [CHR 0x0A]] else []);
               pm = pm @ [BasisConversion (native_gates target_qpu)];
               pm = (if result_type = ''OpenQasm2'' then pm @ [QuakeToQASM2] else pm);
               (failed2, mod_op, text2) = ml_run api pm mod_op;
               errors2 = (if failed2 then [''Compiler: Conversion to '' @ result_type @ '' failed''] else []);
               result = (if QuakeToQASM2 \<in> set pm then text2 else [])
           in (Returns result, errors1 @ errors2, s)))"

text \<open>The first loop of \<^verbatim>\<open>applyOptimizationPasses\<close>, which fills the table of new texts.\<close>

fun compile_loop ::
  "('m, 's) mlir \<Rightarrow> QuantumTask \<Rightarrow> nat \<Rightarrow> string list \<Rightarrow> (nat, string) umap \<Rightarrow> string list \<Rightarrow> 's \<Rightarrow>
   (nat, string) umap outcome \<times> string list \<times> 's" where
  "compile_loop api task i [] updated errors s = (Returns updated, errors, s)"
| "compile_loop api task i (circuit_file # files) updated errors s =
     (case lowerToOutputFormat api circuit_file (qt_optimisation_level task) (qt_preferred_qpu task)
             ''OpenQasm2'' s of
        (Returns out_res, es, s') \<Rightarrow>
          compile_loop api task (Suc i) files
            (um_insert_or_assign i (stripSpuriousGateDefs out_res) updated) (errors @ es) s'
      | (Throws x, es, s') \<Rightarrow> (Throws x, errors @ es, s')
      | (Aborts, es, s') \<Rightarrow> (Aborts, errors @ es, s')
      | (Undefined, es, s') \<Rightarrow> (Undefined, errors @ es, s'))"

definition set_circuits :: "(nat, string) umap \<Rightarrow> QuantumTask \<Rightarrow> QuantumTask" where
  "set_circuits updated task =
     foldl (\<lambda>t (index, new_circuit_file).
        t\<lparr>qt_circuit_files := (qt_circuit_files t)[index := new_circuit_file]\<rparr>) task updated"

definition applyOptimizationPasses ::
  "('m, 's) mlir \<Rightarrow> QuantumTask \<Rightarrow> 's \<Rightarrow> QuantumTask outcome \<times> string list \<times> 's" where
  "applyOptimizationPasses api task s =
     (case compile_loop api task 0 (qt_circuit_files task) [] [] s of
        (Returns updated, es, s') \<Rightarrow> (Returns (set_circuits updated task), es, s')
      | (Throws x, es, s') \<Rightarrow> (Throws x, es, s')
      | (Aborts, es, s') \<Rightarrow> (Aborts, es, s')
      | (Undefined, es, s') \<Rightarrow> (Undefined, es, s'))"

text \<open>
  A round of the compiler's loop. The files are part of the world: \<open>get_s\<close> and \<open>put_s\<close> select them.
\<close>

definition compiler_round ::
  "('m, 's) mlir \<Rightarrow> ('w \<Rightarrow> 's) \<Rightarrow> ('s \<Rightarrow> 'w \<Rightarrow> 'w) \<Rightarrow> (QuantumTask, 'w) recv \<Rightarrow> (QuantumTask, 'w) snd_op \<Rightarrow>
   qrm_Config \<Rightarrow> 'w qrm_process \<Rightarrow> 'w qrm_process outcome option" where
  "compiler_round api get_s put_s receive send config p0 =
     (let p = spd_info ''Waiting for a new job'' p0 in
      case receive \<lparr>addr_name = queue_compiler (qrm_queues config)\<rparr> poll_args (qp_world p) of
        None \<Rightarrow> None
      | Some (Inl e, w) \<Rightarrow>
          Some (Returns (if code e = Timeout then p\<lparr>qp_world := w\<rparr>
                else spd_error (''Receive error: '' @ reason e) (p\<lparr>qp_world := w\<rparr>)))
      | Some (Inr task, w) \<Rightarrow>
          (let p1 = spd_info (''Processing task: '' @ int_text (qt_task_id task)) (p\<lparr>qp_world := w\<rparr>);
               (compiled, es, s) = applyOptimizationPasses api task (get_s w);
               p2 = (fold spd_error es p1)\<lparr>qp_world := put_s s w\<rparr>
           in case compiled of
                Throws x \<Rightarrow> Some (Returns (spd_error
                  (''Failed to process task '' @ int_text (qt_task_id task) @ '': '' @ x) p2))
              | Aborts \<Rightarrow> Some Aborts
              | Undefined \<Rightarrow> Some Undefined
              | Returns task' \<Rightarrow>
                  (let p3 = fold spd_info ([''-->Compiler output:''] @ qt_circuit_files task') p2;
                       (send_st, w') = send \<lparr>addr_name = queue_submitter (qrm_queues config)\<rparr> task'
                         default_send_args (qp_world p3);
                       p4 = spd_info ''Task sent by compiler!'' (p3\<lparr>qp_world := w'\<rparr>)
                   in Some (Returns (if \<not> ok send_st
                        then spd_error (''Failed to send result for task '' @ int_text (qt_task_id task') @
                               '': '' @ reason send_st) p4
                        else spd_info (''Result sent for task: '' @ int_text (qt_task_id task')) p4)))))"

section \<open>Lemmas on the removal\<close>

text \<open>The lines of a program, as plain lines and blocks of a header, a body and a closing line.\<close>

datatype qasm_item = Plain string | GateBlock string "string list" string

fun item_lines :: "qasm_item \<Rightarrow> string list" where
  "item_lines (Plain l) = [l]"
| "item_lines (GateBlock h b e) = h # b @ [e]"

fun item_ok :: "qasm_item \<Rightarrow> bool" where
  "item_ok (Plain l) \<longleftrightarrow> \<not> starts_gate l"
| "item_ok (GateBlock h b e) \<longleftrightarrow> starts_gate h \<and> list_all (\<lambda>l. \<not> ends_gate l) b \<and>
     ends_gate e \<and> \<not> starts_gate e"

fun plain_lines :: "qasm_item list \<Rightarrow> string list" where
  "plain_lines [] = []"
| "plain_lines (Plain l # is) = l # plain_lines is"
| "plain_lines (GateBlock h b e # is) = plain_lines is"

definition as_text :: "string list \<Rightarrow> string" where
  "as_text ls = concat (map (\<lambda>l. l @ [CHR 0x0A]) ls)"

lemma as_text_simps [simp]: "as_text [] = []" "as_text (l # ls) = l @ [CHR 0x0A] @ as_text ls"
  by (simp_all add: as_text_def)

lemma getlines_as_text:
  "list_all (\<lambda>l. CHR 0x0A \<notin> set l) ls \<Longrightarrow> getlines (CHR 0x0A) (as_text ls) = ls"
  unfolding as_text_def by (rule getlines_concat) (auto simp: list_all_iff)

lemma strip_body:
  "list_all (\<lambda>l. \<not> ends_gate l) b \<Longrightarrow> strip_lines True (b @ rest) = strip_lines True rest"
  by (induction b) auto

lemma strip_items:
  "list_all item_ok is \<Longrightarrow> strip_lines False (concat (map item_lines is)) = as_text (plain_lines is)"
proof (induction "is")
  case (Cons i "is")
  then show ?case by (cases i) (simp_all add: strip_body)
qed simp

text \<open>What is kept: lines that start no gate.\<close>

fun kept_lines :: "bool \<Rightarrow> string list \<Rightarrow> string list" where
  "kept_lines b [] = []"
| "kept_lines b (l # ls) =
     (if starts_gate l then kept_lines True ls
      else if b then kept_lines (\<not> ends_gate l) ls
      else l # kept_lines False ls)"

lemma strip_lines_kept: "strip_lines b ls = as_text (kept_lines b ls)"
  by (induction b ls rule: kept_lines.induct) auto

lemma set_kept: "l \<in> set (kept_lines b ls) \<Longrightarrow> l \<in> set ls \<and> \<not> starts_gate l"
  by (induction b ls rule: kept_lines.induct) (auto split: if_splits)

lemma kept_subseq: "subseq (kept_lines b ls) ls"
  by (induction b ls rule: kept_lines.induct) (auto intro: list_emb_Cons)

lemma kept_plain: "list_all (\<lambda>l. \<not> starts_gate l) ls \<Longrightarrow> kept_lines False ls = ls"
  by (induction ls) auto

lemma kept_open: "list_all (\<lambda>l. \<not> ends_gate l) ls \<Longrightarrow> kept_lines True ls = []"
  by (induction ls) auto

section \<open>Lemmas on the passes\<close>

text \<open>What the passes make of one file.\<close>

definition lowered :: "('m, 's) mlir \<Rightarrow> string \<Rightarrow> 'm \<Rightarrow> string" where
  "lowered api qpu mod_op =
     (let (f1, m1, t1) = ml_run api [O1] mod_op;
          (f2, m2, t2) = ml_run api [O1, BasisConversion (native_gates qpu), QuakeToQASM2] m1
      in t2)"

lemma lower_returns:
  assumes "ml_mkstemp api s = (fd, s')" and "0 \<le> fd" and "ml_parse api path s' = Some mod_op"
  shows "\<exists>es. lowerToOutputFormat api path level qpu ''OpenQasm2'' s =
    (Returns (lowered api qpu mod_op), es, s')"
  using assms by (auto simp: lowerToOutputFormat_def lowered_def Let_def split: prod.split)

lemma set_circuits_frame: "\<exists>cs. set_circuits u task = task\<lparr>qt_circuit_files := cs\<rparr>"
proof (induction u arbitrary: task)
  case (Cons p u)
  obtain i c where p: "p = (i, c)" by (cases p)
  obtain cs where "set_circuits u (task\<lparr>qt_circuit_files := (qt_circuit_files task)[i := c]\<rparr>) =
      task\<lparr>qt_circuit_files := (qt_circuit_files task)[i := c]\<rparr>\<lparr>qt_circuit_files := cs\<rparr>"
    using Cons.IH by blast
  then show ?case by (auto simp: set_circuits_def p)
next
  case Nil
  show ?case unfolding set_circuits_def by (rule exI [of _ "qt_circuit_files task"]) simp
qed

lemma set_circuits_length [simp]:
  "length (qt_circuit_files (set_circuits u task)) = length (qt_circuit_files task)"
proof (induction u arbitrary: task)
  case (Cons p u)
  obtain i c where p: "p = (i, c)" by (cases p)
  have "set_circuits (p # u) task =
      set_circuits u (task\<lparr>qt_circuit_files := (qt_circuit_files task)[i := c]\<rparr>)"
    by (simp add: set_circuits_def p)
  then show ?case using Cons.IH by simp
qed (simp add: set_circuits_def)

text \<open>The order in which the table is iterated does not matter.\<close>

lemma set_circuits_nth:
  "um_wf u \<Longrightarrow> i < length (qt_circuit_files task) \<Longrightarrow>
   qt_circuit_files (set_circuits u task) ! i =
     (case um_find u i of Some c \<Rightarrow> c | None \<Rightarrow> qt_circuit_files task ! i)"
proof (induction u arbitrary: task)
  case (Cons p u)
  obtain j c where p: "p = (j, c)" by (cases p)
  let ?t = "task\<lparr>qt_circuit_files := (qt_circuit_files task)[j := c]\<rparr>"
  have "set_circuits (p # u) task = set_circuits u ?t" by (simp add: set_circuits_def p)
  moreover have "um_wf u" and "um_find u j = None"
    using Cons.prems(1) by (auto simp: p um_wf_def um_find_def map_of_eq_None_iff)
  ultimately show ?case
    using Cons.IH [of ?t] Cons.prems(2) by (auto simp: p um_find_def split: option.split)
qed (simp add: set_circuits_def um_find_def)

text \<open>The table the first loop builds.\<close>

lemma compile_loop_returns:
  assumes "\<And>s. 0 \<le> fst (ml_mkstemp api s)"
    and "\<And>c s. c \<in> set files \<Longrightarrow> ml_parse api c s = Some (m c)"
  shows "\<exists>es s'. compile_loop api task i files u errors s =
    (Returns (foldl (\<lambda>u (k, c). um_insert_or_assign k c u) u
       (zip [i..<i + length files]
         (map (\<lambda>c. stripSpuriousGateDefs (lowered api (qt_preferred_qpu task) (m c))) files))), es, s')"
  using assms(2)
proof (induction files arbitrary: i u errors s)
  case (Cons c files)
  obtain fd s1 where fd: "ml_mkstemp api s = (fd, s1)" "0 \<le> fd" using assms(1) [of s] by (metis fst_conv surj_pair)
  obtain es where l: "lowerToOutputFormat api c (qt_optimisation_level task) (qt_preferred_qpu task)
      ''OpenQasm2'' s = (Returns (lowered api (qt_preferred_qpu task) (m c)), es, s1)"
    using lower_returns [OF fd] Cons.prems by fastforce
  have "[i..<i + length (c # files)] = i # [Suc i..<Suc i + length files]"
    by (subst upt_rec) simp
  then show ?case
    using l Cons.prems Cons.IH [of "Suc i" "um_insert_or_assign i
      (stripSpuriousGateDefs (lowered api (qt_preferred_qpu task) (m c))) u" "errors @ es" s1]
    by (simp del: upt_Suc)
qed simp

lemma zip_upt_find:
  "map_of (zip [0..<length xs] xs) k = (if k < length xs then Some (xs ! k) else None)"
  by (auto simp: map_of_eq_None_iff set_zip)
    (metis (no_types, lifting) length_map map_nth map_of_zip_nth distinct_upt length_upt diff_zero nth_upt add_0)

lemma passes_result:
  assumes "\<And>s. 0 \<le> fst (ml_mkstemp api s)"
    and "\<And>c s. c \<in> set (qt_circuit_files task) \<Longrightarrow> ml_parse api c s = Some (m c)"
  shows "\<exists>es s'. applyOptimizationPasses api task s =
    (Returns (task\<lparr>qt_circuit_files := map (\<lambda>c. stripSpuriousGateDefs
       (lowered api (qt_preferred_qpu task) (m c))) (qt_circuit_files task)\<rparr>), es, s')"
proof -
  let ?out = "map (\<lambda>c. stripSpuriousGateDefs (lowered api (qt_preferred_qpu task) (m c))) (qt_circuit_files task)"
  let ?n = "length (qt_circuit_files task)"
  define u where "u = foldl (\<lambda>u (k, c). um_insert_or_assign k c u) [] (zip [0..<?n] ?out)"
  obtain es s' where l: "compile_loop api task 0 (qt_circuit_files task) [] [] s = (Returns u, es, s')"
    using compile_loop_returns [OF assms(1), of "qt_circuit_files task" m task 0 "[]" "[]" s] assms(2)
    by (auto simp: u_def)
  have wf: "um_wf u" unfolding u_def by (rule um.wf_fill_assign [OF um.wf_empty])
  have find: "um_find u k = (if k < ?n then Some (?out ! k) else None)" for k
    unfolding u_def um.fill_assign
    using zip_upt_find [of ?out k] map_of_rev_distinct [of "zip [0..<?n] ?out"]
    by (simp add: um.find_empty)
  obtain cs where cs: "set_circuits u task = task\<lparr>qt_circuit_files := cs\<rparr>"
    using set_circuits_frame by blast
  have "qt_circuit_files (set_circuits u task) = ?out"
    by (rule nth_equalityI) (simp_all add: set_circuits_nth [OF wf] find)
  with cs l show ?thesis by (simp add: applyOptimizationPasses_def)
qed

lemma compiler_round_forwards:
  assumes "receive \<lparr>addr_name = queue_compiler (qrm_queues config)\<rparr> poll_args (qp_world p) = Some (Inr task, w)"
    and "applyOptimizationPasses api task (get_s w) = (Returns task', es, s)"
    and "send \<lparr>addr_name = queue_submitter (qrm_queues config)\<rparr> task' default_send_args (put_s s w) = (success, w')"
  shows "\<exists>p'. compiler_round api get_s put_s receive send config p = Some (Returns p') \<and> qp_world p' = w'"
  using assms by (simp add: compiler_round_def Let_def)

lemma fold_error_log: "qp_log (fold spd_error ms p) = qp_log p @ map (Pair SpdErr) ms"
  by (induction ms arbitrary: p) (auto simp: spd_error_def)

text \<open>A task whose compilation throws is dropped: nothing is sent, and the loop goes on.\<close>

lemma compiler_round_drops:
  assumes "receive \<lparr>addr_name = queue_compiler (qrm_queues config)\<rparr> poll_args (qp_world p) = Some (Inr task, w)"
    and "applyOptimizationPasses api task (get_s w) = (Throws x, es, s)"
  shows "\<exists>p'. compiler_round api get_s put_s receive send config p = Some (Returns p') \<and>
    qp_world p' = put_s s w \<and>
    last (qp_log p') = (SpdErr, ''Failed to process task '' @ int_text (qt_task_id task) @ '': '' @ x)"
  using assms by (simp add: compiler_round_def Let_def spd_error_def)

section \<open>Properties\<close>

text \<open>
  C31: the removal of gate definitions removes the definitions and nothing else. For a program made
  of lines that start no gate and of gate blocks (a header line, body lines without a closing
  brace, and a closing line), the result is exactly the program's other lines, in order.
\<close>

theorem strip_removes_exactly_the_blocks:
  assumes "list_all item_ok items"
    and "list_all (\<lambda>l. CHR 0x0A \<notin> set l) (concat (map item_lines items))"
  shows "stripSpuriousGateDefs (as_text (concat (map item_lines items))) = as_text (plain_lines items)"
  unfolding stripSpuriousGateDefs_def getlines_as_text [OF assms(2)] by (rule strip_items [OF assms(1)])

theorem strip_removes_exactly_the_blocks_witness:
  "stripSpuriousGateDefs (as_text [''qreg q[2];'', ''gate h a {'', ''  U(0,0,0) a;'', ''}'', ''h q[0];'']) =
   as_text [''qreg q[2];'', ''h q[0];'']"
  using strip_removes_exactly_the_blocks [of "[Plain ''qreg q[2];'',
    GateBlock ''gate h a {'' [''  U(0,0,0) a;''] ''}'', Plain ''h q[0];'']"]
  by (simp add: starts_gate_def ends_gate_def sublist_code)

text \<open>
  The removal is idempotent, and what it leaves are lines of its input, in their order, none of
  which begins a gate definition. This holds of every text.
\<close>

theorem strip_idempotent:
  "stripSpuriousGateDefs (stripSpuriousGateDefs qasm) = stripSpuriousGateDefs qasm \<and>
   list_all (\<lambda>l. \<not> starts_gate l) (getlines (CHR 0x0A) (stripSpuriousGateDefs qasm)) \<and>
   subseq (getlines (CHR 0x0A) (stripSpuriousGateDefs qasm)) (getlines (CHR 0x0A) qasm)"
proof -
  let ?ls = "getlines (CHR 0x0A) qasm"
  let ?ks = "kept_lines False ?ls"
  have "list_all (\<lambda>l. CHR 0x0A \<notin> set l) ?ks"
    unfolding list_all_iff using set_kept getlines_no_delimiter by blast
  then have g: "getlines (CHR 0x0A) (stripSpuriousGateDefs qasm) = ?ks"
    unfolding stripSpuriousGateDefs_def strip_lines_kept by (rule getlines_as_text)
  have plain: "list_all (\<lambda>l. \<not> starts_gate l) ?ks"
    unfolding list_all_iff using set_kept by blast
  have "stripSpuriousGateDefs (stripSpuriousGateDefs qasm) = stripSpuriousGateDefs qasm"
    unfolding stripSpuriousGateDefs_def [of "stripSpuriousGateDefs qasm"] g strip_lines_kept
      kept_plain [OF plain] by (simp add: stripSpuriousGateDefs_def strip_lines_kept)
  then show ?thesis unfolding g using plain kept_subseq by blast
qed

text \<open>
  C39: a gate definition written on one line is not recognised as closed: everything after it is
  removed, up to the next line with a closing brace, and to the end of the program if there is
  none.
\<close>

theorem one_line_gate_swallows_program:
  assumes "starts_gate h" and "list_all (\<lambda>l. \<not> ends_gate l) ls"
    and "list_all (\<lambda>l. CHR 0x0A \<notin> set l) (h # ls)"
  shows "stripSpuriousGateDefs (as_text (h # ls)) = []"
  unfolding stripSpuriousGateDefs_def getlines_as_text [OF assms(3)] strip_lines_kept
  using assms(1) kept_open [OF assms(2)] by simp

theorem one_line_gate_swallows_program_witness:
  "stripSpuriousGateDefs (as_text [''gate h a { U(0,0,0) a; }'', ''qreg q[2];'', ''h q[0];'']) = []"
  using one_line_gate_swallows_program [of "''gate h a { U(0,0,0) a; }''" "[''qreg q[2];'', ''h q[0];'']"]
  by (simp add: starts_gate_def ends_gate_def sublist_code)

text \<open>
  The compiler replaces every circuit of a task by its own translation. If temporary files can
  be created and every circuit parses, then each circuit is replaced, in its place, by what the
  passes make of it for the preferred backend, without gate definitions, whatever the order in
  which the table of new texts is iterated; no other field of the task changes.
\<close>

theorem passes_replace_each_circuit:
  assumes "\<And>s. 0 \<le> fst (ml_mkstemp api s)"
    and "\<And>c s. c \<in> set (qt_circuit_files task) \<Longrightarrow> ml_parse api c s = Some (m c)"
  shows "\<exists>es s'. applyOptimizationPasses api task s =
    (Returns (task\<lparr>qt_circuit_files := map (\<lambda>c. stripSpuriousGateDefs
       (lowered api (qt_preferred_qpu task) (m c))) (qt_circuit_files task)\<rparr>), es, s') \<and>
    (\<forall>u. um_find u = (\<lambda>k. if k < length (qt_circuit_files task) then Some (stripSpuriousGateDefs
         (lowered api (qt_preferred_qpu task) (m (qt_circuit_files task ! k)))) else None) \<and> um_wf u \<longrightarrow>
       qt_circuit_files (set_circuits u task) = map (\<lambda>c. stripSpuriousGateDefs
         (lowered api (qt_preferred_qpu task) (m c))) (qt_circuit_files task))"
proof -
  have "qt_circuit_files (set_circuits u task) = map (\<lambda>c. stripSpuriousGateDefs
      (lowered api (qt_preferred_qpu task) (m c))) (qt_circuit_files task)"
    if "um_find u = (\<lambda>k. if k < length (qt_circuit_files task) then Some (stripSpuriousGateDefs
         (lowered api (qt_preferred_qpu task) (m (qt_circuit_files task ! k)))) else None)" "um_wf u" for u
    by (rule nth_equalityI) (simp_all add: set_circuits_nth [OF that(2)] that(1))
  then show ?thesis using passes_result [of api task m s, OF assms] by blast
qed

text \<open>A compiler whose passes write the name of the gate set after the text of the file.\<close>

definition echo_mlir :: "(string, unit) mlir" where
  "echo_mlir = \<lparr>ml_mkstemp = (\<lambda>s. (3, s)), ml_parse = (\<lambda>path s. Some path),
     ml_run = (\<lambda>pm m. (False, m, m @ [CHR 0x0A] @
       concat (map (\<lambda>p. case p of BasisConversion g \<Rightarrow> g | _ \<Rightarrow> []) pm)))\<rparr>"

theorem passes_replace_each_circuit_witness:
  "\<exists>task' es s'. applyOptimizationPasses echo_mlir
     (QuantumTask_default\<lparr>qt_circuit_files := [''a'', ''b''], qt_preferred_qpu := ''planqc''\<rparr>) () =
     (Returns task', es, s') \<and>
   qt_circuit_files task' = [as_text [''a'', ''rx,cz,rz''], as_text [''b'', ''rx,cz,rz'']]"
proof -
  let ?t = "QuantumTask_default\<lparr>qt_circuit_files := [''a'', ''b''], qt_preferred_qpu := ''planqc''\<rparr>"
  have l: "lowered echo_mlir ''planqc'' c = c @ [CHR 0x0A] @ ''rx,cz,rz''" for c
    by (simp add: lowered_def echo_mlir_def native_gates_def)
  have s: "stripSpuriousGateDefs (''a'' @ [CHR 0x0A] @ ''rx,cz,rz'') = as_text [''a'', ''rx,cz,rz'']"
    "stripSpuriousGateDefs (''b'' @ [CHR 0x0A] @ ''rx,cz,rz'') = as_text [''b'', ''rx,cz,rz'']"
    using getlines_line [of "CHR 0x0A" "''a''" "''rx,cz,rz''"] getlines_line [of "CHR 0x0A" "''b''" "''rx,cz,rz''"]
    by (simp_all add: stripSpuriousGateDefs_def starts_gate_def sublist_code)
  have "\<exists>es s'. applyOptimizationPasses echo_mlir ?t () = (Returns (?t\<lparr>qt_circuit_files :=
      map (\<lambda>c. stripSpuriousGateDefs (lowered echo_mlir (qt_preferred_qpu ?t) c)) (qt_circuit_files ?t)\<rparr>), es, s')"
    using passes_replace_each_circuit [of echo_mlir ?t "\<lambda>c. c" "()"] by (auto simp: echo_mlir_def)
  then show ?thesis using l s by auto
qed

end
