(* ===== verification/Qrm_Submitter.thy ===== *)
theory Qrm_Submitter
  imports Qrm_Workflow Forward
begin

text \<open>
  The submitter of the QRM workflow example (\<^verbatim>\<open>src/Submitter.cpp\<close>). The QDMI library and its
  devices are a parameter of type \<open>qdmi\<close>, call by call, acting on a state of type \<open>'s\<close>. Everything the
  file does between the calls is defined here: the buffers made from the sizes, the choice of the device, the
  parameters set, the assertions (\<open>ndebug\<close> removes them), the splitting of the histogram keys, and the
  result that is built.
\<close>

section \<open>Computations with a state and a log\<close>

type_synonym ('a, 's) act =
  "'s \<times> (level_enum \<times> string) list \<Rightarrow> 'a outcome \<times> 's \<times> (level_enum \<times> string) list"

definition act_bind :: "('a, 's) act \<Rightarrow> ('a \<Rightarrow> ('b, 's) act) \<Rightarrow> ('b, 's) act" where
  "act_bind m f st =
     (case m st of
        (Returns x, st') \<Rightarrow> f x st'
      | (Throws e, st') \<Rightarrow> (Throws e, st')
      | (Aborts, st') \<Rightarrow> (Aborts, st')
      | (Undefined, st') \<Rightarrow> (Undefined, st'))"

definition act_end :: "'a outcome \<Rightarrow> ('a, 's) act" where
  "act_end out st = (out, st)"

definition act_log :: "level_enum \<Rightarrow> string \<Rightarrow> (unit, 's) act" where
  "act_log l msg st = (Returns (), fst st, snd st @ [(l, msg)])"

definition act_call :: "('s \<Rightarrow> 'a \<times> 's) \<Rightarrow> ('a, 's) act" where
  "act_call f st = (Returns (fst (f (fst st))), snd (f (fst st)), snd st)"

definition act_assert :: "bool \<Rightarrow> bool \<Rightarrow> (unit, 's) act" where
  "act_assert ndebug b st = (if b \<or> ndebug then Returns () else Aborts, st)"

lemmas act_defs = act_bind_def act_end_def act_log_def act_call_def act_assert_def

section \<open>QDMI\<close>

datatype job_parameter = ProgramFormat_QASM2 | Program string | ShotsNum uint64

text \<open>
  A call that returns \<^verbatim>\<open>QDMI_SUCCESS\<close> is \<open>True\<close>, or delivers \<open>Some\<close> value. A query is two calls: the
  first asks for a size in bytes, and leaves the caller's variable 0 if it fails; the second is given
  a buffer of that size, and what it writes there is its value. A handle is an \<open>option\<close>, \<open>None\<close>
  being the null pointer; the session is part of the library's state.
\<close>

record ('d, 'j, 's) qdmi =
  qd_session_alloc :: "'s \<Rightarrow> unit \<times> 's"
  qd_session_init :: "'s \<Rightarrow> unit \<times> 's"
  qd_devices_size :: "'s \<Rightarrow> nat option"
  qd_devices_data :: "nat \<Rightarrow> 's \<Rightarrow> 'd option list option"
  qd_name_size :: "'d option \<Rightarrow> 's \<Rightarrow> nat option"
  qd_name_data :: "'d option \<Rightarrow> nat \<Rightarrow> 's \<Rightarrow> string option"
  qd_create_job :: "'d option \<Rightarrow> 's \<Rightarrow> 'j option \<times> 's"
  qd_set_parameter :: "'j option \<Rightarrow> job_parameter \<Rightarrow> 's \<Rightarrow> bool \<times> 's"
  qd_submit :: "'j option \<Rightarrow> 's \<Rightarrow> bool \<times> 's"
  qd_wait :: "'j option \<Rightarrow> 's \<Rightarrow> int32 \<times> 's"
  qd_check :: "'j option \<Rightarrow> 's \<Rightarrow> bool"
  qd_keys_size :: "'j option \<Rightarrow> 's \<Rightarrow> nat option"
  qd_keys_data :: "'j option \<Rightarrow> nat \<Rightarrow> 's \<Rightarrow> string option"
  qd_values_size :: "'j option \<Rightarrow> 's \<Rightarrow> nat option"
  qd_values_data :: "'j option \<Rightarrow> nat \<Rightarrow> 's \<Rightarrow> uint64 list option"
  qd_job_free :: "'j option \<Rightarrow> 's \<Rightarrow> unit \<times> 's"
  qd_session_free :: "'s \<Rightarrow> unit \<times> 's"

definition size_or_zero :: "nat option \<Rightarrow> nat" where
  "size_or_zero n = (case n of Some k \<Rightarrow> k | None \<Rightarrow> 0)"

text \<open>
  A vector of \<open>k\<close> zeros that is passed as a buffer. Writing more than it holds is undefined.
\<close>

definition fill_vector :: "'a \<Rightarrow> nat \<Rightarrow> 'a list option \<Rightarrow> 'a list outcome" where
  "fill_vector zero k data = (case data of
       None \<Rightarrow> Returns (replicate k zero)
     | Some xs \<Rightarrow> if k < length xs then Undefined else Returns (xs @ replicate (k - length xs) zero))"

text \<open>
  A string of length \<open>n - 1\<close>, whose characters and terminator are passed as a buffer of \<open>n\<close> bytes:
  anything but a zero in the place of the terminator is undefined. A string of length \<open>0 - 1\<close>, converted to \<^verbatim>\<open>size_t\<close>,
  cannot be made.
\<close>

definition sized_string :: "nat \<Rightarrow> unit outcome" where
  "sized_string n = (if n = 0 then Throws ''std::length_error'' else Returns ())"

definition fill_string :: "nat \<Rightarrow> string option \<Rightarrow> string outcome" where
  "fill_string n data = bind_outcome (fill_vector (CHR 0x00) n data) (\<lambda>buf.
     if last buf = CHR 0x00 then Returns (butlast buf) else Undefined)"

definition query_string ::
  "bool \<Rightarrow> ('s \<Rightarrow> nat option) \<Rightarrow> (nat \<Rightarrow> 's \<Rightarrow> string option) \<Rightarrow> (string, 's) act" where
  "query_string ndebug size_call data_call =
     act_bind (act_call (\<lambda>s. (size_call s, s))) (\<lambda>n.
     act_bind (act_assert ndebug (n \<noteq> None)) (\<lambda>_.
     act_bind (act_end (sized_string (size_or_zero n))) (\<lambda>_.
     act_bind (act_call (\<lambda>s. (data_call (size_or_zero n) s, s))) (\<lambda>d.
     act_bind (act_assert ndebug (d \<noteq> None)) (\<lambda>_.
     act_end (fill_string (size_or_zero n) d))))))"

definition PrintDeviceName :: "('d, 'j, 's) qdmi \<Rightarrow> bool \<Rightarrow> 'd option \<Rightarrow> (unit, 's) act" where
  "PrintDeviceName api ndebug device =
     act_bind (query_string ndebug (qd_name_size api device) (qd_name_data api device)) (\<lambda>name.
     act_log SpdInfo (''Device name: '' @ name @ '' ''))"

text \<open>The devices of the session; a pointer has 8 bytes, and the status of the calls is not looked at.\<close>

definition session_devices :: "('d, 'j, 's) qdmi \<Rightarrow> ('d option list, 's) act" where
  "session_devices api =
     act_bind (act_call (\<lambda>s. (qd_devices_size api s, s))) (\<lambda>n.
     act_bind (act_call (\<lambda>s. (qd_devices_data api (size_or_zero n) s, s))) (\<lambda>d.
     act_end (fill_vector None (size_or_zero n div 8) d)))"

text \<open>
  The shots parameter is 8 bytes read from the address of a 4-byte variable: the low half is the
  number of shots, the high half whatever lies beyond it (\<open>beyond\<close>).
\<close>

definition shots_read :: "32 word \<Rightarrow> int32 \<Rightarrow> uint64" where
  "shots_read beyond num_shots = word_cat beyond num_shots"

fun log_all :: "string list \<Rightarrow> (unit, 's) act" where
  "log_all [] = act_end (Returns ())"
| "log_all (c # cs) = act_bind (act_log SpdInfo c) (\<lambda>_. log_all cs)"

text \<open>The loop over the keys; an index beyond the counts is an out-of-range access.\<close>

fun gather_counts :: "string list \<Rightarrow> uint64 list \<Rightarrow> Counts \<Rightarrow> Counts outcome" where
  "gather_counts [] cs m = Returns m"
| "gather_counts (k # ks) [] m = Undefined"
| "gather_counts (k # ks) (c # cs) m = gather_counts ks cs (um_insert_or_assign k (to_int32 c) m)"

definition submit_parameters ::
  "('d, 'j, 's) qdmi \<Rightarrow> bool \<Rightarrow> 32 word \<Rightarrow> 'j option \<Rightarrow> string \<Rightarrow> int32 \<Rightarrow> (unit, 's) act" where
  "submit_parameters api ndebug beyond job circuit num_shots =
     act_bind (act_call (qd_set_parameter api job ProgramFormat_QASM2)) (\<lambda>ret.
     act_bind (act_assert ndebug ret) (\<lambda>_.
     act_bind (act_call (qd_set_parameter api job (Program circuit))) (\<lambda>ret.
     act_bind (act_assert ndebug ret) (\<lambda>_.
     act_bind
       (if 0 < sint num_shots then
          act_bind (act_call (qd_set_parameter api job (ShotsNum (shots_read beyond num_shots)))) (\<lambda>ret.
          act_bind (act_assert ndebug ret) (\<lambda>_.
          act_log SpdInfo (''--> QDMI Num shots: '' @ int_text num_shots)))
        else act_end (Returns ())) (\<lambda>_.
     act_log SpdInfo ''QDMI Job parameters Set...'')))))"

definition run_job :: "('d, 'j, 's) qdmi \<Rightarrow> bool \<Rightarrow> 'j option \<Rightarrow> (unit, 's) act" where
  "run_job api ndebug job =
     act_bind (act_call (qd_submit api job)) (\<lambda>ret.
     act_bind (act_assert ndebug ret) (\<lambda>_.
     act_bind (act_log SpdInfo ''QDMI Job submitted to QDMI Device...'') (\<lambda>_.
     act_bind (act_call (qd_wait api job)) (\<lambda>ret.
     act_bind (if ret \<noteq> 0 then act_log SpdErr (''QDMI job wait failed with: '' @ int_text ret)
               else act_end (Returns ())) (\<lambda>_.
     act_bind (act_assert ndebug (ret = 0)) (\<lambda>_.
     act_bind (act_call (\<lambda>s. (qd_check api job s, s))) (\<lambda>ret.
     act_assert ndebug ret)))))))"

definition histogram :: "('d, 'j, 's) qdmi \<Rightarrow> bool \<Rightarrow> 'j option \<Rightarrow> (string list \<times> uint64 list, 's) act" where
  "histogram api ndebug job =
     act_bind (query_string ndebug (qd_keys_size api job) (qd_keys_data api job)) (\<lambda>key_list.
     act_bind (act_call (\<lambda>s. (qd_values_size api job s, s))) (\<lambda>val_size.
     act_bind (act_assert ndebug (val_size \<noteq> None)) (\<lambda>_.
     act_bind (act_call (\<lambda>s. (qd_values_data api job (size_or_zero val_size) s, s))) (\<lambda>vals.
     act_bind (act_assert ndebug (vals \<noteq> None)) (\<lambda>_.
     act_bind (act_end (fill_vector 0 (size_or_zero val_size div 8) vals)) (\<lambda>cs.
     act_end (Returns (getlines CHR '','' key_list, cs))))))))"

definition createAndSubmitQDMIJobToQDMIDevice ::
  "('d, 'j, 's) qdmi \<Rightarrow> bool \<Rightarrow> 32 word \<Rightarrow> QuantumTask \<Rightarrow> (QuantumResult, 's) act" where
  "createAndSubmitQDMIJobToQDMIDevice api ndebug beyond task =
     act_bind (act_call (qd_session_alloc api)) (\<lambda>_.
     act_bind (act_call (qd_session_init api)) (\<lambda>_.
     act_bind (session_devices api) (\<lambda>devices.
     act_bind (act_end (if 1 < length devices then Returns (devices ! 1) else Undefined)) (\<lambda>device.
     act_bind (PrintDeviceName api ndebug device) (\<lambda>_.
     act_bind (act_end (case qt_circuit_files task of [] \<Rightarrow> Undefined | c # cs \<Rightarrow> Returns c)) (\<lambda>circuit.
     act_bind (act_log SpdInfo ''-->Executing circuit:'') (\<lambda>_.
     act_bind (log_all (qt_circuit_files task)) (\<lambda>_.
     act_bind (act_call (qd_create_job api device)) (\<lambda>job.
     act_bind (act_assert ndebug (job \<noteq> None)) (\<lambda>_.
     act_bind (act_log SpdInfo ''Created QDMI Job...'') (\<lambda>_.
     act_bind (submit_parameters api ndebug beyond job circuit (qt_n_shots task)) (\<lambda>_.
     act_bind (run_job api ndebug job) (\<lambda>_.
     act_bind (histogram api ndebug job) (\<lambda>(key_vec, cs).
     act_bind (if length key_vec \<noteq> length cs
               then act_log SpdErr ''Size of Keys Vector not equal to Number of Counts!''
               else act_end (Returns ())) (\<lambda>_.
     act_bind (act_end (gather_counts key_vec cs [])) (\<lambda>res.
     act_bind (act_call (qd_job_free api job)) (\<lambda>_.
     act_bind (act_call (qd_session_free api)) (\<lambda>_.
     act_end (Returns (QuantumResult_default
       \<lparr>qr_task_id := qt_task_id task, qr_executed_circuits := [circuit], qr_execution_status := False,
        qr_results := [\<lparr>counts = res\<rparr>]\<rparr>))))))))))))))))))))"

section \<open>The loop\<close>

definition submitter_round ::
  "('d, 'j, 's) qdmi \<Rightarrow> bool \<Rightarrow> 32 word \<Rightarrow> ('w \<Rightarrow> 's) \<Rightarrow> ('s \<Rightarrow> 'w \<Rightarrow> 'w) \<Rightarrow> (QuantumTask, 'w) recv \<Rightarrow>
   (QuantumResult, 'w) snd_op \<Rightarrow> qrm_Config \<Rightarrow> 'w qrm_process \<Rightarrow> 'w qrm_process outcome option" where
  "submitter_round api ndebug beyond get_s put_s receive send config p0 =
     (let p = spd_info ''Waiting for a new job...'' p0 in
      case receive \<lparr>addr_name = queue_submitter (qrm_queues config)\<rparr> poll_args (qp_world p) of
        None \<Rightarrow> None
      | Some (Inl e, w) \<Rightarrow>
          Some (Returns (if code e = Timeout then p\<lparr>qp_world := w\<rparr>
                else spd_error ''Receive error: '' (p\<lparr>qp_world := w\<rparr>)))
      | Some (Inr task, w) \<Rightarrow>
          (let p1 = spd_info (''Processing new task with id: '' @ int_text (qt_task_id task)) (p\<lparr>qp_world := w\<rparr>);
               (out, s, log) = createAndSubmitQDMIJobToQDMIDevice api ndebug beyond task (get_s w, qp_log p1);
               p2 = p1\<lparr>qp_world := put_s s w, qp_log := log\<rparr>
           in Some (bind_outcome out (\<lambda>circuit_result.
                (let (send_st, w') = send \<lparr>addr_name = qt_result_destination task\<rparr> circuit_result
                       default_send_args (qp_world p2);
                     p3 = spd_info (''Result sent by the Submitter for task: '' @ int_text (qt_task_id task))
                       (p2\<lparr>qp_world := w'\<rparr>)
                 in Returns (if \<not> ok send_st
                      then spd_error (''Failed to send result: '' @ reason send_st) p3 else p3))))))"

section \<open>Lemmas\<close>

lemma act_bind_end [simp]:
  "act_bind (act_end (Returns x)) f st = f x st"
  "act_bind (act_end (Throws e)) f st = (Throws e, st)"
  "act_bind (act_end Aborts) f st = (Aborts, st)"
  "act_bind (act_end Undefined) f st = (Undefined, st)"
  by (simp_all add: act_defs)

lemma act_bind_log [simp]: "act_bind (act_log l msg) f st = f () (fst st, snd st @ [(l, msg)])"
  by (simp add: act_defs)

lemma act_bind_call [simp]:
  "act_bind (act_call g) f st = f (fst (g (fst st))) (snd (g (fst st)), snd st)"
  by (simp add: act_defs)

lemma act_bind_assert [simp]:
  "act_bind (act_assert ndebug b) f st = (if b \<or> ndebug then f () st else (Aborts, st))"
  by (simp add: act_defs)

lemma act_bind_step: "m st = (Returns x, st') \<Longrightarrow> act_bind m f st = f x st'"
  by (simp add: act_bind_def)

lemma act_bind_assoc [simp]:
  "act_bind (act_bind m g) f st = act_bind m (\<lambda>x. act_bind (g x) f) st"
  by (simp add: act_bind_def split: prod.splits outcome.splits)

lemma act_bind_returns [returns_iff]:
  "act_bind m f st = (Returns y, st2) \<longleftrightarrow> (\<exists>x st1. m st = (Returns x, st1) \<and> f x st1 = (Returns y, st2))"
  by (auto simp: act_bind_def split: prod.splits outcome.splits)

lemma act_end_returns [returns_iff]:
  "act_end out st = (Returns y, st2) \<longleftrightarrow> out = Returns y \<and> st = st2"
  by (auto simp: act_end_def)

lemma log_all_eq: "log_all cs st = (Returns (), fst st, snd st @ map (Pair SpdInfo) cs)"
  by (induction cs arbitrary: st) (auto simp: act_end_def)

lemma log_all_bind [simp]: "act_bind (log_all cs) f st = f () (fst st, snd st @ map (Pair SpdInfo) cs)"
  by (simp add: act_bind_def log_all_eq)

text \<open>Every result the submitter builds names its task and has the status flag cleared.\<close>

lemma submitted_result:
  assumes "createAndSubmitQDMIJobToQDMIDevice api ndebug beyond task st = (Returns r, st')"
  shows "qr_task_id r = qt_task_id task" and "\<not> qr_execution_status r"
    and "length (qr_results r) = 1" and "qr_executed_circuits r = [hd (qt_circuit_files task)]"
    and "qt_circuit_files task \<noteq> []"
  using assms
  unfolding createAndSubmitQDMIJobToQDMIDevice_def act_bind_returns act_end_returns case_prod_beta
  by (auto split: list.splits)

lemma gather_counts_returns:
  "gather_counts ks cs m =
     (if length ks \<le> length cs
      then Returns (foldl (\<lambda>m (k, c). um_insert_or_assign k c m) m (zip ks (map to_int32 cs)))
      else Undefined)"
  by (induction ks cs m rule: gather_counts.induct) auto

text \<open>The text of the histogram keys, and what splitting it gives back.\<close>

fun key_text :: "string list \<Rightarrow> string" where
  "key_text [] = []"
| "key_text [k] = k"
| "key_text (k # ks) = k @ CHR '','' # key_text ks"

definition keys_ok :: "string list \<Rightarrow> bool" where
  "keys_ok ks \<longleftrightarrow> list_all (\<lambda>k. CHR '','' \<notin> set k) ks \<and> (ks = [] \<or> last ks \<noteq> [])"

lemma getlines_key_text: "keys_ok ks \<Longrightarrow> getlines CHR '','' (key_text ks) = ks"
proof (induction ks rule: key_text.induct)
  case (3 k k' ks)
  then have "keys_ok (k' # ks)" "CHR '','' \<notin> set k" by (simp_all add: keys_ok_def)
  then show ?case using 3 by simp
qed (auto simp: keys_ok_def)

section \<open>A job that runs\<close>

text \<open>
  What the documentation of QDMI says of a query: the size call gives the size of the value, a text's with
  its terminator, and the data call writes the value.
\<close>

definition reports_name :: "('d, 'j, 's) qdmi \<Rightarrow> 'd option \<Rightarrow> 's \<Rightarrow> string \<Rightarrow> bool" where
  "reports_name api d s t \<longleftrightarrow>
     qd_name_size api d s = Some (length t + 1) \<and> qd_name_data api d (length t + 1) s = Some (t @ [CHR 0x00])"

definition reports_keys :: "('d, 'j, 's) qdmi \<Rightarrow> 'j option \<Rightarrow> 's \<Rightarrow> string \<Rightarrow> bool" where
  "reports_keys api job s t \<longleftrightarrow>
     qd_keys_size api job s = Some (length t + 1) \<and> qd_keys_data api job (length t + 1) s = Some (t @ [CHR 0x00])"

definition reports_values :: "('d, 'j, 's) qdmi \<Rightarrow> 'j option \<Rightarrow> 's \<Rightarrow> uint64 list \<Rightarrow> bool" where
  "reports_values api job s cs \<longleftrightarrow>
     qd_values_size api job s = Some (8 * length cs) \<and> qd_values_data api job (8 * length cs) s = Some cs"

definition listed_devices :: "('d, 'j, 's) qdmi \<Rightarrow> 's \<Rightarrow> 'd option list" where
  "listed_devices api s = (case qd_devices_data api (size_or_zero (qd_devices_size api s)) s of
       Some ds \<Rightarrow> ds | None \<Rightarrow> [])"

text \<open>The calls succeed, in every state; then the job's final state is the composition of the calls.\<close>

definition qdmi_succeeds :: "('d, 'j, 's) qdmi \<Rightarrow> bool" where
  "qdmi_succeeds api \<longleftrightarrow> (\<forall>s d j q. 1 < length (listed_devices api s) \<and>
     qd_devices_size api s = Some (8 * length (listed_devices api s)) \<and> (\<exists>t. reports_name api d s t) \<and>
     fst (qd_create_job api d s) \<noteq> None \<and> fst (qd_set_parameter api j q s) \<and> fst (qd_submit api j s) \<and>
     fst (qd_wait api j s) = 0 \<and> qd_check api j s)"

definition finished_job ::
  "('d, 'j, 's) qdmi \<Rightarrow> 32 word \<Rightarrow> string \<Rightarrow> int32 \<Rightarrow> 's \<Rightarrow> 'j option \<times> 's" where
  "finished_job api beyond circuit num_shots s0 =
     (let s1 = snd (qd_session_init api (snd (qd_session_alloc api s0)));
          (job, s2) = qd_create_job api (listed_devices api s1 ! 1) s1;
          s3 = snd (qd_set_parameter api job ProgramFormat_QASM2 s2);
          s4 = snd (qd_set_parameter api job (Program circuit) s3);
          s5 = (if 0 < sint num_shots
                then snd (qd_set_parameter api job (ShotsNum (shots_read beyond num_shots)) s4) else s4)
      in (job, snd (qd_wait api job (snd (qd_submit api job s5)))))"

lemma succeeds:
  assumes "qdmi_succeeds api"
  shows "1 < length (listed_devices api s)" "qd_devices_size api s = Some (8 * length (listed_devices api s))"
    "\<exists>t. reports_name api d s t"
    "\<exists>j. fst (qd_create_job api d s) = Some j" "fst (qd_set_parameter api j q s)"
    "fst (qd_submit api j s)" "fst (qd_wait api j s) = 0" "qd_check api j s"
  using assms by (auto simp: qdmi_succeeds_def)

lemma fill_exact: "k = length xs \<Longrightarrow> fill_vector z k (Some xs) = Returns xs"
  by (simp add: fill_vector_def)

lemma fill_terminated: "k = length t + 1 \<Longrightarrow> fill_string k (Some (t @ [CHR 0x00])) = Returns t"
  by (simp add: fill_string_def fill_vector_def)

lemma query_string_runs:
  assumes size: "size_call s = Some k" and k: "k = length t + 1"
    and data: "data_call k s = Some (t @ [CHR 0x00])"
  shows "query_string ndebug size_call data_call (s, lg) = (Returns t, s, lg)"
proof -
  have "sized_string k = Returns ()" using k by (simp add: sized_string_def)
  then show ?thesis
    by (simp add: query_string_def size data size_or_zero_def fill_terminated [OF k] act_end_def)
qed

lemma devices_run:
  assumes "qdmi_succeeds api"
  shows "session_devices api (s, lg) = (Returns (listed_devices api s), s, lg)"
proof -
  define ds where "ds = listed_devices api s"
  have size: "qd_devices_size api s = Some (8 * length ds)" and two: "1 < length ds"
    unfolding ds_def by (rule succeeds(2) [OF assms], rule succeeds(1) [OF assms])
  have "ds = (case qd_devices_data api (8 * length ds) s of Some ds \<Rightarrow> ds | None \<Rightarrow> [])"
    by (subst (1) ds_def) (simp only: listed_devices_def size size_or_zero_def option.case)
  then have data: "qd_devices_data api (8 * length ds) s = Some ds"
    using two by (cases "qd_devices_data api (8 * length ds) s") simp_all
  show ?thesis
    unfolding ds_def [symmetric]
    by (simp add: session_devices_def size data size_or_zero_def fill_exact act_end_def)
qed

lemma print_name_runs:
  assumes "qdmi_succeeds api"
  shows "\<exists>lg'. PrintDeviceName api ndebug d (s, lg) = (Returns (), s, lg')"
proof -
  obtain t where t: "reports_name api d s t" using succeeds(3) [OF assms] by blast
  have "query_string ndebug (qd_name_size api d) (qd_name_data api d) (s, lg) = (Returns t, s, lg)"
    by (rule query_string_runs [OF _ refl]) (use t in \<open>simp_all add: reports_name_def\<close>)
  note step = act_bind_step [where m = "query_string ndebug (qd_name_size api d) (qd_name_data api d)", OF this]
  show ?thesis by (simp add: PrintDeviceName_def act_log_def step)
qed

lemma parameters_run:
  assumes "qdmi_succeeds api"
  shows "\<exists>lg'. submit_parameters api ndebug beyond job c n (s, lg) =
    (Returns (), let s4 = snd (qd_set_parameter api job (Program c)
                (snd (qd_set_parameter api job ProgramFormat_QASM2 s)))
          in if 0 < sint n then snd (qd_set_parameter api job (ShotsNum (shots_read beyond n)) s4) else s4,
          lg')"
  by (cases "0 < sint n") (simp_all add: submit_parameters_def succeeds(5) [OF assms] Let_def act_log_def)

lemma job_runs:
  assumes "qdmi_succeeds api"
  shows "\<exists>lg'. run_job api ndebug job (s, lg) =
    (Returns (), snd (qd_wait api job (snd (qd_submit api job s))), lg')"
  by (simp add: run_job_def succeeds(6-8) [OF assms] act_assert_def)

lemma histogram_runs:
  assumes "reports_keys api job s t" and "reports_values api job s cs"
  shows "histogram api ndebug job (s, lg) = (Returns (getlines CHR '','' t, cs), s, lg)"
proof -
  have "query_string ndebug (qd_keys_size api job) (qd_keys_data api job) (s, lg) = (Returns t, s, lg)"
    by (rule query_string_runs [OF _ refl]) (use assms(1) in \<open>simp_all add: reports_keys_def\<close>)
  note step = act_bind_step [where m = "query_string ndebug (qd_keys_size api job) (qd_keys_data api job)", OF this]
  show ?thesis
    using assms(2) by (simp add: histogram_def step reports_values_def size_or_zero_def fill_exact act_end_def)
qed

text \<open>A job returns its histogram, or runs past the counts when they are fewer than the keys.\<close>

lemma job_outcome:
  assumes ok: "qdmi_succeeds api" and c: "qt_circuit_files task = c # files"
    and job: "finished_job api beyond c (qt_n_shots task) s = (job, s')"
    and keys: "reports_keys api job s' t" and vals: "reports_values api job s' cs"
  shows "\<exists>st. createAndSubmitQDMIJobToQDMIDevice api ndebug beyond task (s, lg) =
    (bind_outcome (gather_counts (getlines CHR '','' t) cs []) (\<lambda>m. Returns
       (QuantumResult_default\<lparr>qr_task_id := qt_task_id task, qr_executed_circuits := [c],
        qr_execution_status := False, qr_results := [\<lparr>counts = m\<rparr>]\<rparr>)), st)"
proof -
  define s1 where "s1 = snd (qd_session_init api (snd (qd_session_alloc api s)))"
  define d where "d = listed_devices api s1 ! 1"
  define s2 where "s2 = snd (qd_create_job api d s1)"
  obtain j where j: "fst (qd_create_job api d s1) = Some j" using succeeds(4) [OF ok] by blast
  define s3 where "s3 = (let s4 = snd (qd_set_parameter api (Some j) (Program c)
        (snd (qd_set_parameter api (Some j) ProgramFormat_QASM2 s2)))
      in if 0 < sint (qt_n_shots task)
         then snd (qd_set_parameter api (Some j) (ShotsNum (shots_read beyond (qt_n_shots task))) s4)
         else s4)"
  have "qd_create_job api (listed_devices api s1 ! 1) s1 = (Some j, s2)"
    using j by (simp add: s2_def d_def prod_eq_iff)
  then have job': "job = Some j" "s' = snd (qd_wait api (Some j) (snd (qd_submit api (Some j) s3)))"
    using job unfolding finished_job_def s1_def [symmetric] s3_def by (auto simp: Let_def)
  obtain lg1 where p: "PrintDeviceName api ndebug d (s1, lg) = (Returns (), s1, lg1)"
    using print_name_runs [OF ok] by blast
  define lg2 where "lg2 = lg1 @ (SpdInfo, ''-->Executing circuit:'') # (SpdInfo, c) #
      map (Pair SpdInfo) files @ [(SpdInfo, ''Created QDMI Job...'')]"
  obtain lg3 where q: "submit_parameters api ndebug beyond (Some j) c (qt_n_shots task) (s2, lg2) =
      (Returns (), s3, lg3)"
    using parameters_run [OF ok] unfolding s3_def by blast
  obtain lg4 where r: "run_job api ndebug (Some j) (s3, lg3) = (Returns (), s', lg4)"
    using job_runs [OF ok] unfolding job'(2) by blast
  note steps = act_bind_step [where m = "session_devices api", OF devices_run [OF ok, of s1 lg]]
    act_bind_step [where m = "PrintDeviceName api ndebug d", OF p]
    act_bind_step [where m = "submit_parameters api ndebug beyond (Some j) c (qt_n_shots task)",
      OF q [unfolded lg2_def]]
    act_bind_step [where m = "run_job api ndebug (Some j)", OF r]
    act_bind_step [where m = "histogram api ndebug (Some j)",
      OF histogram_runs [OF keys [unfolded job'(1)] vals [unfolded job'(1)]]]
  have "1 < length (listed_devices api s1)" by (rule succeeds(1) [OF ok])
  moreover have "listed_devices api s1 ! Suc 0 = d" by (simp add: d_def)
  ultimately show ?thesis
    using j
    by (cases "gather_counts (getlines CHR '','' t) cs []")
      (simp_all add: createAndSubmitQDMIJobToQDMIDevice_def c s1_def [symmetric]
        s2_def [symmetric] act_end_def steps)
qed

lemma shots_read_uint: "uint (shots_read beyond n) = 2 ^ 32 * uint beyond + uint n"
proof -
  have b: "uint beyond < 2 ^ 32" "uint n < 2 ^ 32" "0 \<le> uint beyond" "0 \<le> uint n"
    using uint_lt2p [of beyond] uint_lt2p [of n] by simp_all
  have "uint (shots_read beyond n) = (uint n + uint beyond * 2 ^ 32) mod 2 ^ 64"
    unfolding shots_read_def word_cat_eq' uint_word_of_int concat_bit_eq push_bit_eq_mult take_bit_eq_mod
    using b by simp
  then show ?thesis using b by simp
qed

lemma sint_positive: "0 < sint (w :: int32) \<Longrightarrow> sint w = uint w"
proof -
  assume "0 < sint w"
  moreover have "sint w = uint w - 2 ^ 32 * of_bool (bit (uint w) 31)"
    using uint_lt2p [of w] by (simp add: sint_uint signed_take_bit_eq_take_bit_minus take_bit_int_eq_self)
  moreover have "uint w < 2 ^ 32" using uint_lt2p [of w] by simp
  ultimately show ?thesis by (cases "bit (uint w) 31") simp_all
qed

text \<open>A simulated device, the second of three, that finds two outcomes.\<close>

definition demo_qdmi :: "(nat, nat, job_parameter list) qdmi" where
  "demo_qdmi = \<lparr>qd_session_alloc = (\<lambda>s. ((), s)), qd_session_init = (\<lambda>s. ((), s)),
     qd_devices_size = (\<lambda>s. Some 24), qd_devices_data = (\<lambda>n s. Some [Some 0, Some 1, Some 2]),
     qd_name_size = (\<lambda>d s. Some 10), qd_name_data = (\<lambda>d n s. Some (''MQT_DDSIM'' @ [CHR 0x00])),
     qd_create_job = (\<lambda>d s. (Some (case d of Some i \<Rightarrow> i | None \<Rightarrow> 0), [])),
     qd_set_parameter = (\<lambda>j q s. (True, s @ [q])), qd_submit = (\<lambda>j s. (True, s)),
     qd_wait = (\<lambda>j s. (0, s)), qd_check = (\<lambda>j s. True),
     qd_keys_size = (\<lambda>j s. Some 6), qd_keys_data = (\<lambda>j n s. Some (''00,11'' @ [CHR 0x00])),
     qd_values_size = (\<lambda>j s. Some 16), qd_values_data = (\<lambda>j n s. Some [3, 5]),
     qd_job_free = (\<lambda>j s. ((), s)), qd_session_free = (\<lambda>s. ((), s))\<rparr>"

lemma demo_reports: "reports_name demo_qdmi d s ''MQT_DDSIM''" "reports_keys demo_qdmi j s ''00,11''"
  "reports_values demo_qdmi j s [3, 5]" "listed_devices demo_qdmi s = [Some 0, Some 1, Some 2]"
  by (simp_all add: reports_name_def reports_keys_def reports_values_def listed_devices_def demo_qdmi_def)

lemma demo_succeeds: "qdmi_succeeds demo_qdmi"
  using demo_reports(1,4) by (auto simp: qdmi_succeeds_def) (simp_all add: demo_qdmi_def)

lemma submitter_round_answers:
  assumes "receive \<lparr>addr_name = queue_submitter (qrm_queues config)\<rparr> poll_args (qp_world p) = Some (Inr task, w)"
    and "\<And>lg. \<exists>st. createAndSubmitQDMIJobToQDMIDevice api ndebug beyond task (get_s w, lg) = (Returns r, st)"
    and "\<And>s. send \<lparr>addr_name = qt_result_destination task\<rparr> r default_send_args (put_s s w) = (success, w')"
  shows "\<exists>p'. submitter_round api ndebug beyond get_s put_s receive send config p = Some (Returns p') \<and>
    qp_world p' = w'"
proof -
  let ?p1 = "spd_info (''Processing new task with id: '' @ int_text (qt_task_id task))
      ((spd_info ''Waiting for a new job...'' p)\<lparr>qp_world := w\<rparr>)"
  obtain s lg where "createAndSubmitQDMIJobToQDMIDevice api ndebug beyond task (get_s w, qp_log ?p1) =
      (Returns r, s, lg)" using assms(2) [of "qp_log ?p1"] by auto
  then show ?thesis using assms(1,3) by (simp add: submitter_round_def Let_def)
qed

text \<open>
  A job whose histogram is complete returns the counts; used for the passage of a task through the
  whole workflow.
\<close>

definition histogram_result :: "QuantumTask \<Rightarrow> string \<Rightarrow> string list \<Rightarrow> uint64 list \<Rightarrow> QuantumResult" where
  "histogram_result task c ks cs = QuantumResult_default
     \<lparr>qr_task_id := qt_task_id task, qr_executed_circuits := [c], qr_execution_status := False,
      qr_results := [\<lparr>counts = foldl (\<lambda>m (k, c). um_insert_or_assign k c m) [] (zip ks (map to_int32 cs))\<rparr>]\<rparr>"

lemma job_returns:
  assumes "qdmi_succeeds api" and "qt_circuit_files task = c # files"
    and "finished_job api beyond c (qt_n_shots task) s = (job, s')"
    and "reports_keys api job s' (key_text ks)" and "keys_ok ks"
    and "reports_values api job s' cs" and "length ks \<le> length cs"
  shows "\<exists>st. createAndSubmitQDMIJobToQDMIDevice api ndebug beyond task (s, lg) =
    (Returns (histogram_result task c ks cs), st)"
  using job_outcome [OF assms(1-4,6), of ndebug lg]
  by (simp add: getlines_key_text [OF assms(5)] gather_counts_returns assms(7) histogram_result_def)

section \<open>Properties\<close>

text \<open>
  C32: what a job's histogram becomes. If every QDMI call succeeds and the device reports distinct
  outcomes without commas, the last one not empty, then the submitter returns, for the task's
  identifier, the first circuit and one histogram that maps each outcome to its count (cut to 32
  bits); counts beyond the outcomes are ignored, and with fewer counts than outcomes the program
  reads beyond the vector. This holds with and without assertions.
\<close>

theorem submitter_returns_histogram:
  assumes "qdmi_succeeds api" and "qt_circuit_files task = c # files"
    and "finished_job api beyond c (qt_n_shots task) s = (job, s')"
    and "reports_keys api job s' (key_text ks)" and "keys_ok ks" and "distinct ks"
    and "reports_values api job s' cs"
  shows "\<exists>out st. createAndSubmitQDMIJobToQDMIDevice api ndebug beyond task (s, lg) = (out, st) \<and>
    (if length ks \<le> length cs
     then \<exists>r m. out = Returns r \<and> qr_task_id r = qt_task_id task \<and> qr_executed_circuits r = [c] \<and>
            qr_results r = [\<lparr>counts = m\<rparr>] \<and> um_wf m \<and> um_find m = map_of (zip ks (map to_int32 cs))
     else out = Undefined)"
proof -
  let ?m = "foldl (\<lambda>m (k, c). um_insert_or_assign k c m) [] (zip ks (map to_int32 cs))"
  have m: "um_wf ?m" "um_find ?m = map_of (zip ks (map to_int32 cs))"
    using um.wf_fill_assign [OF um.wf_empty] map_of_rev_zip [OF assms(6)]
    by (simp_all add: um.fill_assign um.find_empty)
  show ?thesis
    using job_outcome [OF assms(1-4,7), of ndebug lg] m
    by (cases "length ks \<le> length cs") (auto simp: getlines_key_text [OF assms(5)] gather_counts_returns)
qed

theorem submitter_returns_histogram_witness:
  "\<exists>r st m. createAndSubmitQDMIJobToQDMIDevice demo_qdmi False 0
     (QuantumTask_default\<lparr>qt_task_id := 9, qt_circuit_files := [''bell'']\<rparr>) ([], []) = (Returns r, st) \<and>
   qr_task_id r = 9 \<and> qr_results r = [\<lparr>counts = m\<rparr>] \<and> um_find m ''11'' = Some 5"
proof -
  let ?t = "QuantumTask_default\<lparr>qt_task_id := 9, qt_circuit_files := [''bell'']\<rparr>"
  have "finished_job demo_qdmi 0 ''bell'' (qt_n_shots ?t) [] =
      (Some 1, [ProgramFormat_QASM2, Program ''bell''])"
    by (simp add: finished_job_def demo_reports(4)) (simp add: demo_qdmi_def QuantumTask_default_def)
  from submitter_returns_histogram [OF demo_succeeds _ this, of "[]" "[''00'', ''11'']" "[3, 5]" False "[]"]
  show ?thesis by (auto simp: demo_reports keys_ok_def to_int32_def)
qed

text \<open>
  What a failed query becomes. Assertions are the only check of the status, so a release build goes on: a size
  that was not delivered is 0, and the string of length \<open>0 - 1\<close> cannot be made; a text that was not
  delivered is a string of zeros.
\<close>

theorem failed_query:
  assumes "size_call s = None \<or> (\<exists>n. size_call s = Some (Suc n) \<and> data_call (Suc n) s = None)"
  shows "query_string ndebug size_call data_call (s, lg) =
    (if \<not> ndebug then Aborts
     else case size_call s of None \<Rightarrow> Throws ''std::length_error''
          | Some k \<Rightarrow> Returns (replicate (k - 1) (CHR 0x00)), s, lg)"
proof -
  have "butlast (replicate (Suc n) CHR 0x00) = replicate n CHR 0x00" for n
    by (metis butlast_snoc replicate_Suc replicate_append_same)
  then have zeros: "fill_string (Suc n) None = Returns (replicate n (CHR 0x00))" for n
    by (simp add: fill_string_def fill_vector_def last_replicate del: replicate.simps)
  show ?thesis using assms
    by (elim disjE exE conjE)
      (simp_all add: query_string_def size_or_zero_def sized_string_def zeros act_end_def act_bind_def
        act_call_def act_assert_def)
qed

theorem failed_query_witness:
  "query_string True (\<lambda>s. None) (\<lambda>n s. Some ''never asked for'') ((), []) =
     (Throws ''std::length_error'', (), [])"
  using failed_query [of "\<lambda>s. None" "()" "\<lambda>n s. Some ''never asked for''" True "[]"] by simp

text \<open>
  The shots parameter is right only by chance. The device is given 8 bytes at the address of the
  4-byte number of shots: it sees the task's number of shots exactly when the four bytes that
  follow it in memory are zero.
\<close>

theorem shots_parameter_exact:
  assumes "0 < sint num_shots"
  shows "uint (shots_read beyond num_shots) = sint num_shots \<longleftrightarrow> beyond = 0"
proof -
  have "sint num_shots = uint num_shots" by (rule sint_positive [OF assms])
  then show ?thesis by (simp add: shots_read_uint uint_0_iff)
qed

theorem shots_parameter_exact_witness: "uint (shots_read 1 1000) \<noteq> 1000"
  using shots_parameter_exact [of "1000" 1] by simp

text \<open>
  C37: a control task run by this workflow ends as cancelled, if the identifier it was assigned is below \<open>2 ^ 31\<close>
  (\<open>fits_int32\<close>; otherwise its result is not recognized, as the theory \<open>Forward\<close> shows, and it stays waiting). Whatever the device
  did, the result that the submitter returns for the control task makes QOffload report the task as cancelled, while
  its counts are stored: the submitter never sets the execution status.
\<close>

theorem workflow_cancels_control_tasks:
  assumes "fits_int32 (fst (nextTaskId f))"
    and "createControlTask task config f tasks = (fwd, f', tasks')"
    and "qt_task_id submitted = qt_task_id fwd"
    and "createAndSubmitQDMIJobToQDMIDevice api ndebug beyond submitted st = (Returns r, st')"
  shows "\<exists>out tasks''. processResult r tasks' = (out, tasks'') \<and> outcome_kind out = ControlResultStored \<and>
    status (fst (nextTaskId f)) tasks'' = Cancelled"
  using control_task_roundtrip [OF assms(1,2), of r] submitted_result [OF assms(4)] assms(3) by auto

theorem workflow_cancels_control_tasks_witness:
  "\<exists>r out tasks''. processResult r (snd (snd (createControlTask QuantumTask_default
      \<lparr>fc_result_queue = ''results'', fc_hpc_node = False\<rparr> (Forward_init 13) TaskStore_empty))) =
      (out, tasks'') \<and> status 13 tasks'' = Cancelled"
proof -
  let ?cfg = "\<lparr>fc_result_queue = ''results'', fc_hpc_node = False\<rparr>"
  obtain fwd f' tasks' where
    fwd: "createControlTask QuantumTask_default ?cfg (Forward_init 13) TaskStore_empty = (fwd, f', tasks')"
    by (metis prod_cases3)
  have fits: "fits_int32 (fst (nextTaskId (Forward_init 13)))" "fst (nextTaskId (Forward_init 13)) = 13"
    by (simp_all add: Forward_init_def fits_int32_def)
  let ?t = "fwd\<lparr>qt_circuit_files := [''bell''], qt_n_shots := 0\<rparr>"
  have job: "finished_job demo_qdmi 0 ''bell'' (qt_n_shots ?t) [] =
      (Some 1, [ProgramFormat_QASM2, Program ''bell''])"
    by (simp add: finished_job_def demo_reports(4)) (simp add: demo_qdmi_def)
  have "\<exists>r st. createAndSubmitQDMIJobToQDMIDevice demo_qdmi False 0 ?t ([], []) = (Returns r, st)"
    using job_returns [OF demo_succeeds _ job, of "[]" "[''00'', ''11'']" "[3, 5]" False "[]"]
    by (auto simp: demo_reports keys_ok_def)
  then obtain r st where "createAndSubmitQDMIJobToQDMIDevice demo_qdmi False 0 ?t ([], []) = (Returns r, st)"
    by blast
  from workflow_cancels_control_tasks [OF fits(1) fwd _ this] fwd fits(2) show ?thesis by auto
qed

end
