(* ===== verification/Qrm_Programs.thy ===== *)
theory Qrm_Programs
  imports Qrm_Compiler Qrm_Submitter
begin

text \<open>
  The four programs of the QRM workflow as a whole: the common beginning (\<open>qrm_setup\<close>), the messenger
  made from the configured options, the first log line, and the polling loop. The loop has no exit,
  so a program is given a number of rounds and its value is what it is after them: \<open>None\<close> if a receive
  did not return, the process, or how it ended. \<open>connect\<close> is the constructor of the messenger.
\<close>

fun poll_loop :: "nat \<Rightarrow> ('p \<Rightarrow> 'p outcome option) \<Rightarrow> 'p \<Rightarrow> 'p outcome option" where
  "poll_loop 0 body p = Some (Returns p)"
| "poll_loop (Suc n) body p =
     (case body p of Some (Returns p') \<Rightarrow> poll_loop n body p' | ended \<Rightarrow> ended)"

definition run_program ::
  "(qrm_Config \<times> logger \<times> RabbitMqSimple_options) outcome \<Rightarrow> (RabbitMqSimple_options \<Rightarrow> 'w) \<Rightarrow> string \<Rightarrow>
   (qrm_Config \<Rightarrow> 'w qrm_process \<Rightarrow> 'r outcome option) \<Rightarrow> 'r outcome option" where
  "run_program setup connect start body =
     (case setup of
        Returns (config, lg, opts) \<Rightarrow>
          body config (spd_info start \<lparr>qp_world = connect opts, qp_log = []\<rparr>)
      | Throws e \<Rightarrow> Some (Throws e)
      | Aborts \<Rightarrow> Some Aborts
      | Undefined \<Rightarrow> Some Undefined)"

definition scheduler_main ::
  "nat \<Rightarrow> bool \<Rightarrow> qrm_build \<Rightarrow> env \<Rightarrow> string list \<Rightarrow> (sink \<Rightarrow> string option) \<Rightarrow> qrm_config_store \<Rightarrow>
   (RabbitMqSimple_options \<Rightarrow> 'w) \<Rightarrow> (QuantumTask, 'w) recv \<Rightarrow> (QuantumTask, 'w) snd_op \<Rightarrow>
   'w qrm_process outcome option" where
  "scheduler_main rounds ndebug build env argv throws store connect receive send =
     run_program (qrm_setup ndebug build env argv throws scheduler_logger scheduler_log store) connect
       ''Starting MQSS scheduler''
       (\<lambda>config. poll_loop rounds (\<lambda>p. map_option Returns (scheduler_round receive send config p)))"

definition compiler_main ::
  "nat \<Rightarrow> bool \<Rightarrow> qrm_build \<Rightarrow> env \<Rightarrow> string list \<Rightarrow> (sink \<Rightarrow> string option) \<Rightarrow> qrm_config_store \<Rightarrow>
   (RabbitMqSimple_options \<Rightarrow> 'w) \<Rightarrow> ('m, 's) mlir \<Rightarrow> ('w \<Rightarrow> 's) \<Rightarrow> ('s \<Rightarrow> 'w \<Rightarrow> 'w) \<Rightarrow>
   (QuantumTask, 'w) recv \<Rightarrow> (QuantumTask, 'w) snd_op \<Rightarrow> 'w qrm_process outcome option" where
  "compiler_main rounds ndebug build env argv throws store connect mlir get_s put_s receive send =
     run_program (qrm_setup ndebug build env argv throws compiler_logger compiler_log store) connect
       ''Starting MQSS compiler''
       (\<lambda>config. poll_loop rounds (compiler_round mlir get_s put_s receive send config))"

definition submitter_main ::
  "nat \<Rightarrow> bool \<Rightarrow> qrm_build \<Rightarrow> env \<Rightarrow> string list \<Rightarrow> (sink \<Rightarrow> string option) \<Rightarrow> qrm_config_store \<Rightarrow>
   (RabbitMqSimple_options \<Rightarrow> 'w) \<Rightarrow> ('d, 'j, 's) qdmi \<Rightarrow> 32 word \<Rightarrow> ('w \<Rightarrow> 's) \<Rightarrow> ('s \<Rightarrow> 'w \<Rightarrow> 'w) \<Rightarrow>
   (QuantumTask, 'w) recv \<Rightarrow> (QuantumResult, 'w) snd_op \<Rightarrow> 'w qrm_process outcome option" where
  "submitter_main rounds ndebug build env argv throws store connect qdmi beyond get_s put_s receive send =
     run_program (qrm_setup ndebug build env argv throws submitter_logger submitter_log store) connect
       ''Starting MQSS Submitter''
       (\<lambda>config. poll_loop rounds (submitter_round qdmi ndebug beyond get_s put_s receive send config))"

text \<open>The daemon is no loop; \<open>daemon_main\<close> is its body after the messenger is made.\<close>

definition daemon_program ::
  "bool \<Rightarrow> qrm_build \<Rightarrow> env \<Rightarrow> string list \<Rightarrow> (sink \<Rightarrow> string option) \<Rightarrow> qrm_config_store \<Rightarrow>
   (RabbitMqSimple_options \<Rightarrow> 'w) \<Rightarrow> (QuantumResult, 'w) recv \<Rightarrow> (QuantumTask, 'w) snd_op \<Rightarrow> ('w \<Rightarrow> 'w) \<Rightarrow>
   (int outcome \<times> 'w qrm_process) outcome option" where
  "daemon_program ndebug build env argv throws store connect receive send others =
     (case qrm_setup ndebug build env argv throws daemon_logger daemon_log store of
        Returns (config, lg, opts) \<Rightarrow>
          map_option Returns (daemon_main receive send others config
            \<lparr>qp_world = connect opts, qp_log = []\<rparr>)
      | Throws e \<Rightarrow> Some (Throws e)
      | Aborts \<Rightarrow> Some Aborts
      | Undefined \<Rightarrow> Some Undefined)"

section \<open>Lemmas\<close>

text \<open>The setup with a configuration that was not set before.\<close>

definition fresh_store :: "qrm_Config \<Rightarrow> qrm_config_store" where
  "fresh_store c = \<lparr>stored_config = c, config_initialized = False\<rparr>"

lemma setup_fresh:
  "qrm_setup ndebug build env argv throws name_of log_of (fresh_store c) =
   bind_outcome (qrm_makeLogger throws (name_of (qrm_logging (qrm_loadConfig build env argv)))
       (log_of (qrm_logging (qrm_loadConfig build env argv))))
     (\<lambda>lg. Returns (qrm_loadConfig build env argv, lg, qrm_transport_options (qrm_loadConfig build env argv)))"
  by (simp add: qrm_setup_def qrm_initConfig_def qrm_getConfig_def fresh_store_def)

lemma logger_without_failures: "\<exists>lg. qrm_makeLogger (\<lambda>_. None) name file = Returns lg"
  by (simp add: qrm_makeLogger_def push_sink_def)

lemma logger_ends:
  "qrm_makeLogger throws name file = out \<Longrightarrow> out \<noteq> Aborts \<and> out \<noteq> Undefined"
  by (auto simp: qrm_makeLogger_def split: sum.splits)

lemma run_program_fresh:
  "\<exists>p. qp_world p = connect (qrm_transport_options (qrm_loadConfig build env argv)) \<and>
     qp_log p = [(SpdInfo, start)] \<and>
     run_program (qrm_setup ndebug build env argv (\<lambda>_. None) name_of log_of (fresh_store c)) connect start body =
     body (qrm_loadConfig build env argv) p"
  using logger_without_failures [of "name_of (qrm_logging (qrm_loadConfig build env argv))"
    "log_of (qrm_logging (qrm_loadConfig build env argv))"]
  by (auto simp: run_program_def setup_fresh spd_info_def
      intro!: exI [of _ "\<lparr>qp_world = connect (qrm_transport_options (qrm_loadConfig build env argv)),
        qp_log = [(SpdInfo, start)]\<rparr>"])

lemma scheduler_main_fresh:
  "\<exists>q. qp_world q = connect (qrm_transport_options (qrm_loadConfig build env argv)) \<and>
     scheduler_main n ndebug build env argv (\<lambda>_. None) (fresh_store c) connect receive send =
     poll_loop n (\<lambda>p. map_option Returns (scheduler_round receive send (qrm_loadConfig build env argv) p)) q"
  unfolding scheduler_main_def by (rule exE [OF run_program_fresh]) (intro exI conjI; elim conjE; assumption)

lemma compiler_main_fresh:
  "\<exists>q. qp_world q = connect (qrm_transport_options (qrm_loadConfig build env argv)) \<and>
     compiler_main n ndebug build env argv (\<lambda>_. None) (fresh_store c) connect mlir get_s put_s receive send =
     poll_loop n (compiler_round mlir get_s put_s receive send (qrm_loadConfig build env argv)) q"
  unfolding compiler_main_def by (rule exE [OF run_program_fresh]) (intro exI conjI; elim conjE; assumption)

lemma submitter_main_fresh:
  "\<exists>q. qp_world q = connect (qrm_transport_options (qrm_loadConfig build env argv)) \<and>
     submitter_main n ndebug build env argv (\<lambda>_. None) (fresh_store c) connect qdmi beyond get_s put_s receive send =
     poll_loop n (submitter_round qdmi ndebug beyond get_s put_s receive send (qrm_loadConfig build env argv)) q"
  unfolding submitter_main_def by (rule exE [OF run_program_fresh]) (intro exI conjI; elim conjE; assumption)

lemma poll_loop_add:
  "poll_loop (m + n) body p = (case poll_loop m body p of
     Some (Returns p') \<Rightarrow> poll_loop n body p' | ended \<Rightarrow> ended)"
  by (induction m arbitrary: p) (auto split: option.splits outcome.splits)

text \<open>What every round keeps, the loop keeps; and how a round can end is how the loop can end.\<close>

lemma poll_loop_keeps:
  assumes "poll_loop n body p = Some (Returns p')" and "P p"
    and "\<And>p p'. P p \<Longrightarrow> body p = Some (Returns p') \<Longrightarrow> P p'"
  shows "P p'"
  using assms(1,2)
  by (induction n arbitrary: p) (auto split: option.splits outcome.splits intro: assms(3))

lemma poll_loop_ends:
  assumes "poll_loop n body p = Some out" and "\<And>p out. body p = Some out \<Longrightarrow> Q out"
    and "\<And>p. Q (Returns p)"
  shows "Q out"
  using assms(1) by (induction n arbitrary: p) (auto split: option.splits outcome.splits intro: assms(2,3))

lemma scheduler_log_grows:
  "scheduler_round receive send config p = Some p' \<Longrightarrow> \<exists>more. qp_log p' = qp_log p @ more \<and> more \<noteq> []"
  by (auto simp: scheduler_round_def spd_info_def spd_error_def Let_def
      split: option.splits sum.splits prod.splits if_splits)

section \<open>The circuit that ends the compiler\<close>

text \<open>
  A circuit that does not parse, reached because a temporary file could be made for it and for each circuit
  before it, which parsed. (Without a temporary file the source throws, and the task is dropped.)
\<close>

fun stops_compiler :: "('m, 's) mlir \<Rightarrow> string list \<Rightarrow> 's \<Rightarrow> bool" where
  "stops_compiler mlir [] s = False"
| "stops_compiler mlir (c # cs) s =
     (let (fd, s') = ml_mkstemp mlir s
      in 0 \<le> fd \<and> (case ml_parse mlir c s' of None \<Rightarrow> True | Some m \<Rightarrow> stops_compiler mlir cs s'))"

lemma compile_loop_outcome:
  "(fst (compile_loop mlir task i files u errors s) = Undefined \<longleftrightarrow> stops_compiler mlir files s) \<and>
   fst (compile_loop mlir task i files u errors s) \<noteq> Aborts"
proof (induction files arbitrary: i u errors s)
  case (Cons c files)
  obtain fd s1 where t: "ml_mkstemp mlir s = (fd, s1)" by fastforce
  consider "fd < 0" | "0 \<le> fd" "ml_parse mlir c s1 = None" | m where "0 \<le> fd" "ml_parse mlir c s1 = Some m" by fastforce
  then show ?case
  proof cases
    case 3
    from lower_returns [OF t 3, of "qt_optimisation_level task" "qt_preferred_qpu task"] obtain es where
      "lowerToOutputFormat mlir c (qt_optimisation_level task) (qt_preferred_qpu task) ''OpenQasm2'' s =
        (Returns (lowered mlir (qt_preferred_qpu task) m), es, s1)" by blast
    with Cons.IH 3 t show ?thesis by simp
  qed (simp_all add: lowerToOutputFormat_def t)
qed simp

lemma passes_outcome:
  "fst (applyOptimizationPasses mlir task s) = Undefined \<longleftrightarrow> stops_compiler mlir (qt_circuit_files task) s"
  "fst (applyOptimizationPasses mlir task s) \<noteq> Aborts"
  using compile_loop_outcome [of mlir task 0 "qt_circuit_files task" "[]" "[]" s]
  by (auto simp: applyOptimizationPasses_def split: prod.splits outcome.splits)

lemma compiler_round_outcome:
  "compiler_round mlir get_s put_s receive send config p = Some Undefined \<longleftrightarrow>
     (\<exists>task w. receive \<lparr>addr_name = queue_compiler (qrm_queues config)\<rparr> poll_args (qp_world p) = Some (Inr task, w) \<and>
        stops_compiler mlir (qt_circuit_files task) (get_s w))"
  "compiler_round mlir get_s put_s receive send config p \<noteq> Some Aborts"
  "compiler_round mlir get_s put_s receive send config p \<noteq> Some (Throws e)"
proof -
  have passes: "fst (applyOptimizationPasses mlir task s) = Undefined \<longleftrightarrow> stops_compiler mlir (qt_circuit_files task) s"
    "fst (applyOptimizationPasses mlir task s) \<noteq> Aborts" for task s by (rule passes_outcome)+
  show "compiler_round mlir get_s put_s receive send config p = Some Undefined \<longleftrightarrow>
     (\<exists>task w. receive \<lparr>addr_name = queue_compiler (qrm_queues config)\<rparr> poll_args (qp_world p) = Some (Inr task, w) \<and>
        stops_compiler mlir (qt_circuit_files task) (get_s w))"
    unfolding passes(1) [symmetric]
    by (auto simp: compiler_round_def Let_def split: option.splits sum.splits prod.splits outcome.splits)
  show "compiler_round mlir get_s put_s receive send config p \<noteq> Some Aborts"
    using passes(2)
    by (auto simp: compiler_round_def Let_def split: option.splits sum.splits prod.splits outcome.splits)
      (metis fst_conv)
  show "compiler_round mlir get_s put_s receive send config p \<noteq> Some (Throws e)"
    by (auto simp: compiler_round_def Let_def split: option.splits sum.splits prod.splits outcome.splits)
qed

text \<open>A loop ends in a round that ends.\<close>

lemma poll_loop_ends_at:
  assumes "\<nexists>p. out = Returns p"
  shows "poll_loop n body p = Some out \<longleftrightarrow>
    (\<exists>k<n. \<exists>q. poll_loop k body p = Some (Returns q) \<and> body q = Some out)"
proof (induction n arbitrary: p)
  case 0
  then show ?case using assms by auto
next
  case (Suc n)
  have *: "(\<exists>k<Suc n. R k) \<longleftrightarrow> R 0 \<or> (\<exists>k<n. R (Suc k))" for R :: "nat \<Rightarrow> bool"
    using less_Suc_eq_0_disj by auto
  show ?case
  proof (cases "\<exists>p'. body p = Some (Returns p')")
    case True
    then obtain p' where "body p = Some (Returns p')" by blast
    with assms show ?thesis unfolding * by (auto simp: Suc)
  next
    case False
    then show ?thesis unfolding * by (auto split: option.splits outcome.splits)
  qed
qed

text \<open>The setup of a process, whose configuration was not set before: it fails exactly if the logger cannot be made.\<close>

lemma compiler_main_cases:
  "compiler_main n ndebug build env argv throws (fresh_store c) connect mlir get_s put_s receive send =
   (case qrm_makeLogger throws (compiler_logger (qrm_logging (qrm_loadConfig build env argv)))
        (compiler_log (qrm_logging (qrm_loadConfig build env argv))) of
      Throws e \<Rightarrow> Some (Throws e)
    | _ \<Rightarrow> poll_loop n (compiler_round mlir get_s put_s receive send (qrm_loadConfig build env argv))
        (spd_info ''Starting MQSS compiler''
          \<lparr>qp_world = connect (qrm_transport_options (qrm_loadConfig build env argv)), qp_log = []\<rparr>))"
  using logger_ends [OF refl, of throws "compiler_logger (qrm_logging (qrm_loadConfig build env argv))"
      "compiler_log (qrm_logging (qrm_loadConfig build env argv))"]
  by (auto simp: compiler_main_def run_program_def setup_fresh split: outcome.split)

section \<open>Libraries that work\<close>

text \<open>
  The libraries of the compiler and the submitter work on a task: a temporary file, circuits that
  parse (to \<open>m\<close>), QDMI calls that succeed, and a complete histogram for the first circuit.
\<close>

definition compiled :: "('m, 's) mlir \<Rightarrow> (string \<Rightarrow> 'm) \<Rightarrow> QuantumTask \<Rightarrow> QuantumTask" where
  "compiled mlir m task = task\<lparr>qt_circuit_files := map (\<lambda>c. stripSpuriousGateDefs
     (lowered mlir (qt_preferred_qpu task) (m c))) (qt_circuit_files task)\<rparr>"

definition compiler_works :: "('m, 's) mlir \<Rightarrow> (string \<Rightarrow> 'm) \<Rightarrow> QuantumTask \<Rightarrow> bool" where
  "compiler_works mlir m task \<longleftrightarrow> (\<forall>s. 0 \<le> fst (ml_mkstemp mlir s)) \<and>
     (\<forall>c \<in> set (qt_circuit_files task). \<forall>s. ml_parse mlir c s = Some (m c)) \<and> qt_circuit_files task \<noteq> []"

definition device_works ::
  "('d, 'j, 's) qdmi \<Rightarrow> 32 word \<Rightarrow> 's \<Rightarrow> string \<Rightarrow> int32 \<Rightarrow> string list \<Rightarrow> uint64 list \<Rightarrow> bool" where
  "device_works qdmi beyond sq circuit shots ks cs \<longleftrightarrow> qdmi_succeeds qdmi \<and>
     (let (job, sq') = finished_job qdmi beyond circuit shots sq
      in reports_keys qdmi job sq' (key_text ks) \<and> reports_values qdmi job sq' cs) \<and>
     keys_ok ks \<and> length ks \<le> length cs"

lemma demo_works: "device_works demo_qdmi 0 sq c n [''00'', ''11''] [3, 5]"
  using demo_succeeds by (auto simp: device_works_def demo_reports keys_ok_def case_prod_beta Let_def)

section \<open>Properties\<close>

text \<open>
  C25: how the compiler can end. It never ends with an assertion, and with an exception exactly if its logger cannot be
  made, before the loop. In the loop, whatever it receives, it ends exactly if, in a round it comes to, it
  receives a task one of whose circuits does not parse, the circuits before it having parsed and each having got
  its temporary file: the null module is dereferenced. Any other failure to receive, to compile or to send
  is survived. The process starts with a configuration that was not set before, as \<^verbatim>\<open>main\<close> does, and \<open>rounds\<close> is any number.
\<close>

theorem compiler_ends_exactly:
  "(compiler_main rounds ndebug build env argv throws (fresh_store c) connect mlir get_s put_s receive send = Some Undefined \<longleftrightarrow>
     (\<exists>k<rounds. \<exists>p task w.
        compiler_main k ndebug build env argv throws (fresh_store c) connect mlir get_s put_s receive send = Some (Returns p) \<and>
        receive \<lparr>addr_name = queue_compiler (qrm_queues (qrm_loadConfig build env argv))\<rparr> poll_args (qp_world p) =
          Some (Inr task, w) \<and>
        stops_compiler mlir (qt_circuit_files task) (get_s w))) \<and>
   (compiler_main rounds ndebug build env argv throws (fresh_store c) connect mlir get_s put_s receive send = Some (Throws e) \<longleftrightarrow>
     qrm_makeLogger throws (compiler_logger (qrm_logging (qrm_loadConfig build env argv)))
       (compiler_log (qrm_logging (qrm_loadConfig build env argv))) = Throws e) \<and>
   compiler_main rounds ndebug build env argv throws (fresh_store c) connect mlir get_s put_s receive send \<noteq> Some Aborts"
proof -
  let ?body = "compiler_round mlir get_s put_s receive send (qrm_loadConfig build env argv)"
  let ?p = "spd_info ''Starting MQSS compiler''
      \<lparr>qp_world = connect (qrm_transport_options (qrm_loadConfig build env argv)), qp_log = []\<rparr>"
  note ends = poll_loop_ends_at [where body = ?body and p = ?p]
  have "poll_loop rounds ?body ?p = Some Undefined \<longleftrightarrow>
      (\<exists>k<rounds. \<exists>q. poll_loop k ?body ?p = Some (Returns q) \<and> ?body q = Some Undefined)" by (rule ends) simp
  moreover have "poll_loop rounds ?body ?p \<noteq> Some Aborts" "poll_loop rounds ?body ?p \<noteq> Some (Throws e)"
    using ends [of Aborts rounds] ends [of "Throws e" rounds] by (simp_all add: compiler_round_outcome)
  ultimately have loop: "poll_loop rounds ?body ?p = Some Undefined \<longleftrightarrow>
      (\<exists>k<rounds. \<exists>q task w. poll_loop k ?body ?p = Some (Returns q) \<and>
        receive \<lparr>addr_name = queue_compiler (qrm_queues (qrm_loadConfig build env argv))\<rparr> poll_args (qp_world q) =
          Some (Inr task, w) \<and> stops_compiler mlir (qt_circuit_files task) (get_s w))"
    "poll_loop rounds ?body ?p \<noteq> Some Aborts" "poll_loop rounds ?body ?p \<noteq> Some (Throws e)"
    unfolding compiler_round_outcome(1) by blast+
  show ?thesis
  proof (cases "qrm_makeLogger throws (compiler_logger (qrm_logging (qrm_loadConfig build env argv)))
      (compiler_log (qrm_logging (qrm_loadConfig build env argv)))")
    case (Throws x)
    then show ?thesis unfolding compiler_main_cases by simp
  next
    case (Returns x)
    have main: "compiler_main n ndebug build env argv throws (fresh_store c) connect mlir get_s put_s receive send =
        poll_loop n ?body ?p" for n by (simp only: compiler_main_cases Returns outcome.case)
    show ?thesis unfolding main Returns using loop by (intro conjI) (assumption | simp only: outcome.distinct)+
  qed (use logger_ends in blast)+
qed

text \<open>The first task's second circuit does not parse, and the compiler is gone.\<close>

lemma bad_circuit_stops:
  "stops_compiler (echo_mlir\<lparr>ml_parse := (\<lambda>c s. if c = ''bad'' then None else Some c)\<rparr>) [''good'', ''bad''] ()"
  by (simp add: echo_mlir_def)

definition demo_stored :: qrm_Config where
  "demo_stored = qrm_loadConfig \<lparr>build_log_dir = [], build_benchmark_dir = []\<rparr> (\<lambda>_. None) []"

theorem compiler_ends_exactly_witness:
  "compiler_main 5 False \<lparr>build_log_dir = [], build_benchmark_dir = []\<rparr> (\<lambda>_. None) [] (\<lambda>_. None)
     (fresh_store demo_stored) (\<lambda>_. ())
     (echo_mlir\<lparr>ml_parse := (\<lambda>c s. if c = ''bad'' then None else Some c)\<rparr>) (\<lambda>_. ()) (\<lambda>_ w. w)
     (\<lambda>_ _ w. Some (Inr (QuantumTask_default\<lparr>qt_circuit_files := [''good'', ''bad'']\<rparr>), w))
     (\<lambda>_ _ _ w. (success, w)) = Some Undefined"
proof -
  let ?build = "\<lparr>build_log_dir = [], build_benchmark_dir = []\<rparr>"
  let ?config = "qrm_loadConfig ?build (\<lambda>_. None) []"
  obtain lg where lg: "qrm_makeLogger (\<lambda>_. None) (compiler_logger (qrm_logging ?config)) (compiler_log (qrm_logging ?config)) =
      Returns lg" using logger_without_failures by blast
  have start: "\<exists>p. compiler_main 0 False ?build (\<lambda>_. None) [] (\<lambda>_. None) (fresh_store demo_stored) connect mlir get_s put_s
      receive send = Some (Returns p)" for connect mlir get_s put_s receive send
    by (simp add: compiler_main_cases lg)
  have "0 < (5 :: nat)" by simp
  with start show ?thesis
    by (subst compiler_ends_exactly [THEN conjunct1]) (use bad_circuit_stops in fastforce)
qed

end
