(* ===== verification/Typed_Queue.thy ===== *)
theory Typed_Queue
  imports Messenger "HOL-Library.Sublist"
begin

text \<open>
  The contract of a typed messenger as its users see it, failures included: what any send and any
  receive does to the queues. Unlike the locale \<open>messenger\<close> it says nothing of when they succeed, and
  so it also holds of a transport that was shut down, of values that cannot be serialized and, with
  the parameter \<open>lossy\<close>, of a broker that loses messages. It is interpreted on the in-memory backend
  with the JSON codec; the actions of other threads during a wait are steps of their own there, so
  that a wait changes nothing. The theory \<open>Rabbit_Queues\<close> shows it of the RabbitMQ backend.
\<close>

text \<open>What the protobuf library documents: parsing what was serialized gives the message back.\<close>

definition wire_sound :: "('m \<Rightarrow> string option) \<Rightarrow> (string \<Rightarrow> 'm option) \<Rightarrow> bool" where
  "wire_sound ser par \<longleftrightarrow> (\<forall>v p. ser v = Some p \<longrightarrow> par p = Some v)"

definition codec_sound :: "('m \<Rightarrow> Envelope Result) \<Rightarrow> (Envelope \<Rightarrow> 'm Result) \<Rightarrow> bool" where
  "codec_sound encode decode \<longleftrightarrow> (\<forall>v e. encode v = Inr e \<longrightarrow> decode e = Inr v)"

lemma json_sound: "wire_sound ser par \<Longrightarrow> codec_sound (ProtoJson_encode ser) (ProtoJson_decode par)"
  by (auto simp: codec_sound_def wire_sound_def ProtoJson_encode_def ProtoJson_decode_def split: option.splits)

text \<open>The envelopes at an address are the encodings of a list of values.\<close>

definition holds ::
  "('m \<Rightarrow> Envelope Result) \<Rightarrow> ('t \<Rightarrow> string \<Rightarrow> Envelope list) \<Rightarrow> 't \<Rightarrow> string \<Rightarrow> 'm list \<Rightarrow> bool" where
  "holds encode queue t n vs \<longleftrightarrow> map Inr (queue t n) = map encode vs"

lemma holds_other: "queue t' n = queue t n \<Longrightarrow> holds encode queue t' n vs \<longleftrightarrow> holds encode queue t n vs"
  by (simp add: holds_def)

lemma holds_nil: "queue t n = [] \<Longrightarrow> holds encode queue t n []"
  by (simp add: holds_def)

text \<open>What is left of a list of messages: all of it or, if the transport may lose messages, a rest of it.\<close>

definition remains :: "bool \<Rightarrow> 'a list \<Rightarrow> 'a list \<Rightarrow> bool" where
  "remains lossy xs ys \<longleftrightarrow> ys = xs \<or> lossy \<and> suffix ys xs"

lemma remains_exact [simp]: "remains False xs ys \<longleftrightarrow> ys = xs"
  by (simp add: remains_def)

lemma remains_refl [simp]: "remains lossy xs xs"
  by (simp add: remains_def)

lemma remains_lossy [simp]: "remains True xs ys \<longleftrightarrow> suffix ys xs"
  by (auto simp: remains_def)

lemma remains_subseq: "remains lossy xs ys \<Longrightarrow> subseq ys xs"
  by (auto simp: remains_def)

lemma remains_set: "remains lossy xs ys \<Longrightarrow> set ys \<subseteq> set xs"
  by (auto simp: remains_def dest: set_mono_suffix)

lemma remains_holds:
  assumes "remains lossy es es'" and "map Inr es = map encode vs"
  obtains ws where "remains lossy vs ws" "map Inr es' = map encode ws"
proof -
  define k where "k = length es - length es'"
  have "es' = drop k es" using assms(1) by (auto simp: remains_def k_def suffix_def)
  moreover have "remains lossy vs (drop k vs)"
  proof (cases "es' = es")
    case True
    then show ?thesis by (simp add: k_def)
  qed (use assms(1) in \<open>simp add: remains_def suffix_drop\<close>)
  ultimately show thesis using that [of "drop k vs"] assms(2) by (metis drop_map)
qed

text \<open>
  A send fails or puts the message behind the last, and where messages may be lost it may also
  do so and report a failure. A receive fails or takes the first message, and may lose some of those that follow.
\<close>

locale typed_queue =
  fixes lossy :: bool
    and encode :: "'m \<Rightarrow> Envelope Result"
    and decode :: "Envelope \<Rightarrow> 'm Result"
    and send :: "('m, 't) snd_op"
    and receive :: "('m, 't) recv"
    and queue :: "'t \<Rightarrow> string \<Rightarrow> Envelope list"
  assumes send_cases:
      "send \<lparr>addr_name = n\<rparr> v args t = (st, t') \<Longrightarrow>
        (\<not> ok st \<and> queue t' = queue t) \<or>
        ((ok st \<or> lossy) \<and> (\<exists>e. encode v = Inr e \<and> queue t' = (queue t)(n := queue t n @ [e])))"
    and receive_cases:
      "receive \<lparr>addr_name = n\<rparr> rargs t = Some (r, t') \<Longrightarrow>
        (\<exists>es. isl r \<and> remains lossy (queue t n) es \<and> queue t' = (queue t)(n := es)) \<or>
        (\<exists>e es es'. queue t n = e # es \<and> remains lossy es es' \<and> r = decode e \<and> queue t' = (queue t)(n := es'))"
begin

lemma take_front:
  assumes "codec_sound encode decode"
    and "holds encode queue t n vs" and "receive \<lparr>addr_name = n\<rparr> rargs t = Some (r, t')"
  shows "(\<exists>ws. isl r \<and> remains lossy vs ws \<and> holds encode queue t' n ws \<and> (\<forall>n'. n' \<noteq> n \<longrightarrow> queue t' n' = queue t n')) \<or>
    (\<exists>v vs' ws. vs = v # vs' \<and> remains lossy vs' ws \<and> r = Inr v \<and> holds encode queue t' n ws \<and>
      (\<forall>n'. n' \<noteq> n \<longrightarrow> queue t' n' = queue t n'))"
  using receive_cases [OF assms(3)]
proof (elim disjE exE conjE)
  fix es
  assume q: "isl r" "remains lossy (queue t n) es" "queue t' = (queue t)(n := es)"
  with assms(2) obtain ws where "remains lossy vs ws" "map Inr es = map encode ws"
    by (auto simp: holds_def elim: remains_holds)
  with q show ?thesis by (auto simp: holds_def)
next
  fix e es es'
  assume q: "queue t n = e # es" "remains lossy es es'" "r = decode e" "queue t' = (queue t)(n := es')"
  with assms(2) obtain v vs' where v: "vs = v # vs'" "encode v = Inr e" "map Inr es = map encode vs'"
    by (cases vs) (auto simp: holds_def)
  obtain ws where "remains lossy vs' ws" "map Inr es' = map encode ws" using remains_holds [OF q(2) v(3)] by blast
  with q v assms(1) show ?thesis by (auto simp: holds_def codec_sound_def)
qed

lemma put_back:
  assumes "holds encode queue t n vs" and "send \<lparr>addr_name = n\<rparr> v args t = (st, t')"
  shows "(\<not> ok st \<and> queue t' = queue t) \<or>
    ((ok st \<or> lossy) \<and> holds encode queue t' n (vs @ [v]) \<and> (\<forall>n'. n' \<noteq> n \<longrightarrow> queue t' n' = queue t n'))"
  using send_cases [OF assms(2)] assms(1) by (auto simp: holds_def)

end

text \<open>Typed messaging with the JSON codec over the in-memory backend.\<close>

abbreviation im_json_send :: "('m \<Rightarrow> string option) \<Rightarrow> ('m, InMemoryTransport) snd_op" where
  "im_json_send ser \<equiv> messenger_send (ProtoJson_encode ser) im_send"

abbreviation im_json_receive ::
  "(string \<Rightarrow> 'm option) \<Rightarrow> (im_state \<Rightarrow> im_state) \<Rightarrow> ('m, InMemoryTransport) recv" where
  "im_json_receive par others \<equiv> messenger_receive (ProtoJson_decode par) (im_receive others)"

lemma im_send_cases:
  assumes "im_send \<lparr>addr_name = n\<rparr> e args t = (st, t')"
  shows "(\<not> ok st \<and> im_queue t' = im_queue t) \<or>
    (ok st \<and> im_queue t' = (im_queue t)(n := im_queue t n @ [e]))"
  using assms
  by (auto simp: im_send_def im_queue_def im_q_enqueue fun_eq_iff split: if_splits option.splits)

lemma im_finish_result:
  assumes "im_finish st n b = (r, st')"
  shows "(isl r \<and> im_q st' = im_q st) \<or>
    (\<exists>e es. im_q st n = e # es \<and> r = Inr (makeMessageFromEnvelope e) \<and> im_q st' = (im_q st)(n := es))"
  by (rule im_finish_cases [where st = st and n = n and w = b]) (use assms in auto)

lemma im_receive_cases:
  assumes "im_receive id \<lparr>addr_name = n\<rparr> rargs t = Some (r, t')"
  shows "(isl r \<and> im_queue t' = im_queue t) \<or>
    (\<exists>e es. im_queue t n = e # es \<and> r = Inr (makeMessageFromEnvelope e) \<and> im_queue t' = (im_queue t)(n := es))"
proof (cases "state_ptr t")
  case (Some st)
  have f: "(isl x \<and> im_queue (t\<lparr>state_ptr := Some st'\<rparr>) = im_queue t) \<or>
      (\<exists>e es. im_queue t n = e # es \<and> x = Inr (makeMessageFromEnvelope e) \<and>
        im_queue (t\<lparr>state_ptr := Some st'\<rparr>) = (im_queue t)(n := es))"
    if "im_finish st n b = (x, st')" for x st' b
    using im_finish_result [OF that] Some by (auto simp: im_queue_def fun_eq_iff)
  show ?thesis
    using assms Some f
    by (auto simp: im_receive_def Let_def split: if_splits option.splits prod.splits)
qed (use assms in \<open>auto simp: im_receive_def split: if_splits\<close>)

interpretation im_typed: typed_queue False "ProtoJson_encode ser" "ProtoJson_decode par"
  "im_json_send ser" "im_json_receive par id" im_queue for ser par
proof (unfold_locales, goal_cases)
  case (1 n v args t st t')
  then show ?case
    using im_send_cases by (fastforce simp: messenger_send_def ProtoJson_encode_def split: option.splits)
next
  case (2 n rargs t r t')
  then obtain x where x: "im_receive id \<lparr>addr_name = n\<rparr> rargs t = Some (x, t')"
    and r: "r = (case x of Inl e \<Rightarrow> Inl e | Inr msg \<Rightarrow> ProtoJson_decode par (envelope msg))"
    by (auto simp: messenger_receive_def messenger_receiveExtended_def split: option.splits sum.splits)
  from im_receive_cases [OF x] show ?case by (cases x) (auto simp: r)
qed

text \<open>A serializer given by a table, for evaluation.\<close>

definition table_ser :: "(string \<times> 'm) list \<Rightarrow> 'm \<Rightarrow> string option" where
  "table_ser tab v = map_option fst (List.find (\<lambda>p. snd p = v) tab)"

lemma table_sound: "distinct (map fst tab) \<Longrightarrow> wire_sound (table_ser tab) (map_of tab)"
  by (auto simp: wire_sound_def table_ser_def find_Some_iff) (metis nth_mem snd_conv)

lemma table_known: "v \<in> snd ` set tab \<Longrightarrow> table_ser tab v \<noteq> None"
  by (auto simp: table_ser_def find_None_iff)

end
