(* ===== verification/Qrm_Pipeline.thy ===== *)
theory Qrm_Pipeline
  imports Qrm_Programs Typed_Queue "HOL-Library.Sublist"
begin

text \<open>
  The programs of the QRM workflow running concurrently. A step is one round of the scheduler, of the
  compiler or of the submitter, a client's send of a task to the scheduler, or a client's receive of
  a result; the steps interleave in any order, each may fail, and the compiler and the submitter may
  end. The system is related by a simulation to an abstract pipeline of typed lists, in which the order and the
  multiplicity of tasks are plain.
\<close>

section \<open>The concurrent workflow\<close>

text \<open>
  The typed messenger operations of the clients and of each program, on a communication system of type
  \<open>'t\<close>: a transport they share, or transports of their own and the broker behind them.
\<close>

record 't qrm_ops =
  po_submit :: "(QuantumTask, 't) snd_op"
  po_scheduler_receive :: "(QuantumTask, 't) recv"
  po_scheduler_send :: "(QuantumTask, 't) snd_op"
  po_compiler_receive :: "(QuantumTask, 't) recv"
  po_compiler_send :: "(QuantumTask, 't) snd_op"
  po_submitter_receive :: "(QuantumTask, 't) recv"
  po_submitter_send :: "(QuantumResult, 't) snd_op"
  po_fetch :: "(QuantumResult, 't) recv"

text \<open>The messenger operations of a program whose world also holds the state of a library.\<close>

definition with_lib_receive :: "('m, 't) recv \<Rightarrow> ('m, 't \<times> 's) recv" where
  "with_lib_receive receive a args w = map_option (\<lambda>(r, t). (r, (t, snd w))) (receive a args (fst w))"

definition with_lib_send :: "('m, 't) snd_op \<Rightarrow> ('m, 't \<times> 's) snd_op" where
  "with_lib_send send a m args w = (let (st, t) = send a m args (fst w) in (st, (t, snd w)))"

text \<open>
  The state: the transport, the libraries' states, the logs, whether the compiler and the submitter
  are still running, and as history the tasks a client tried to submit, those for which the send reported
  success, and the results delivered.
\<close>

record ('t, 'sc, 'sq) qrm_state =
  qs_transport :: 't
  qs_mlir :: 'sc
  qs_qdmi :: 'sq
  qs_scheduler_log :: "(level_enum \<times> string) list"
  qs_compiler_log :: "(level_enum \<times> string) list"
  qs_submitter_log :: "(level_enum \<times> string) list"
  qs_compiler_up :: bool
  qs_submitter_up :: bool
  qs_attempted :: "QuantumTask list"
  qs_submitted :: "QuantumTask list"
  qs_delivered :: "QuantumResult list"

definition qrm_initial :: "'t \<Rightarrow> 'sc \<Rightarrow> 'sq \<Rightarrow> ('t, 'sc, 'sq) qrm_state" where
  "qrm_initial t sc sq = \<lparr>qs_transport = t, qs_mlir = sc, qs_qdmi = sq,
     qs_scheduler_log = [], qs_compiler_log = [], qs_submitter_log = [],
     qs_compiler_up = True, qs_submitter_up = True, qs_attempted = [], qs_submitted = [], qs_delivered = []\<rparr>"

definition compiler_at ::
  "'t qrm_ops \<Rightarrow> ('m, 'sc) mlir \<Rightarrow> qrm_Config \<Rightarrow> ('t, 'sc, 'sq) qrm_state \<Rightarrow> ('t \<times> 'sc) qrm_process outcome option" where
  "compiler_at ops mlir config s =
     compiler_round mlir snd (\<lambda>sc w. (fst w, sc)) (with_lib_receive (po_compiler_receive ops))
       (with_lib_send (po_compiler_send ops)) config
       \<lparr>qp_world = (qs_transport s, qs_mlir s), qp_log = qs_compiler_log s\<rparr>"

definition submitter_at ::
  "'t qrm_ops \<Rightarrow> ('d, 'j, 'sq) qdmi \<Rightarrow> bool \<Rightarrow> 32 word \<Rightarrow> qrm_Config \<Rightarrow> ('t, 'sc, 'sq) qrm_state \<Rightarrow>
   ('t \<times> 'sq) qrm_process outcome option" where
  "submitter_at ops qdmi ndebug beyond config s =
     submitter_round qdmi ndebug beyond snd (\<lambda>sq w. (fst w, sq)) (with_lib_receive (po_submitter_receive ops))
       (with_lib_send (po_submitter_send ops)) config
       \<lparr>qp_world = (qs_transport s, qs_qdmi s), qp_log = qs_submitter_log s\<rparr>"

text \<open>
  A program that ends has received its message, which is gone (\<^verbatim>\<open>AckMode::Auto\<close>); its library is left
  in any state.
\<close>

inductive qrm_step ::
  "'t qrm_ops \<Rightarrow> ('m, 'sc) mlir \<Rightarrow> ('d, 'j, 'sq) qdmi \<Rightarrow> bool \<Rightarrow> 32 word \<Rightarrow> qrm_Config \<Rightarrow>
   ('t, 'sc, 'sq) qrm_state \<Rightarrow> ('t, 'sc, 'sq) qrm_state \<Rightarrow> bool"
  for ops mlir qdmi ndebug beyond config where
  submit: "qt_result_destination task = queue_results (qrm_queues config) \<Longrightarrow>
    po_submit ops \<lparr>addr_name = queue_scheduler (qrm_queues config)\<rparr> task default_send_args (qs_transport s) =
      (st, t) \<Longrightarrow>
    qrm_step ops mlir qdmi ndebug beyond config s (s\<lparr>qs_transport := t, qs_attempted := qs_attempted s @ [task],
      qs_submitted := qs_submitted s @ (if ok st then [task] else [])\<rparr>)"
| schedule: "scheduler_round (po_scheduler_receive ops) (po_scheduler_send ops) config
      \<lparr>qp_world = qs_transport s, qp_log = qs_scheduler_log s\<rparr> = Some p \<Longrightarrow>
    qrm_step ops mlir qdmi ndebug beyond config s (s\<lparr>qs_transport := qp_world p, qs_scheduler_log := qp_log p\<rparr>)"
| compile: "qs_compiler_up s \<Longrightarrow> compiler_at ops mlir config s = Some (Returns p) \<Longrightarrow>
    qrm_step ops mlir qdmi ndebug beyond config s (s\<lparr>qs_transport := fst (qp_world p),
      qs_mlir := snd (qp_world p), qs_compiler_log := qp_log p\<rparr>)"
| compiler_ends: "qs_compiler_up s \<Longrightarrow> compiler_at ops mlir config s = Some out \<Longrightarrow>
    \<nexists>p. out = Returns p \<Longrightarrow>
    po_compiler_receive ops \<lparr>addr_name = queue_compiler (qrm_queues config)\<rparr> poll_args (qs_transport s) = Some (r, t) \<Longrightarrow>
    qrm_step ops mlir qdmi ndebug beyond config s (s\<lparr>qs_transport := t, qs_mlir := sc, qs_compiler_up := False\<rparr>)"
| run_task: "qs_submitter_up s \<Longrightarrow> submitter_at ops qdmi ndebug beyond config s = Some (Returns p') \<Longrightarrow>
    qrm_step ops mlir qdmi ndebug beyond config s (s\<lparr>qs_transport := fst (qp_world p'),
      qs_qdmi := snd (qp_world p'), qs_submitter_log := qp_log p'\<rparr>)"
| submitter_ends: "qs_submitter_up s \<Longrightarrow> submitter_at ops qdmi ndebug beyond config s = Some out' \<Longrightarrow>
    \<nexists>p. out' = Returns p \<Longrightarrow>
    po_submitter_receive ops \<lparr>addr_name = queue_submitter (qrm_queues config)\<rparr> poll_args (qs_transport s) = Some (r, t) \<Longrightarrow>
    qrm_step ops mlir qdmi ndebug beyond config s (s\<lparr>qs_transport := t, qs_qdmi := sq, qs_submitter_up := False\<rparr>)"
| deliver_result: "po_fetch ops \<lparr>addr_name = queue_results (qrm_queues config)\<rparr> ra (qs_transport s) =
      Some (x, t) \<Longrightarrow>
    qrm_step ops mlir qdmi ndebug beyond config s (s\<lparr>qs_transport := t,
      qs_delivered := qs_delivered s @ (case x of Inl e \<Rightarrow> [] | Inr y \<Rightarrow> [y])\<rparr>)"

inductive_cases qrm_stepE: "qrm_step ops mlir qdmi ndebug beyond config s s'"

section \<open>The abstract pipeline\<close>

datatype stage = Scheduling | Compiling | Submitting

record apipe =
  ap_submitted :: "QuantumTask list"
  ap_at :: "stage \<Rightarrow> QuantumTask list"
  ap_results :: "QuantumResult list"
  ap_delivered :: "QuantumResult list"

definition apipe_empty :: apipe where
  "apipe_empty = \<lparr>ap_submitted = [], ap_at = (\<lambda>_. []), ap_results = [], ap_delivered = []\<rparr>"

text \<open>
  Each stage takes the first element of its list and appends what it makes of it to the next, or
  loses it. The compiler changes the circuits of a task only; a result names its task. Where
  messages may be lost, a list may also shrink to a rest of it at any time, and a task submitted may
  never arrive.
\<close>

inductive ap_step :: "bool \<Rightarrow> apipe \<Rightarrow> apipe \<Rightarrow> bool" for lossy where
  stay: "ap_step lossy a a"
| submit: "ap_step lossy a (a\<lparr>ap_submitted := ap_submitted a @ [x],
    ap_at := (ap_at a)(Scheduling := ap_at a Scheduling @ [x])\<rparr>)"
| refuse: "lossy \<Longrightarrow> ap_step lossy a (a\<lparr>ap_submitted := ap_submitted a @ [x]\<rparr>)"
| shrink: "remains lossy (ap_at a g) xs \<Longrightarrow> ap_step lossy a (a\<lparr>ap_at := (ap_at a)(g := xs)\<rparr>)"
| lose: "ap_at a g = x # xs \<Longrightarrow> remains lossy xs xs' \<Longrightarrow> ap_step lossy a (a\<lparr>ap_at := (ap_at a)(g := xs')\<rparr>)"
| forward: "ap_at a Scheduling = x # xs \<Longrightarrow> remains lossy xs xs' \<Longrightarrow>
    ap_step lossy a (a\<lparr>ap_at := (ap_at a)(Scheduling := xs', Compiling := ap_at a Compiling @ [x])\<rparr>)"
| translate: "ap_at a Compiling = x # xs \<Longrightarrow> remains lossy xs xs' \<Longrightarrow> x' = x\<lparr>qt_circuit_files := cs\<rparr> \<Longrightarrow>
    ap_step lossy a (a\<lparr>ap_at := (ap_at a)(Compiling := xs', Submitting := ap_at a Submitting @ [x'])\<rparr>)"
| run: "ap_at a Submitting = x # xs \<Longrightarrow> remains lossy xs xs' \<Longrightarrow> qr_task_id r = qt_task_id x \<Longrightarrow>
    ap_step lossy a (a\<lparr>ap_at := (ap_at a)(Submitting := xs'), ap_results := ap_results a @ [r]\<rparr>)"
| shrink_results: "remains lossy (ap_results a) rs \<Longrightarrow> ap_step lossy a (a\<lparr>ap_results := rs\<rparr>)"
| fetch: "ap_results a = r # rs \<Longrightarrow> remains lossy rs rs' \<Longrightarrow>
    ap_step lossy a (a\<lparr>ap_results := rs', ap_delivered := ap_delivered a @ [r]\<rparr>)"

text \<open>The identifiers in the pipeline, from the results delivered back to the tasks not yet scheduled.\<close>

definition ap_ids :: "apipe \<Rightarrow> int32 list" where
  "ap_ids a = map qr_task_id (ap_delivered a @ ap_results a) @
     map qt_task_id (ap_at a Submitting @ ap_at a Compiling @ ap_at a Scheduling)"

definition ap_ordered :: "apipe \<Rightarrow> bool" where
  "ap_ordered a \<longleftrightarrow> subseq (ap_ids a) (map qt_task_id (ap_submitted a))"

lemma ap_ids_stage:
  "\<exists>us vs. \<forall>ys. ap_ids (a\<lparr>ap_at := (ap_at a)(g := ys)\<rparr>) = us @ map qt_task_id ys @ vs"
proof (cases g)
  case Scheduling
  then show ?thesis
    by (intro exI [of _ "map qr_task_id (ap_delivered a @ ap_results a) @
        map qt_task_id (ap_at a Submitting @ ap_at a Compiling)"] exI [of _ "[]"]) (simp add: ap_ids_def)
next
  case Compiling
  then show ?thesis
    by (intro exI [of _ "map qr_task_id (ap_delivered a @ ap_results a) @ map qt_task_id (ap_at a Submitting)"] exI)
      (simp add: ap_ids_def)
next
  case Submitting
  then show ?thesis
    by (intro exI [of _ "map qr_task_id (ap_delivered a @ ap_results a)"] exI) (simp add: ap_ids_def)
qed

lemma ap_shrunk:
  assumes "subseq ys (ap_at a g)"
  shows "subseq (ap_ids (a\<lparr>ap_at := (ap_at a)(g := ys)\<rparr>)) (ap_ids a)"
proof -
  obtain us vs where "ap_ids (a\<lparr>ap_at := (ap_at a)(g := zs)\<rparr>) = us @ map qt_task_id zs @ vs" for zs
    using ap_ids_stage by blast
  moreover from this [of "ap_at a g"] have "ap_ids a = us @ map qt_task_id (ap_at a g) @ vs" by simp
  ultimately show ?thesis using subseq_map [OF assms] by (auto intro!: list_emb_append_mono)
qed

lemma ap_results_shrunk:
  "subseq rs (ap_results a) \<Longrightarrow> subseq (ap_ids (a\<lparr>ap_results := rs\<rparr>)) (ap_ids a)"
  by (auto simp: ap_ids_def intro!: list_emb_append_mono subseq_map)

lemma ap_ordered_sub: "ap_ordered a \<Longrightarrow> subseq (ap_ids a') (ap_ids a) \<Longrightarrow> ap_submitted a' = ap_submitted a \<Longrightarrow> ap_ordered a'"
  by (auto simp: ap_ordered_def intro: subseq_order.trans)

lemma ap_step_ordered: "ap_step lossy a a' \<Longrightarrow> ap_ordered a \<Longrightarrow> ap_ordered a'"
proof (induction rule: ap_step.induct)
  case (submit a x)
  then show ?case using list_emb_append_mono [of "(=)" "ap_ids a" _ "[qt_task_id x]" "[qt_task_id x]"]
    by (simp add: ap_ordered_def ap_ids_def)
next
  case (refuse a x)
  then show ?case by (simp add: ap_ordered_def ap_ids_def list_emb_prefix)
next
  case (shrink a g xs)
  then show ?case by (intro ap_ordered_sub [OF shrink(2) ap_shrunk]) (simp_all add: remains_subseq)
next
  case (lose a g x xs xs')
  then show ?case
    by (intro ap_ordered_sub [OF lose(3) ap_shrunk]) (auto dest: remains_subseq)
next
  case (forward a x xs xs')
  have "subseq (x # xs') (ap_at a Scheduling)" using forward(1,2) by (simp add: remains_subseq)
  from ap_shrunk [OF this] show ?case by (intro ap_ordered_sub [OF forward(3)]) (simp_all add: ap_ids_def)
next
  case (translate a x xs xs' x' cs)
  have "subseq (x # xs') (ap_at a Compiling)" using translate(1,2) by (simp add: remains_subseq)
  from ap_shrunk [OF this] show ?case
    by (intro ap_ordered_sub [OF translate(4)]) (simp_all add: ap_ids_def translate(3))
next
  case (run a x xs xs' r)
  have "subseq (x # xs') (ap_at a Submitting)" using run(1,2) by (simp add: remains_subseq)
  from ap_shrunk [OF this] show ?case
    by (intro ap_ordered_sub [OF run(4)]) (simp_all add: ap_ids_def run(3))
next
  case (shrink_results a rs)
  then show ?case by (intro ap_ordered_sub [OF shrink_results(2) ap_results_shrunk]) (simp_all add: remains_subseq)
next
  case (fetch a r rs rs')
  have "subseq (r # rs') (ap_results a)" using fetch(1,2) by (simp add: remains_subseq)
  from ap_results_shrunk [OF this] show ?case
    by (intro ap_ordered_sub [OF fetch(3)]) (simp_all add: ap_ids_def)
qed simp

section \<open>What a round does\<close>

lemma with_lib_receive_some:
  "with_lib_receive receive a args (t, x) = Some (r, w) \<longleftrightarrow>
   (\<exists>t'. receive a args t = Some (r, t') \<and> w = (t', x))"
  by (auto simp: with_lib_receive_def)

lemma with_lib_send_eq:
  "with_lib_send send a m args (t, x) = (st, w) \<longleftrightarrow> (\<exists>t'. send a m args t = (st, t') \<and> w = (t', x))"
  by (auto simp: with_lib_send_def case_prod_beta prod_eq_iff)

lemma scheduler_round_cases:
  assumes "scheduler_round receive send config p = Some p'"
  obtains e where "receive \<lparr>addr_name = queue_scheduler (qrm_queues config)\<rparr> poll_args (qp_world p) =
      Some (Inl e, qp_world p')"
  | task w st where "receive \<lparr>addr_name = queue_scheduler (qrm_queues config)\<rparr> poll_args (qp_world p) =
      Some (Inr task, w)"
      "send \<lparr>addr_name = queue_compiler (qrm_queues config)\<rparr> task default_send_args w = (st, qp_world p')"
  using assms
  by (auto simp: scheduler_round_def Let_def split: option.splits sum.splits prod.splits if_splits)

lemma compiler_at_cases:
  assumes "compiler_at ops mlir config s = Some (Returns p)"
  obtains e where "po_compiler_receive ops \<lparr>addr_name = queue_compiler (qrm_queues config)\<rparr> poll_args (qs_transport s) =
      Some (Inl e, fst (qp_world p))"
  | task x es sc where "po_compiler_receive ops \<lparr>addr_name = queue_compiler (qrm_queues config)\<rparr> poll_args
      (qs_transport s) = Some (Inr task, fst (qp_world p))"
      "applyOptimizationPasses mlir task (qs_mlir s) = (Throws x, es, sc)"
  | task t task' es sc st where "po_compiler_receive ops \<lparr>addr_name = queue_compiler (qrm_queues config)\<rparr> poll_args
      (qs_transport s) = Some (Inr task, t)"
      "applyOptimizationPasses mlir task (qs_mlir s) = (Returns task', es, sc)"
      "po_compiler_send ops \<lparr>addr_name = queue_submitter (qrm_queues config)\<rparr> task' default_send_args t =
        (st, fst (qp_world p))"
  using assms
  by (auto simp: compiler_at_def compiler_round_def Let_def with_lib_receive_some with_lib_send_eq
      split: option.splits sum.splits prod.splits outcome.splits if_splits)

lemma submitter_at_cases:
  assumes "submitter_at ops qdmi ndebug beyond config s = Some (Returns p)"
  obtains e where "po_submitter_receive ops \<lparr>addr_name = queue_submitter (qrm_queues config)\<rparr> poll_args (qs_transport s) =
      Some (Inl e, fst (qp_world p))"
  | task t r lg st' st where "po_submitter_receive ops \<lparr>addr_name = queue_submitter (qrm_queues config)\<rparr> poll_args
      (qs_transport s) = Some (Inr task, t)"
      "createAndSubmitQDMIJobToQDMIDevice qdmi ndebug beyond task (qs_qdmi s, lg) = (Returns r, st')"
      "po_submitter_send ops \<lparr>addr_name = qt_result_destination task\<rparr> r default_send_args t =
        (st, fst (qp_world p))"
proof -
  let ?src = "\<lparr>addr_name = queue_submitter (qrm_queues config)\<rparr>"
  from assms obtain x t where rc: "po_submitter_receive ops ?src poll_args (qs_transport s) = Some (x, t)"
    by (cases "po_submitter_receive ops ?src poll_args (qs_transport s)")
      (auto simp: submitter_at_def submitter_round_def with_lib_receive_def)
  show thesis
  proof (cases x)
    case (Inl e)
    with assms rc have "fst (qp_world p) = t"
      by (auto simp: submitter_at_def submitter_round_def with_lib_receive_def Let_def split: if_splits)
    with rc Inl show thesis by (intro that(1)) simp
  next
    case (Inr task)
    define p1 where "p1 = spd_info (''Processing new task with id: '' @ int_text (qt_task_id task))
        ((spd_info ''Waiting for a new job...'' \<lparr>qp_world = (qs_transport s, qs_qdmi s), qp_log = qs_submitter_log s\<rparr>)
          \<lparr>qp_world := (t, qs_qdmi s)\<rparr>)"
    obtain out sq lg where c: "createAndSubmitQDMIJobToQDMIDevice qdmi ndebug beyond task (qs_qdmi s, qp_log p1) =
        (out, sq, lg)" by (metis prod_cases3)
    have "submitter_at ops qdmi ndebug beyond config s = Some (bind_outcome out (\<lambda>circuit_result.
        (let (send_st, w') = with_lib_send (po_submitter_send ops) \<lparr>addr_name = qt_result_destination task\<rparr>
               circuit_result default_send_args (t, sq);
             p3 = spd_info (''Result sent by the Submitter for task: '' @ int_text (qt_task_id task))
               (p1\<lparr>qp_world := (t, sq), qp_log := lg, qp_world := w'\<rparr>)
         in Returns (if \<not> ok send_st
              then spd_error (''Failed to send result: '' @ reason send_st) p3 else p3))))"
      using rc c [unfolded p1_def] unfolding submitter_at_def submitter_round_def with_lib_receive_def p1_def
      by (simp add: Inr Let_def case_prod_beta cong: if_cong)
    with assms obtain r where r: "out = Returns r"
      "\<exists>st. po_submitter_send ops \<lparr>addr_name = qt_result_destination task\<rparr> r default_send_args t = (st, fst (qp_world p))"
      by (auto simp: returns_iff with_lib_send_def case_prod_beta Let_def prod_eq_iff split: if_splits)
    with rc Inr c show thesis using that(2) by blast
  qed
qed

lemma passes_keep:
  "applyOptimizationPasses mlir task sc = (Returns task', es, sc') \<Longrightarrow>
   \<exists>cs. task' = task\<lparr>qt_circuit_files := cs\<rparr>"
  using set_circuits_frame by (auto simp: applyOptimizationPasses_def split: prod.splits outcome.splits)

section \<open>The simulation\<close>

text \<open>A step system simulated by an abstract one: invariants of the latter hold of the former.\<close>

locale simulation =
  fixes step :: "'s \<Rightarrow> 's \<Rightarrow> bool"
    and astep :: "'a \<Rightarrow> 'a \<Rightarrow> bool"
    and rel :: "'s \<Rightarrow> 'a \<Rightarrow> bool"
  assumes simulates: "step s s' \<Longrightarrow> rel s a \<Longrightarrow> \<exists>a'. astep a a' \<and> rel s' a'"
begin

lemma run_simulates:
  assumes "step\<^sup>*\<^sup>* s s'" and "rel s a"
  shows "\<exists>a'. astep\<^sup>*\<^sup>* a a' \<and> rel s' a'"
  using assms(1)
proof (induction rule: rtranclp_induct)
  case base
  then show ?case using assms(2) by blast
next
  case (step u v)
  then show ?case using simulates by (meson rtranclp.rtrancl_into_rtrancl)
qed

lemma transfer_invariant:
  assumes "\<And>a a'. astep a a' \<Longrightarrow> P a \<Longrightarrow> P a'" and "step\<^sup>*\<^sup>* s s'" and "rel s a" and "P a"
  shows "\<exists>a'. rel s' a' \<and> P a'"
proof -
  obtain a' where a': "astep\<^sup>*\<^sup>* a a'" "rel s' a'" using run_simulates [OF assms(2,3)] by blast
  from a'(1) have "P a'" by (induction rule: rtranclp_induct) (auto intro: assms(1,4))
  with a'(2) show ?thesis by blast
qed

end

text \<open>
  The workflow's queues hold the lists of the pipeline. The names are four different ones; an
  undecodable message cannot be in a queue.
\<close>

definition queues_distinct :: "qrm_Config \<Rightarrow> bool" where
  "queues_distinct config \<longleftrightarrow> distinct [queue_scheduler (qrm_queues config), queue_compiler (qrm_queues config),
     queue_submitter (qrm_queues config), queue_results (qrm_queues config)]"

fun stage_queue :: "qrm_Config \<Rightarrow> stage \<Rightarrow> string" where
  "stage_queue config Scheduling = queue_scheduler (qrm_queues config)"
| "stage_queue config Compiling = queue_compiler (qrm_queues config)"
| "stage_queue config Submitting = queue_submitter (qrm_queues config)"

lemma stage_queue_simps:
  assumes "queues_distinct config"
  shows "stage_queue config g = stage_queue config h \<longleftrightarrow> g = h"
    "stage_queue config g \<noteq> queue_results (qrm_queues config)"
    "queue_results (qrm_queues config) \<noteq> stage_queue config g"
  using assms by (cases g; cases h; auto simp: queues_distinct_def)+

definition pipe_at ::
  "(QuantumTask \<Rightarrow> Envelope Result) \<Rightarrow> (QuantumResult \<Rightarrow> Envelope Result) \<Rightarrow> ('t \<Rightarrow> string \<Rightarrow> Envelope list) \<Rightarrow>
   qrm_Config \<Rightarrow> 't \<Rightarrow> apipe \<Rightarrow> bool" where
  "pipe_at tenc renc queue config t a \<longleftrightarrow>
     (\<forall>g. holds tenc queue t (stage_queue config g) (ap_at a g) \<and>
        (\<forall>x \<in> set (ap_at a g). qt_result_destination x = queue_results (qrm_queues config))) \<and>
     holds renc queue t (queue_results (qrm_queues config)) (ap_results a)"

definition pipe_rel ::
  "bool \<Rightarrow> (QuantumTask \<Rightarrow> Envelope Result) \<Rightarrow> (QuantumResult \<Rightarrow> Envelope Result) \<Rightarrow> ('t \<Rightarrow> string \<Rightarrow> Envelope list) \<Rightarrow>
   qrm_Config \<Rightarrow> ('t, 'sc, 'sq) qrm_state \<Rightarrow> apipe \<Rightarrow> bool" where
  "pipe_rel lossy tenc renc queue config s a \<longleftrightarrow> pipe_at tenc renc queue config (qs_transport s) a \<and>
     ap_submitted a = (if lossy then qs_attempted s else qs_submitted s) \<and> ap_delivered a = qs_delivered s"

text \<open>A step of the pipeline that neither submits nor delivers leads to what the transport holds.\<close>

definition pipe_moves ::
  "bool \<Rightarrow> (QuantumTask \<Rightarrow> Envelope Result) \<Rightarrow> (QuantumResult \<Rightarrow> Envelope Result) \<Rightarrow>
   ('t \<Rightarrow> string \<Rightarrow> Envelope list) \<Rightarrow> qrm_Config \<Rightarrow> apipe \<Rightarrow> 't \<Rightarrow> bool" where
  "pipe_moves lossy tenc renc queue config a t \<longleftrightarrow>
     (\<exists>a'. ap_step lossy a a' \<and> pipe_at tenc renc queue config t a' \<and>
        ap_submitted a' = ap_submitted a \<and> ap_delivered a' = ap_delivered a)"

lemma pipe_movesI:
  "ap_step lossy a a' \<Longrightarrow> pipe_at tenc renc queue config t a' \<Longrightarrow> ap_submitted a' = ap_submitted a \<Longrightarrow>
   ap_delivered a' = ap_delivered a \<Longrightarrow> pipe_moves lossy tenc renc queue config a t"
  unfolding pipe_moves_def by blast

lemma pipe_at_same: "queue t' = queue t \<Longrightarrow> pipe_at tenc renc queue config t a \<Longrightarrow> pipe_at tenc renc queue config t' a"
  by (simp add: pipe_at_def holds_def)

lemma pipe_at_history [simp]:
  "pipe_at tenc renc queue config t (a\<lparr>ap_submitted := xs\<rparr>) = pipe_at tenc renc queue config t a"
  "pipe_at tenc renc queue config t (a\<lparr>ap_delivered := rs\<rparr>) = pipe_at tenc renc queue config t a"
  by (simp_all add: pipe_at_def)

text \<open>The order of the pipeline, read off the queues of the transport.\<close>

lemma pipe_rel_ordered:
  assumes "pipe_rel lossy tenc renc queue config s a" and "ap_ordered a"
  shows "\<exists>rs ts3 ts2 ts1.
    holds renc queue (qs_transport s) (queue_results (qrm_queues config)) rs \<and>
    holds tenc queue (qs_transport s) (queue_submitter (qrm_queues config)) ts3 \<and>
    holds tenc queue (qs_transport s) (queue_compiler (qrm_queues config)) ts2 \<and>
    holds tenc queue (qs_transport s) (queue_scheduler (qrm_queues config)) ts1 \<and>
    subseq (map qr_task_id (qs_delivered s @ rs) @ map qt_task_id (ts3 @ ts2 @ ts1))
      (map qt_task_id (if lossy then qs_attempted s else qs_submitted s))"
proof -
  have at: "holds tenc queue (qs_transport s) (stage_queue config g) (ap_at a g)" for g
    using assms(1) by (simp add: pipe_rel_def pipe_at_def)
  from assms at [of Scheduling] at [of Compiling] at [of Submitting] show ?thesis
    by (intro exI [of _ "ap_results a"] exI [of _ "ap_at a Submitting"] exI [of _ "ap_at a Compiling"]
        exI [of _ "ap_at a Scheduling"]) (simp add: pipe_rel_def pipe_at_def ap_ordered_def ap_ids_def)
qed

lemma ap_ordered_empty: "ap_ordered apipe_empty"
  by (simp add: ap_ordered_def ap_ids_def apipe_empty_def)

text \<open>A queue of tasks between two programs, as a stage of the pipeline.\<close>

locale task_queue = typed_queue lossy tenc tdec send receive queue
  for lossy and tenc :: "QuantumTask \<Rightarrow> Envelope Result" and tdec send receive queue
begin

lemma task_received:
  assumes "codec_sound tenc tdec" and "queues_distinct config"
    and at: "pipe_at tenc renc queue config t a"
    and "receive \<lparr>addr_name = stage_queue config g\<rparr> ra t = Some (r, t')"
  shows "case r of
      Inl e \<Rightarrow> \<exists>xs. remains lossy (ap_at a g) xs \<and> pipe_at tenc renc queue config t' (a\<lparr>ap_at := (ap_at a)(g := xs)\<rparr>)
    | Inr x \<Rightarrow> \<exists>xs xs'. ap_at a g = x # xs \<and> remains lossy xs xs' \<and>
        qt_result_destination x = queue_results (qrm_queues config) \<and>
        pipe_at tenc renc queue config t' (a\<lparr>ap_at := (ap_at a)(g := xs')\<rparr>)"
proof -
  have dest: "qt_result_destination x = queue_results (qrm_queues config)" if "x \<in> set (ap_at a g)" for x
    using at that unfolding pipe_at_def by blast
  have shrunk: "pipe_at tenc renc queue config t' (a\<lparr>ap_at := (ap_at a)(g := ws)\<rparr>)"
    if "holds tenc queue t' (stage_queue config g) ws" "set ws \<subseteq> set (ap_at a g)"
      "\<forall>n'. n' \<noteq> stage_queue config g \<longrightarrow> queue t' n' = queue t n'" for ws
    using at that stage_queue_simps [OF assms(2)] by (auto simp: pipe_at_def holds_def)
  have "holds tenc queue t (stage_queue config g) (ap_at a g)" using at by (simp add: pipe_at_def)
  from take_front [OF assms(1) this assms(4)] show ?thesis
  proof (elim disjE exE conjE)
    fix ws
    assume "isl r" "remains lossy (ap_at a g) ws" "holds tenc queue t' (stage_queue config g) ws"
      "\<forall>n'. n' \<noteq> stage_queue config g \<longrightarrow> queue t' n' = queue t n'"
    then show ?thesis using shrunk [of ws] remains_set [of lossy "ap_at a g" ws] by (cases r) auto
  next
    fix v vs' ws
    assume v: "ap_at a g = v # vs'" "remains lossy vs' ws" "r = Inr v" "holds tenc queue t' (stage_queue config g) ws"
      "\<forall>n'. n' \<noteq> stage_queue config g \<longrightarrow> queue t' n' = queue t n'"
    then have "pipe_at tenc renc queue config t' (a\<lparr>ap_at := (ap_at a)(g := ws)\<rparr>)"
      using shrunk [of ws] remains_set [OF v(2)] by auto
    with v dest show ?thesis by auto
  qed
qed

text \<open>Whatever a receive does, the program may fail to do anything with it.\<close>

lemma task_taken:
  assumes "codec_sound tenc tdec" and "queues_distinct config"
    and "pipe_at tenc renc queue config t a"
    and "receive \<lparr>addr_name = stage_queue config g\<rparr> ra t = Some (r, t')"
  shows "pipe_moves lossy tenc renc queue config a t'"
proof (cases r)
  case (Inl e)
  with task_received [OF assms] obtain xs where xs: "remains lossy (ap_at a g) xs"
    "pipe_at tenc renc queue config t' (a\<lparr>ap_at := (ap_at a)(g := xs)\<rparr>)" by auto
  show ?thesis by (rule pipe_movesI [OF ap_step.shrink [OF xs(1)] xs(2)]) simp_all
next
  case (Inr x)
  with task_received [OF assms] obtain xs xs' where xs: "ap_at a g = x # xs" "remains lossy xs xs'"
    "pipe_at tenc renc queue config t' (a\<lparr>ap_at := (ap_at a)(g := xs')\<rparr>)" by auto
  show ?thesis by (rule pipe_movesI [OF ap_step.lose [OF xs(1,2)] xs(3)]) simp_all
qed

lemma task_sent:
  assumes "queues_distinct config" and at: "pipe_at tenc renc queue config t a"
    and "qt_result_destination x = queue_results (qrm_queues config)"
    and "send \<lparr>addr_name = stage_queue config g\<rparr> x args t = (st, t')"
  shows "(\<not> ok st \<and> pipe_at tenc renc queue config t' a) \<or>
    ((ok st \<or> lossy) \<and> pipe_at tenc renc queue config t' (a\<lparr>ap_at := (ap_at a)(g := ap_at a g @ [x])\<rparr>))"
proof -
  have "holds tenc queue t (stage_queue config g) (ap_at a g)" using at by (simp add: pipe_at_def)
  from put_back [OF this assms(4)] show ?thesis
  proof
    assume sent: "(ok st \<or> lossy) \<and> holds tenc queue t' (stage_queue config g) (ap_at a g @ [x]) \<and>
      (\<forall>n'. n' \<noteq> stage_queue config g \<longrightarrow> queue t' n' = queue t n')"
    then have "pipe_at tenc renc queue config t' (a\<lparr>ap_at := (ap_at a)(g := ap_at a g @ [x])\<rparr>)"
      using at assms(3) stage_queue_simps [OF assms(1)] by (auto simp: pipe_at_def holds_def)
    with sent show ?thesis by blast
  qed (use pipe_at_same [OF _ at] in blast)
qed

end

locale workflow_queues =
  scheduling: task_queue lossy tenc tdec "po_submit ops" "po_scheduler_receive ops" queue +
  compiling: task_queue lossy tenc tdec "po_scheduler_send ops" "po_compiler_receive ops" queue +
  submitting: task_queue lossy tenc tdec "po_compiler_send ops" "po_submitter_receive ops" queue +
  results: typed_queue lossy renc rdec "po_submitter_send ops" "po_fetch ops" queue
  for lossy tenc tdec renc rdec queue and ops :: "'t qrm_ops"
begin

lemma result_received:
  assumes "codec_sound renc rdec" and "queues_distinct config"
    and at: "pipe_at tenc renc queue config t a"
    and "po_fetch ops \<lparr>addr_name = queue_results (qrm_queues config)\<rparr> ra t = Some (r, t')"
  shows "case r of
      Inl e \<Rightarrow> \<exists>xs. remains lossy (ap_results a) xs \<and> pipe_at tenc renc queue config t' (a\<lparr>ap_results := xs\<rparr>)
    | Inr x \<Rightarrow> \<exists>xs xs'. ap_results a = x # xs \<and> remains lossy xs xs' \<and>
        pipe_at tenc renc queue config t' (a\<lparr>ap_results := xs'\<rparr>)"
proof -
  have shrunk: "pipe_at tenc renc queue config t' (a\<lparr>ap_results := ws\<rparr>)"
    if "holds renc queue t' (queue_results (qrm_queues config)) ws"
      "\<forall>n'. n' \<noteq> queue_results (qrm_queues config) \<longrightarrow> queue t' n' = queue t n'" for ws
    using at that stage_queue_simps [OF assms(2)] by (auto simp: pipe_at_def holds_def)
  have "holds renc queue t (queue_results (qrm_queues config)) (ap_results a)" using at by (simp add: pipe_at_def)
  from results.take_front [OF assms(1) this assms(4)] shrunk show ?thesis by (cases r) auto
qed

lemma result_sent:
  assumes "queues_distinct config" and at: "pipe_at tenc renc queue config t a"
    and "po_submitter_send ops \<lparr>addr_name = queue_results (qrm_queues config)\<rparr> r args t = (st, t')"
  shows "(\<not> ok st \<and> pipe_at tenc renc queue config t' a) \<or>
    ((ok st \<or> lossy) \<and> pipe_at tenc renc queue config t' (a\<lparr>ap_results := ap_results a @ [r]\<rparr>))"
proof -
  have "holds renc queue t (queue_results (qrm_queues config)) (ap_results a)" using at by (simp add: pipe_at_def)
  from results.put_back [OF this assms(3)] show ?thesis
  proof
    assume sent: "(ok st \<or> lossy) \<and> holds renc queue t' (queue_results (qrm_queues config)) (ap_results a @ [r]) \<and>
      (\<forall>n'. n' \<noteq> queue_results (qrm_queues config) \<longrightarrow> queue t' n' = queue t n')"
    then have "pipe_at tenc renc queue config t' (a\<lparr>ap_results := ap_results a @ [r]\<rparr>)"
      using at stage_queue_simps [OF assms(1)] by (auto simp: pipe_at_def holds_def)
    with sent show ?thesis by blast
  qed (use pipe_at_same [OF _ at] in blast)
qed

lemma scheduler_simulated:
  assumes "codec_sound tenc tdec" and names: "queues_distinct config"
    and at: "pipe_at tenc renc queue config (qp_world p0) a"
    and "scheduler_round (po_scheduler_receive ops) (po_scheduler_send ops) config p0 = Some p"
  shows "pipe_moves lossy tenc renc queue config a (qp_world p)"
  using assms(4)
proof (cases rule: scheduler_round_cases)
  case (1 e)
  then show ?thesis using scheduling.task_taken [OF assms(1) names at, of Scheduling] by simp
next
  case (2 task w st)
  from scheduling.task_received [OF assms(1) names at, of Scheduling poll_args "Inr task" w] 2(1)
  obtain xs xs' where xs: "ap_at a Scheduling = task # xs" "remains lossy xs xs'"
      "qt_result_destination task = queue_results (qrm_queues config)"
      "pipe_at tenc renc queue config w (a\<lparr>ap_at := (ap_at a)(Scheduling := xs')\<rparr>)" by auto
  from compiling.task_sent [OF names xs(4,3), of Compiling default_send_args st "qp_world p"] 2(2)
  show ?thesis
    using pipe_movesI [OF ap_step.lose [OF xs(1,2)]] pipe_movesI [OF ap_step.forward [OF xs(1,2)]] by auto
qed

lemma compiler_simulated:
  assumes "codec_sound tenc tdec" and names: "queues_distinct config"
    and at: "pipe_at tenc renc queue config (qs_transport s) a"
    and "compiler_at ops mlir config s = Some (Returns p)"
  shows "pipe_moves lossy tenc renc queue config a (fst (qp_world p))"
  using assms(4)
proof (cases rule: compiler_at_cases)
  case (1 e)
  then show ?thesis using compiling.task_taken [OF assms(1) names at, of Compiling] by simp
next
  case (2 task x es sc)
  then show ?thesis using compiling.task_taken [OF assms(1) names at, of Compiling] by simp
next
  case (3 task t task' es sc st)
  from compiling.task_received [OF assms(1) names at, of Compiling poll_args "Inr task" t] 3(1)
  obtain xs xs' where xs: "ap_at a Compiling = task # xs" "remains lossy xs xs'"
      "qt_result_destination task = queue_results (qrm_queues config)"
      "pipe_at tenc renc queue config t (a\<lparr>ap_at := (ap_at a)(Compiling := xs')\<rparr>)" by auto
  obtain cs where cs: "task' = task\<lparr>qt_circuit_files := cs\<rparr>" using passes_keep [OF 3(2)] by blast
  then have "qt_result_destination task' = queue_results (qrm_queues config)" using xs(3) by simp
  from submitting.task_sent [OF names xs(4) this, of Submitting default_send_args st "fst (qp_world p)"] 3(3)
  show ?thesis
    using pipe_movesI [OF ap_step.lose [OF xs(1,2)]] pipe_movesI [OF ap_step.translate [OF xs(1,2) cs]] by auto
qed

lemma submitter_simulated:
  assumes "codec_sound tenc tdec" and names: "queues_distinct config"
    and at: "pipe_at tenc renc queue config (qs_transport s) a"
    and "submitter_at ops qdmi ndebug beyond config s = Some (Returns p)"
  shows "pipe_moves lossy tenc renc queue config a (fst (qp_world p))"
  using assms(4)
proof (cases rule: submitter_at_cases)
  case (1 e)
  then show ?thesis using submitting.task_taken [OF assms(1) names at, of Submitting] by simp
next
  case (2 task t r lg st' st)
  from submitting.task_received [OF assms(1) names at, of Submitting poll_args "Inr task" t] 2(1)
  obtain xs xs' where xs: "ap_at a Submitting = task # xs" "remains lossy xs xs'"
      "qt_result_destination task = queue_results (qrm_queues config)"
      "pipe_at tenc renc queue config t (a\<lparr>ap_at := (ap_at a)(Submitting := xs')\<rparr>)" by auto
  from result_sent [OF names xs(4), of r default_send_args st "fst (qp_world p)"] 2(3) xs(3)
  show ?thesis
    using pipe_movesI [OF ap_step.lose [OF xs(1,2)]]
      pipe_movesI [OF ap_step.run [OF xs(1,2) submitted_result(1) [OF 2(2)]]] by auto
qed

lemma submit_simulated:
  assumes names: "queues_distinct config" and rel: "pipe_rel lossy tenc renc queue config s a"
    and "qt_result_destination task = queue_results (qrm_queues config)"
    and "po_submit ops \<lparr>addr_name = queue_scheduler (qrm_queues config)\<rparr> task default_send_args (qs_transport s) = (st, t)"
  shows "\<exists>a'. ap_step lossy a a' \<and> pipe_rel lossy tenc renc queue config (s\<lparr>qs_transport := t,
    qs_attempted := qs_attempted s @ [task], qs_submitted := qs_submitted s @ (if ok st then [task] else [])\<rparr>) a'"
proof -
  have at: "pipe_at tenc renc queue config (qs_transport s) a" using rel by (simp add: pipe_rel_def)
  from scheduling.task_sent [OF names at assms(3), of Scheduling default_send_args st t] assms(4)
  consider "\<not> ok st" "pipe_at tenc renc queue config t a" |
    "ok st \<or> lossy" "pipe_at tenc renc queue config t (a\<lparr>ap_at := (ap_at a)(Scheduling := ap_at a Scheduling @ [task])\<rparr>)"
    by auto
  then show ?thesis
  proof cases
    case 1
    show ?thesis
    proof (cases lossy)
      case True
      from ap_step.refuse [OF this, of a task] rel 1 True show ?thesis
        by (intro exI [of _ "a\<lparr>ap_submitted := ap_submitted a @ [task]\<rparr>"]) (simp add: pipe_rel_def)
    next
      case False
      from ap_step.stay [of lossy a] rel 1 False show ?thesis by (intro exI [of _ a]) (simp add: pipe_rel_def)
    qed
  next
    case 2
    let ?a' = "a\<lparr>ap_submitted := ap_submitted a @ [task],
      ap_at := (ap_at a)(Scheduling := ap_at a Scheduling @ [task])\<rparr>"
    have "pipe_at tenc renc queue config t ?a'" using 2(2) by (simp add: pipe_at_def)
    with ap_step.submit [of lossy a task] rel 2(1) show ?thesis
      by (intro exI [of _ ?a']) (auto simp: pipe_rel_def)
  qed
qed

lemma fetch_simulated:
  assumes sound: "codec_sound renc rdec" and names: "queues_distinct config"
    and rel: "pipe_rel lossy tenc renc queue config s a"
    and "po_fetch ops \<lparr>addr_name = queue_results (qrm_queues config)\<rparr> ra (qs_transport s) = Some (x, t)"
  shows "\<exists>a'. ap_step lossy a a' \<and> pipe_rel lossy tenc renc queue config (s\<lparr>qs_transport := t,
    qs_delivered := qs_delivered s @ (case x of Inl e \<Rightarrow> [] | Inr y \<Rightarrow> [y])\<rparr>) a'"
proof -
  have at: "pipe_at tenc renc queue config (qs_transport s) a" using rel by (simp add: pipe_rel_def)
  show ?thesis
  proof (cases x)
    case (Inl e)
    with result_received [OF sound names at assms(4)] obtain rs where rs: "remains lossy (ap_results a) rs"
      "pipe_at tenc renc queue config t (a\<lparr>ap_results := rs\<rparr>)" by auto
    with ap_step.shrink_results [OF rs(1)] rel Inl show ?thesis
      by (intro exI [of _ "a\<lparr>ap_results := rs\<rparr>"]) (simp add: pipe_rel_def)
  next
    case (Inr y)
    with result_received [OF sound names at assms(4)] obtain rs rs' where rs: "ap_results a = y # rs" "remains lossy rs rs'"
      "pipe_at tenc renc queue config t (a\<lparr>ap_results := rs'\<rparr>)" by auto
    with ap_step.fetch [OF rs(1,2)] rel Inr show ?thesis
      by (intro exI [of _ "a\<lparr>ap_results := rs', ap_delivered := ap_delivered a @ [y]\<rparr>"]) (simp add: pipe_rel_def)
  qed
qed

lemma workflow_simulates:
  assumes sound: "codec_sound tenc tdec" "codec_sound renc rdec" and names: "queues_distinct config"
    and step: "qrm_step ops mlir qdmi ndebug beyond config s s'"
    and rel: "pipe_rel lossy tenc renc queue config s a"
  shows "\<exists>a'. ap_step lossy a a' \<and> pipe_rel lossy tenc renc queue config s' a'"
proof -
  have at: "pipe_at tenc renc queue config (qs_transport s) a" using rel by (simp add: pipe_rel_def)
  have moved: "\<exists>a'. ap_step lossy a a' \<and> pipe_rel lossy tenc renc queue config s' a'"
    if "pipe_moves lossy tenc renc queue config a (qs_transport s')" "qs_attempted s' = qs_attempted s"
      "qs_submitted s' = qs_submitted s" "qs_delivered s' = qs_delivered s"
    using that rel by (auto simp: pipe_moves_def pipe_rel_def)
  show ?thesis
    using step
  proof cases
    case (submit task st t)
    from submit_simulated [OF names rel submit(2,3)] show ?thesis unfolding submit(1) .
  next
    case (schedule p)
    have "pipe_moves lossy tenc renc queue config a (qp_world p)"
      by (rule scheduler_simulated [OF sound(1) names _ schedule(2)]) (simp add: at)
    then show ?thesis by (intro moved) (simp_all add: schedule(1))
  next
    case (compile p)
    from compiler_simulated [OF sound(1) names at compile(3)] show ?thesis
      by (intro moved) (simp_all add: compile(1))
  next
    case (compiler_ends out r t sc)
    have "pipe_moves lossy tenc renc queue config a t"
      by (rule compiling.task_taken [OF sound(1) names at, of Compiling]) (use compiler_ends(5) in simp)
    then show ?thesis by (intro moved) (simp_all add: compiler_ends(1))
  next
    case (run_task p')
    from submitter_simulated [OF sound(1) names at run_task(3)] show ?thesis
      by (intro moved) (simp_all add: run_task(1))
  next
    case (submitter_ends out' r t sq)
    have "pipe_moves lossy tenc renc queue config a t"
      by (rule submitting.task_taken [OF sound(1) names at, of Submitting]) (use submitter_ends(5) in simp)
    then show ?thesis by (intro moved) (simp_all add: submitter_ends(1))
  next
    case (deliver_result ra x t)
    from fetch_simulated [OF sound(2) names rel deliver_result(2)] show ?thesis unfolding deliver_result(1) .
  qed
qed

end

section \<open>Over the in-memory transport\<close>

text \<open>
  All programs on one in-memory transport: the workflow without a broker. The programs themselves use RabbitMQ; for
  that see the theory \<open>Qrm_Rabbit\<close>.
\<close>

definition im_qrm_ops ::
  "(QuantumTask \<Rightarrow> string option) \<Rightarrow> (string \<Rightarrow> QuantumTask option) \<Rightarrow> (QuantumResult \<Rightarrow> string option) \<Rightarrow>
   (string \<Rightarrow> QuantumResult option) \<Rightarrow> InMemoryTransport qrm_ops" where
  "im_qrm_ops ser par rser rpar = \<lparr>po_submit = im_json_send ser,
     po_scheduler_receive = im_json_receive par id, po_scheduler_send = im_json_send ser,
     po_compiler_receive = im_json_receive par id, po_compiler_send = im_json_send ser,
     po_submitter_receive = im_json_receive par id, po_submitter_send = im_json_send rser,
     po_fetch = im_json_receive rpar id\<rparr>"

interpretation im_workflow: workflow_queues False "ProtoJson_encode ser" "ProtoJson_decode par"
  "ProtoJson_encode rser" "ProtoJson_decode rpar" im_queue "im_qrm_ops ser par rser rpar"
  for ser par rser rpar
  by (unfold_locales; unfold im_qrm_ops_def qrm_ops.simps;
      (erule im_typed.send_cases | erule im_typed.receive_cases))

text \<open>What is assumed of the serializers and the names, together with the relation.\<close>

definition workflow_rel ::
  "(QuantumTask \<Rightarrow> string option) \<Rightarrow> (string \<Rightarrow> QuantumTask option) \<Rightarrow> (QuantumResult \<Rightarrow> string option) \<Rightarrow>
   (string \<Rightarrow> QuantumResult option) \<Rightarrow> qrm_Config \<Rightarrow> (InMemoryTransport, 'sc, 'sq) qrm_state \<Rightarrow> apipe \<Rightarrow> bool" where
  "workflow_rel ser par rser rpar config s a \<longleftrightarrow>
     wire_sound ser par \<and> wire_sound rser rpar \<and> queues_distinct config \<and>
     pipe_rel False (ProtoJson_encode ser) (ProtoJson_encode rser) im_queue config s a"

interpretation workflow: simulation
  "qrm_step (im_qrm_ops ser par rser rpar) mlir qdmi ndebug beyond config" "ap_step False"
  "workflow_rel ser par rser rpar config" for ser par rser rpar mlir qdmi ndebug beyond config
proof (unfold_locales, goal_cases)
  case (1 s s' a)
  then show ?case
    using im_workflow.workflow_simulates [OF json_sound json_sound _ 1(1)] by (auto simp: workflow_rel_def)
qed

lemma workflow_initial:
  assumes "wire_sound ser par" and "wire_sound rser rpar" and "queues_distinct config"
  shows "workflow_rel ser par rser rpar config (qrm_initial createTransport_InMemory sc sq) apipe_empty"
  using assms idle_initial
  by (simp add: workflow_rel_def pipe_rel_def pipe_at_def qrm_initial_def apipe_empty_def holds_def idle_def)

end
