(* ===== verification/Qrm_Batch.thy ===== *)
theory Qrm_Batch
  imports Qrm_Pipeline
begin

text \<open>
  A batch of tasks through the four programs of the QRM workflow: any number of tasks sent to the scheduler,
  and each program run for as many rounds as there are tasks. Unlike the theory \<open>Qrm_Pipeline\<close>, which
  says what can go wrong, this one says that nothing does when the libraries work. The properties of the
  concurrent workflow, which follow from the simulation of that theory, are at its end.
\<close>

definition queues_named :: "qrm_Config \<Rightarrow> bool" where
  "queues_named config \<longleftrightarrow> [] \<notin> {queue_scheduler (qrm_queues config), queue_compiler (qrm_queues config),
     queue_submitter (qrm_queues config), queue_results (qrm_queues config)}"

text \<open>The transport is in service and holds what the pipeline holds.\<close>

definition flowing ::
  "(QuantumTask \<Rightarrow> string option) \<Rightarrow> (string \<Rightarrow> QuantumTask option) \<Rightarrow> (QuantumResult \<Rightarrow> string option) \<Rightarrow>
   (string \<Rightarrow> QuantumResult option) \<Rightarrow> qrm_Config \<Rightarrow> InMemoryTransport \<Rightarrow> apipe \<Rightarrow> bool" where
  "flowing ser par rser rpar config t a \<longleftrightarrow> wire_sound ser par \<and> wire_sound rser rpar \<and>
     queues_distinct config \<and> queues_named config \<and> im_live t \<and>
     pipe_at (ProtoJson_encode ser) (ProtoJson_encode rser) im_queue config t a"

lemma sound_faithful: "wire_sound ser par \<Longrightarrow> ser v \<noteq> None \<Longrightarrow> wire_faithful ser par v"
  by (auto simp: wire_sound_def wire_faithful_def)

lemma front_received:
  assumes "im_live t" and "n \<noteq> []" and "holds (ProtoJson_encode ser) im_queue t n (x # xs)"
    and "wire_sound ser par"
  shows "\<exists>t'. im_json_receive par others \<lparr>addr_name = n\<rparr> ra t = Some (Inr x, t') \<and> im_live t'"
proof -
  obtain e es where e: "im_queue t n = e # es" "ProtoJson_encode ser x = Inr e"
    using assms(3) by (cases "im_queue t n") (auto simp: holds_def)
  have "ProtoJson_decode par e = Inr x" using json_sound [OF assms(4)] e(2) by (simp add: codec_sound_def)
  with im_json.receive_decodes [of "\<lparr>addr_name = n\<rparr>" t e es par others ra] assms(1,2) e(1) show ?thesis by auto
qed

lemma back_sent:
  assumes "im_live t" and "n \<noteq> []" and "wire_sound ser par" and "ser x \<noteq> None"
  shows "\<exists>t'. im_json_send ser \<lparr>addr_name = n\<rparr> x default_send_args t = (success, t') \<and> im_live t'"
  using im_json.send_encodes [OF sound_faithful [OF assms(3,4)], of "\<lparr>addr_name = n\<rparr>" default_send_args t] assms(1,2)
  by (auto simp: default_send_args_def)

lemma stage_named: "queues_named config \<Longrightarrow> stage_queue config g \<noteq> []"
  by (cases g) (auto simp: queues_named_def)

text \<open>Taking the first task of a stage, and handing a task or a result on, in a transport that works.\<close>

lemma flowing_take:
  assumes f: "flowing ser par rser rpar config t a" and x: "ap_at a g = x # xs"
  shows "\<exists>t'. im_json_receive par id \<lparr>addr_name = stage_queue config g\<rparr> ra t = Some (Inr x, t') \<and>
    flowing ser par rser rpar config t' (a\<lparr>ap_at := (ap_at a)(g := xs)\<rparr>) \<and>
    qt_result_destination x = queue_results (qrm_queues config)"
proof -
  have at: "queues_distinct config" "pipe_at (ProtoJson_encode ser) (ProtoJson_encode rser) im_queue config t a"
    using f by (simp_all add: flowing_def)
  have h: "holds (ProtoJson_encode ser) im_queue t (stage_queue config g) (x # xs)"
    and c: "im_live t" "stage_queue config g \<noteq> []" "wire_sound ser par"
    using f x stage_named by (auto simp: flowing_def pipe_at_def) (metis x)
  obtain t' where t': "im_json_receive par id \<lparr>addr_name = stage_queue config g\<rparr> ra t = Some (Inr x, t')" "im_live t'"
    using front_received [OF c(1,2) h c(3), of id ra] by blast
  then have "po_scheduler_receive (im_qrm_ops ser par rser rpar) \<lparr>addr_name = stage_queue config g\<rparr> ra t = Some (Inr x, t')"
    by (simp add: im_qrm_ops_def)
  from im_workflow.scheduling.task_received [OF json_sound [OF c(3)] at this] f t' x show ?thesis
    by (auto simp: flowing_def)
qed

lemma flowing_put:
  assumes f: "flowing ser par rser rpar config t a" and "ser x \<noteq> None"
    and "qt_result_destination x = queue_results (qrm_queues config)"
  shows "\<exists>t'. im_json_send ser \<lparr>addr_name = stage_queue config g\<rparr> x default_send_args t = (success, t') \<and>
    flowing ser par rser rpar config t' (a\<lparr>ap_at := (ap_at a)(g := ap_at a g @ [x])\<rparr>)"
proof -
  have at: "queues_distinct config" "pipe_at (ProtoJson_encode ser) (ProtoJson_encode rser) im_queue config t a"
    using f by (simp_all add: flowing_def)
  have c: "im_live t" "stage_queue config g \<noteq> []" "wire_sound ser par"
    using f stage_named by (auto simp: flowing_def)
  obtain t' where t': "im_json_send ser \<lparr>addr_name = stage_queue config g\<rparr> x default_send_args t = (success, t')"
    "im_live t'" using back_sent [OF c assms(2)] by blast
  then have "po_submit (im_qrm_ops ser par rser rpar) \<lparr>addr_name = stage_queue config g\<rparr> x default_send_args t =
      (success, t')" by (simp add: im_qrm_ops_def)
  from im_workflow.scheduling.task_sent [OF at assms(3) this] f t' show ?thesis by (auto simp: flowing_def)
qed

lemma flowing_answer:
  assumes f: "flowing ser par rser rpar config t a" and "rser r \<noteq> None"
  shows "\<exists>t'. im_json_send rser \<lparr>addr_name = queue_results (qrm_queues config)\<rparr> r default_send_args t = (success, t') \<and>
    flowing ser par rser rpar config t' (a\<lparr>ap_results := ap_results a @ [r]\<rparr>)"
proof -
  have at: "queues_distinct config" "pipe_at (ProtoJson_encode ser) (ProtoJson_encode rser) im_queue config t a"
    using f by (simp_all add: flowing_def)
  have c: "im_live t" "queue_results (qrm_queues config) \<noteq> []" "wire_sound rser rpar"
    using f by (auto simp: flowing_def queues_named_def)
  obtain t' where t': "im_json_send rser \<lparr>addr_name = queue_results (qrm_queues config)\<rparr> r default_send_args t =
      (success, t')" "im_live t'" using back_sent [OF c assms(2)] by blast
  then have "po_submitter_send (im_qrm_ops ser par rser rpar) \<lparr>addr_name = queue_results (qrm_queues config)\<rparr> r
      default_send_args t = (success, t')" by (simp add: im_qrm_ops_def)
  from im_workflow.result_sent [OF at this] f t' show ?thesis by (auto simp: flowing_def)
qed

section \<open>One round of a program\<close>

lemma scheduler_moves:
  assumes "flowing ser par rser rpar config (qp_world p) a" and "ap_at a Scheduling = x # xs" and "ser x \<noteq> None"
  shows "\<exists>p'. scheduler_round (im_json_receive par id) (im_json_send ser) config p = Some p' \<and>
    flowing ser par rser rpar config (qp_world p')
      (a\<lparr>ap_at := (ap_at a)(Scheduling := xs, Compiling := ap_at a Compiling @ [x])\<rparr>)"
proof -
  obtain t where t: "im_json_receive par id \<lparr>addr_name = stage_queue config Scheduling\<rparr> poll_args (qp_world p) =
      Some (Inr x, t)"
    "flowing ser par rser rpar config t (a\<lparr>ap_at := (ap_at a)(Scheduling := xs)\<rparr>)"
    "qt_result_destination x = queue_results (qrm_queues config)"
    using flowing_take [OF assms(1,2)] by blast
  from flowing_put [OF t(2) assms(3) t(3), of Compiling] obtain t' where
    "im_json_send ser \<lparr>addr_name = stage_queue config Compiling\<rparr> x default_send_args t = (success, t')"
    "flowing ser par rser rpar config t' (a\<lparr>ap_at := (ap_at a)(Scheduling := xs, Compiling := ap_at a Compiling @ [x])\<rparr>)"
    by auto
  with scheduler_round_forwards [where receive = "im_json_receive par id" and send = "im_json_send ser",
      OF t(1) [unfolded stage_queue.simps]] show ?thesis by auto
qed

lemma compiler_moves:
  assumes "flowing ser par rser rpar config (fst (qp_world p)) a" and "ap_at a Compiling = x # xs"
    and "compiler_works mlir m x" and "ser (compiled mlir m x) \<noteq> None"
  shows "\<exists>p'. compiler_round mlir snd (\<lambda>sc w. (fst w, sc)) (with_lib_receive (im_json_receive par id))
      (with_lib_send (im_json_send ser)) config p = Some (Returns p') \<and>
    flowing ser par rser rpar config (fst (qp_world p'))
      (a\<lparr>ap_at := (ap_at a)(Compiling := xs, Submitting := ap_at a Submitting @ [compiled mlir m x])\<rparr>)"
proof -
  obtain t where t: "im_json_receive par id \<lparr>addr_name = stage_queue config Compiling\<rparr> poll_args (fst (qp_world p)) =
      Some (Inr x, t)"
    "flowing ser par rser rpar config t (a\<lparr>ap_at := (ap_at a)(Compiling := xs)\<rparr>)"
    "qt_result_destination x = queue_results (qrm_queues config)"
    using flowing_take [OF assms(1,2)] by blast
  have "qt_result_destination (compiled mlir m x) = queue_results (qrm_queues config)"
    using t(3) by (simp add: compiled_def)
  from flowing_put [OF t(2) assms(4) this, of Submitting] obtain t' where
    t': "im_json_send ser \<lparr>addr_name = stage_queue config Submitting\<rparr> (compiled mlir m x) default_send_args t =
      (success, t')"
    "flowing ser par rser rpar config t' (a\<lparr>ap_at := (ap_at a)(Compiling := xs,
      Submitting := ap_at a Submitting @ [compiled mlir m x])\<rparr>)" by auto
  obtain es sc' where passes: "applyOptimizationPasses mlir x (snd (qp_world p)) = (Returns (compiled mlir m x), es, sc')"
    using passes_result [of mlir x m "snd (qp_world p)"] assms(3) unfolding compiled_def compiler_works_def by blast
  have "with_lib_receive (im_json_receive par id) \<lparr>addr_name = queue_compiler (qrm_queues config)\<rparr> poll_args (qp_world p) =
      Some (Inr x, (t, snd (qp_world p)))" using t(1) by (simp add: with_lib_receive_def)
  moreover have "with_lib_send (im_json_send ser) \<lparr>addr_name = queue_submitter (qrm_queues config)\<rparr> (compiled mlir m x)
      default_send_args (fst (t, snd (qp_world p)), sc') = (success, (t', sc'))"
    using t'(1) by (simp add: with_lib_send_def)
  ultimately have "\<exists>p'. compiler_round mlir snd (\<lambda>sc w. (fst w, sc)) (with_lib_receive (im_json_receive par id))
      (with_lib_send (im_json_send ser)) config p = Some (Returns p') \<and> qp_world p' = (t', sc')"
    using compiler_round_forwards [where get_s = snd and put_s = "\<lambda>sc w. (fst w, sc)"
      and receive = "with_lib_receive (im_json_receive par id)" and send = "with_lib_send (im_json_send ser)"]
      passes by fastforce
  with t'(2) show ?thesis by auto
qed

text \<open>The result of a task on a device whose histogram is \<open>hist\<close>, a function of the circuit and the shots.\<close>

definition result_of ::
  "('m, 's) mlir \<Rightarrow> (string \<Rightarrow> 'm) \<Rightarrow> (string \<Rightarrow> int32 \<Rightarrow> string list \<times> uint64 list) \<Rightarrow> QuantumTask \<Rightarrow> QuantumResult" where
  "result_of mlir m hist x =
     (let x' = compiled mlir m x; c = hd (qt_circuit_files x'); (ks, cs) = hist c (qt_n_shots x)
      in histogram_result x' c ks cs)"

definition hist_result ::
  "(string \<Rightarrow> int32 \<Rightarrow> string list \<times> uint64 list) \<Rightarrow> QuantumTask \<Rightarrow> QuantumResult" where
  "hist_result hist x = (let c = hd (qt_circuit_files x); (ks, cs) = hist c (qt_n_shots x) in histogram_result x c ks cs)"

lemma result_of_compiled: "result_of mlir m hist x = hist_result hist (compiled mlir m x)"
  by (simp add: result_of_def hist_result_def compiled_def)

definition device_runs ::
  "('d, 'j, 's) qdmi \<Rightarrow> 32 word \<Rightarrow> (string \<Rightarrow> int32 \<Rightarrow> string list \<times> uint64 list) \<Rightarrow> QuantumTask \<Rightarrow> bool" where
  "device_runs qdmi beyond hist x \<longleftrightarrow> qt_circuit_files x \<noteq> [] \<and>
     (\<forall>sq. device_works qdmi beyond sq (hd (qt_circuit_files x)) (qt_n_shots x)
        (fst (hist (hd (qt_circuit_files x)) (qt_n_shots x))) (snd (hist (hd (qt_circuit_files x)) (qt_n_shots x))))"

lemma device_returns:
  assumes "device_runs qdmi beyond hist x"
  shows "\<exists>st. createAndSubmitQDMIJobToQDMIDevice qdmi ndebug beyond x (sq, lg) = (Returns (hist_result hist x), st)"
proof -
  let ?c = "hd (qt_circuit_files x)"
  obtain ks cs where h: "hist ?c (qt_n_shots x) = (ks, cs)" by fastforce
  obtain job sq' where j: "finished_job qdmi beyond ?c (qt_n_shots x) sq = (job, sq')" by fastforce
  have "device_works qdmi beyond sq ?c (qt_n_shots x) ks cs" and c: "qt_circuit_files x = ?c # tl (qt_circuit_files x)"
    using assms h by (auto simp: device_runs_def)
  then have w: "qdmi_succeeds qdmi" "reports_keys qdmi job sq' (key_text ks)" "keys_ok ks"
    "reports_values qdmi job sq' cs" "length ks \<le> length cs"
    using j by (simp_all add: device_works_def)
  have "hist_result hist x = histogram_result x ?c ks cs" by (simp add: hist_result_def h)
  with job_returns [OF w(1) c j w(2,3,4,5), of ndebug lg] show ?thesis by simp
qed

lemma submitter_moves:
  assumes "flowing ser par rser rpar config (fst (qp_world p)) a" and "ap_at a Submitting = x # xs"
    and "device_runs qdmi beyond hist x" and "rser (hist_result hist x) \<noteq> None"
  shows "\<exists>p'. submitter_round qdmi ndebug beyond snd (\<lambda>sq w. (fst w, sq)) (with_lib_receive (im_json_receive par id))
      (with_lib_send (im_json_send rser)) config p = Some (Returns p') \<and>
    flowing ser par rser rpar config (fst (qp_world p'))
      (a\<lparr>ap_at := (ap_at a)(Submitting := xs), ap_results := ap_results a @ [hist_result hist x]\<rparr>)"
proof -
  obtain t where t: "im_json_receive par id \<lparr>addr_name = stage_queue config Submitting\<rparr> poll_args (fst (qp_world p)) =
      Some (Inr x, t)"
    "flowing ser par rser rpar config t (a\<lparr>ap_at := (ap_at a)(Submitting := xs)\<rparr>)"
    "qt_result_destination x = queue_results (qrm_queues config)"
    using flowing_take [OF assms(1,2)] by blast
  from flowing_answer [OF t(2) assms(4)] obtain t' where
    t': "im_json_send rser \<lparr>addr_name = qt_result_destination x\<rparr> (hist_result hist x) default_send_args t = (success, t')"
    "flowing ser par rser rpar config t' (a\<lparr>ap_at := (ap_at a)(Submitting := xs),
      ap_results := ap_results a @ [hist_result hist x]\<rparr>)" unfolding t(3) by auto
  let ?p1 = "spd_info (''Processing new task with id: '' @ int_text (qt_task_id x))
      ((spd_info ''Waiting for a new job...'' p)\<lparr>qp_world := (t, snd (qp_world p))\<rparr>)"
  obtain sq' lg where c: "createAndSubmitQDMIJobToQDMIDevice qdmi ndebug beyond x (snd (qp_world p), qp_log ?p1) =
      (Returns (hist_result hist x), sq', lg)" using device_returns [OF assms(3)] by (metis prod.collapse)
  have r: "with_lib_receive (im_json_receive par id) \<lparr>addr_name = queue_submitter (qrm_queues config)\<rparr> poll_args (qp_world p) =
      Some (Inr x, (t, snd (qp_world p)))" using t(1) by (simp add: with_lib_receive_def)
  have s: "with_lib_send (im_json_send rser) \<lparr>addr_name = qt_result_destination x\<rparr> (hist_result hist x)
      default_send_args (t, sq') = (success, (t', sq'))" using t'(1) by (simp add: with_lib_send_def)
  have "\<exists>p'. submitter_round qdmi ndebug beyond snd (\<lambda>sq w. (fst w, sq)) (with_lib_receive (im_json_receive par id))
      (with_lib_send (im_json_send rser)) config p = Some (Returns p') \<and> qp_world p' = (t', sq')"
    using c unfolding submitter_round_def Let_def log_keeps_world r by (simp add: s)
  with t'(2) show ?thesis by auto
qed

section \<open>As many rounds as there are tasks\<close>

lemma poll_loop_drains:
  assumes step: "\<And>p x xs ys. I p (x # xs) ys \<Longrightarrow> good x \<Longrightarrow>
      \<exists>p'. body p = Some (Returns p') \<and> I p' xs (ys @ [f x])"
  shows "I p xs ys \<Longrightarrow> list_all good xs \<Longrightarrow>
    \<exists>p'. poll_loop (length xs) body p = Some (Returns p') \<and> I p' [] (ys @ map f xs)"
proof (induction xs arbitrary: p ys)
  case (Cons x xs)
  then obtain p1 where p1: "body p = Some (Returns p1)" "I p1 xs (ys @ [f x])" using step by fastforce
  with Cons.IH [OF p1(2)] Cons.prems(2) show ?case by auto
qed simp

text \<open>The states of the pipeline between the three programs.\<close>

definition batch_pipe :: "QuantumTask list \<Rightarrow> QuantumTask list \<Rightarrow> QuantumTask list \<Rightarrow> QuantumResult list \<Rightarrow> apipe" where
  "batch_pipe ts1 ts2 ts3 rs = \<lparr>ap_submitted = [],
     ap_at = (\<lambda>g. case g of Scheduling \<Rightarrow> ts1 | Compiling \<Rightarrow> ts2 | Submitting \<Rightarrow> ts3),
     ap_results = rs, ap_delivered = []\<rparr>"

lemma batch_pipe_simps [simp]:
  "ap_at (batch_pipe ts1 ts2 ts3 rs) Scheduling = ts1" "ap_at (batch_pipe ts1 ts2 ts3 rs) Compiling = ts2"
  "ap_at (batch_pipe ts1 ts2 ts3 rs) Submitting = ts3" "ap_results (batch_pipe ts1 ts2 ts3 rs) = rs"
  "(batch_pipe ts1 ts2 ts3 rs)\<lparr>ap_at := (ap_at (batch_pipe ts1 ts2 ts3 rs))(Scheduling := us, Compiling := vs)\<rparr> =
     batch_pipe us vs ts3 rs"
  "(batch_pipe ts1 ts2 ts3 rs)\<lparr>ap_at := (ap_at (batch_pipe ts1 ts2 ts3 rs))(Compiling := us, Submitting := vs)\<rparr> =
     batch_pipe ts1 us vs rs"
  "(batch_pipe ts1 ts2 ts3 rs)\<lparr>ap_at := (ap_at (batch_pipe ts1 ts2 ts3 rs))(Submitting := us), ap_results := qs\<rparr> =
     batch_pipe ts1 ts2 us qs"
  "(batch_pipe ts1 ts2 ts3 rs)\<lparr>ap_at := (ap_at (batch_pipe ts1 ts2 ts3 rs))(Scheduling := us)\<rparr> =
     batch_pipe us ts2 ts3 rs"
  by (auto simp: batch_pipe_def fun_eq_iff split: stage.splits)

lemma scheduler_drains:
  assumes "flowing ser par rser rpar config (qp_world p) (batch_pipe ts [] [] [])"
    and "list_all (\<lambda>x. ser x \<noteq> None) ts"
  shows "\<exists>p'. poll_loop (length ts) (\<lambda>p. map_option Returns
      (scheduler_round (im_json_receive par id) (im_json_send ser) config p)) p = Some (Returns p') \<and>
    flowing ser par rser rpar config (qp_world p') (batch_pipe [] ts [] [])"
  using poll_loop_drains [where I = "\<lambda>p xs ys. flowing ser par rser rpar config (qp_world p) (batch_pipe xs ys [] [])"
      and good = "\<lambda>x. ser x \<noteq> None" and f = "\<lambda>x. x" and ys = "[]"
      and body = "\<lambda>p. map_option Returns (scheduler_round (im_json_receive par id) (im_json_send ser) config p)",
      OF _ assms] scheduler_moves [where a = "batch_pipe _ _ [] []", simplified]
  by fastforce

lemma compiler_drains:
  assumes "flowing ser par rser rpar config (fst (qp_world p)) (batch_pipe [] ts [] [])"
    and "list_all (\<lambda>x. compiler_works mlir m x \<and> ser (compiled mlir m x) \<noteq> None) ts"
  shows "\<exists>p'. poll_loop (length ts) (compiler_round mlir snd (\<lambda>sc w. (fst w, sc))
      (with_lib_receive (im_json_receive par id)) (with_lib_send (im_json_send ser)) config) p = Some (Returns p') \<and>
    flowing ser par rser rpar config (fst (qp_world p')) (batch_pipe [] [] (map (compiled mlir m) ts) [])"
  using poll_loop_drains [where I = "\<lambda>p xs ys. flowing ser par rser rpar config (fst (qp_world p)) (batch_pipe [] xs ys [])"
      and good = "\<lambda>x. compiler_works mlir m x \<and> ser (compiled mlir m x) \<noteq> None" and f = "compiled mlir m" and ys = "[]"
      and body = "compiler_round mlir snd (\<lambda>sc w. (fst w, sc)) (with_lib_receive (im_json_receive par id))
        (with_lib_send (im_json_send ser)) config", OF _ assms]
    compiler_moves [where a = "batch_pipe [] _ _ []", simplified]
  by fastforce

lemma submitter_drains:
  assumes "flowing ser par rser rpar config (fst (qp_world p)) (batch_pipe [] [] ts [])"
    and "list_all (\<lambda>x. device_runs qdmi beyond hist x \<and> rser (hist_result hist x) \<noteq> None) ts"
  shows "\<exists>p'. poll_loop (length ts) (submitter_round qdmi ndebug beyond snd (\<lambda>sq w. (fst w, sq))
      (with_lib_receive (im_json_receive par id)) (with_lib_send (im_json_send rser)) config) p = Some (Returns p') \<and>
    flowing ser par rser rpar config (fst (qp_world p')) (batch_pipe [] [] [] (map (hist_result hist) ts))"
  using poll_loop_drains [where I = "\<lambda>p xs ys. flowing ser par rser rpar config (fst (qp_world p)) (batch_pipe [] [] xs ys)"
      and good = "\<lambda>x. device_runs qdmi beyond hist x \<and> rser (hist_result hist x) \<noteq> None" and f = "hist_result hist"
      and ys = "[]" and body = "submitter_round qdmi ndebug beyond snd (\<lambda>sq w. (fst w, sq))
        (with_lib_receive (im_json_receive par id)) (with_lib_send (im_json_send rser)) config", OF _ assms]
    submitter_moves [where a = "batch_pipe [] [] _ _", simplified]
  by fastforce

lemma batch_sent:
  assumes "flowing ser par rser rpar config t (batch_pipe us [] [] [])"
    and "list_all (\<lambda>x. ser x \<noteq> None \<and> qt_result_destination x = queue_results (qrm_queues config)) ts"
  shows "flowing ser par rser rpar config (send_values (ProtoJson_encode ser) im_send
      \<lparr>addr_name = queue_scheduler (qrm_queues config)\<rparr> default_send_args ts t) (batch_pipe (us @ ts) [] [] [])"
  using assms
proof (induction ts arbitrary: t us)
  case (Cons x xs)
  then obtain t' where "im_json_send ser \<lparr>addr_name = queue_scheduler (qrm_queues config)\<rparr> x default_send_args t = (success, t')"
    "flowing ser par rser rpar config t' (batch_pipe (us @ [x]) [] [] [])"
    using flowing_put [OF Cons.prems(1), of x Scheduling] by auto
  with Cons.IH [OF this(2)] Cons.prems(2) show ?case by simp
qed simp

lemma batch_received:
  assumes "flowing ser par rser rpar config t (batch_pipe [] [] [] rs)"
  shows "\<exists>t'. receive_values (ProtoJson_decode rpar) (im_receive id) \<lparr>addr_name = queue_results (qrm_queues config)\<rparr>
      ra (length rs) t = Some (map Inr rs, t') \<and> flowing ser par rser rpar config t' (batch_pipe [] [] [] [])"
  using assms
proof (induction rs arbitrary: t)
  case (Cons r rs)
  have f: "im_live t" "queue_results (qrm_queues config) \<noteq> []" "wire_sound rser rpar" "queues_distinct config"
    "pipe_at (ProtoJson_encode ser) (ProtoJson_encode rser) im_queue config t (batch_pipe [] [] [] (r # rs))"
    "holds (ProtoJson_encode rser) im_queue t (queue_results (qrm_queues config)) (r # rs)"
    using Cons.prems by (auto simp: flowing_def queues_named_def pipe_at_def)
  obtain t1 where t1: "im_json_receive rpar id \<lparr>addr_name = queue_results (qrm_queues config)\<rparr> ra t = Some (Inr r, t1)"
    "im_live t1" using front_received [OF f(1,2,6,3), of id ra] by blast
  then have "po_fetch (im_qrm_ops ser par rser rpar) \<lparr>addr_name = queue_results (qrm_queues config)\<rparr> ra t =
      Some (Inr r, t1)" by (simp add: im_qrm_ops_def)
  from im_workflow.result_received [OF json_sound [OF f(3)] f(4,5) this]
  have "pipe_at (ProtoJson_encode ser) (ProtoJson_encode rser) im_queue config t1 (batch_pipe [] [] [] rs)"
    by (auto simp: batch_pipe_def)
  with Cons.prems t1(2) have "flowing ser par rser rpar config t1 (batch_pipe [] [] [] rs)"
    by (simp add: flowing_def)
  then obtain t' where t': "receive_values (ProtoJson_decode rpar) (im_receive id)
      \<lparr>addr_name = queue_results (qrm_queues config)\<rparr> ra (length rs) t1 = Some (map Inr rs, t')"
    "flowing ser par rser rpar config t' (batch_pipe [] [] [] [])" using Cons.IH by blast
  then have "receive_values (ProtoJson_decode rpar) (im_receive id) \<lparr>addr_name = queue_results (qrm_queues config)\<rparr> ra
      (length (r # rs)) t = Some (map Inr (r # rs), t')"
    by (simp only: length_Cons receive_values.simps t1(1) option.case prod.case option.map list.map)
  with t'(2) show ?case by blast
qed simp

lemma flowing_empty:
  assumes "flowing ser par rser rpar config t (batch_pipe [] [] [] [])"
  shows "im_queue t (stage_queue config g) = []" "im_queue t (queue_results (qrm_queues config)) = []"
proof -
  have "ap_at (batch_pipe [] [] [] []) g = []" by (cases g) simp_all
  moreover have "holds (ProtoJson_encode ser) im_queue t (stage_queue config g) (ap_at (batch_pipe [] [] [] []) g)"
    "holds (ProtoJson_encode rser) im_queue t (queue_results (qrm_queues config)) []"
    using assms unfolding flowing_def pipe_at_def batch_pipe_simps by blast+
  ultimately show "im_queue t (stage_queue config g) = []" "im_queue t (queue_results (qrm_queues config)) = []"
    by (simp_all add: holds_def)
qed

lemma flowing_initial:
  assumes "wire_sound ser par" and "wire_sound rser rpar" and "queues_distinct config" and "queues_named config"
  shows "flowing ser par rser rpar config createTransport_InMemory (batch_pipe [] [] [] [])"
  using assms idle_initial
  by (auto simp: flowing_def pipe_at_def holds_def idle_def batch_pipe_def split: stage.splits)

text \<open>What is required of a task of a batch and of its translation.\<close>

definition task_works ::
  "(QuantumTask \<Rightarrow> string option) \<Rightarrow> (QuantumResult \<Rightarrow> string option) \<Rightarrow> ('m, 'sc) mlir \<Rightarrow> (string \<Rightarrow> 'm) \<Rightarrow>
   ('d, 'j, 'sq) qdmi \<Rightarrow> 32 word \<Rightarrow> (string \<Rightarrow> int32 \<Rightarrow> string list \<times> uint64 list) \<Rightarrow> qrm_Config \<Rightarrow> QuantumTask \<Rightarrow> bool" where
  "task_works ser rser mlir m qdmi beyond hist config x \<longleftrightarrow>
     qt_result_destination x = queue_results (qrm_queues config) \<and> compiler_works mlir m x \<and>
     device_runs qdmi beyond hist (compiled mlir m x) \<and>
     ser x \<noteq> None \<and> ser (compiled mlir m x) \<noteq> None \<and> rser (result_of mlir m hist x) \<noteq> None"

lemma scheduler_main_drains:
  assumes "config = qrm_loadConfig build env argv" and "flowing ser par rser rpar config t (batch_pipe ts [] [] [])"
    and "list_all (\<lambda>x. ser x \<noteq> None) ts"
  shows "\<exists>p. scheduler_main (length ts) ndebug build env argv (\<lambda>_. None) (fresh_store c) (\<lambda>_. t)
      (im_json_receive par id) (im_json_send ser) = Some (Returns p) \<and>
    flowing ser par rser rpar config (qp_world p) (batch_pipe [] ts [] [])"
proof -
  obtain q where q: "qp_world q = t"
    "scheduler_main (length ts) ndebug build env argv (\<lambda>_. None) (fresh_store c) (\<lambda>_. t)
      (im_json_receive par id) (im_json_send ser) = poll_loop (length ts) (\<lambda>p. map_option Returns
      (scheduler_round (im_json_receive par id) (im_json_send ser) config p)) q"
    unfolding assms(1) using scheduler_main_fresh [where connect = "\<lambda>_. t"] by blast
  with assms(2,3) scheduler_drains [of ser par rser rpar config q ts] show ?thesis by auto
qed

lemma compiler_main_drains:
  assumes "config = qrm_loadConfig build env argv" and "flowing ser par rser rpar config t (batch_pipe [] ts [] [])"
    and "list_all (\<lambda>x. compiler_works mlir m x \<and> ser (compiled mlir m x) \<noteq> None) ts"
  shows "\<exists>p. compiler_main (length ts) ndebug build env argv (\<lambda>_. None) (fresh_store c) (\<lambda>_. (t, sc)) mlir snd
      (\<lambda>sc w. (fst w, sc)) (with_lib_receive (im_json_receive par id)) (with_lib_send (im_json_send ser)) =
      Some (Returns p) \<and>
    flowing ser par rser rpar config (fst (qp_world p)) (batch_pipe [] [] (map (compiled mlir m) ts) [])"
proof -
  obtain q where q: "qp_world q = (t, sc)"
    "compiler_main (length ts) ndebug build env argv (\<lambda>_. None) (fresh_store c) (\<lambda>_. (t, sc)) mlir snd
      (\<lambda>sc w. (fst w, sc)) (with_lib_receive (im_json_receive par id)) (with_lib_send (im_json_send ser)) =
      poll_loop (length ts) (compiler_round mlir snd (\<lambda>sc w. (fst w, sc))
        (with_lib_receive (im_json_receive par id)) (with_lib_send (im_json_send ser)) config) q"
    unfolding assms(1) using compiler_main_fresh [where connect = "\<lambda>_. (t, sc)"] by blast
  with assms(2,3) compiler_drains [of ser par rser rpar config q ts mlir m] show ?thesis by auto
qed

lemma submitter_main_drains:
  assumes "config = qrm_loadConfig build env argv" and "flowing ser par rser rpar config t (batch_pipe [] [] ts [])"
    and "list_all (\<lambda>x. device_runs qdmi beyond hist x \<and> rser (hist_result hist x) \<noteq> None) ts"
  shows "\<exists>p. submitter_main (length ts) ndebug build env argv (\<lambda>_. None) (fresh_store c) (\<lambda>_. (t, sq)) qdmi
      beyond snd (\<lambda>sq w. (fst w, sq)) (with_lib_receive (im_json_receive par id)) (with_lib_send (im_json_send rser)) =
      Some (Returns p) \<and>
    flowing ser par rser rpar config (fst (qp_world p)) (batch_pipe [] [] [] (map (hist_result hist) ts))"
proof -
  obtain q where q: "qp_world q = (t, sq)"
    "submitter_main (length ts) ndebug build env argv (\<lambda>_. None) (fresh_store c) (\<lambda>_. (t, sq)) qdmi
      beyond snd (\<lambda>sq w. (fst w, sq)) (with_lib_receive (im_json_receive par id)) (with_lib_send (im_json_send rser)) =
      poll_loop (length ts) (submitter_round qdmi ndebug beyond snd (\<lambda>sq w. (fst w, sq))
        (with_lib_receive (im_json_receive par id)) (with_lib_send (im_json_send rser)) config) q"
    unfolding assms(1) using submitter_main_fresh [where connect = "\<lambda>_. (t, sq)"] by blast
  with assms(2,3) submitter_drains [of ser par rser rpar config q ts qdmi beyond hist ndebug] show ?thesis by auto
qed

section \<open>One task through the concurrent system\<close>

text \<open>The five steps of a task that meets no failure.\<close>

lemma one_task_run:
  assumes works: "task_works ser rser mlir m qdmi beyond hist config x"
    and sound: "wire_sound ser par" "wire_sound rser rpar"
    and names: "queues_distinct config" "queues_named config"
  shows "\<exists>s. (qrm_step (im_qrm_ops ser par rser rpar) mlir qdmi ndebug beyond config)\<^sup>*\<^sup>*
      (qrm_initial createTransport_InMemory sc sq) s \<and> qs_submitted s = [x] \<and>
    qs_delivered s = [result_of mlir m hist x]"
proof -
  let ?step = "qrm_step (im_qrm_ops ser par rser rpar) mlir qdmi ndebug beyond config"
  let ?s0 = "qrm_initial createTransport_InMemory sc sq"
  let ?x' = "compiled mlir m x" and ?r = "result_of mlir m hist x"
  have x: "qt_result_destination x = queue_results (qrm_queues config)" "compiler_works mlir m x"
    "device_runs qdmi beyond hist ?x'" "ser x \<noteq> None" "ser ?x' \<noteq> None" "rser (hist_result hist ?x') \<noteq> None"
    and r: "?r = hist_result hist ?x'"
    using works by (simp_all add: task_works_def result_of_compiled)
  obtain t1 where t1: "im_json_send ser \<lparr>addr_name = queue_scheduler (qrm_queues config)\<rparr> x default_send_args
      createTransport_InMemory = (success, t1)" "flowing ser par rser rpar config t1 (batch_pipe [x] [] [] [])"
    using flowing_put [OF flowing_initial [OF sound names] x(4,1), of Scheduling] by auto
  define s1 where "s1 = ?s0\<lparr>qs_transport := t1, qs_attempted := [x], qs_submitted := [x]\<rparr>"
  have "?step ?s0 s1"
    using qrm_step.submit [OF x(1), of "im_qrm_ops ser par rser rpar" "?s0" success t1] t1(1)
    by (simp add: im_qrm_ops_def qrm_initial_def s1_def)
  moreover obtain p2 where p2: "scheduler_round (im_json_receive par id) (im_json_send ser) config
      \<lparr>qp_world = t1, qp_log = []\<rparr> = Some p2" "flowing ser par rser rpar config (qp_world p2) (batch_pipe [] [x] [] [])"
    using scheduler_moves [of ser par rser rpar config "\<lparr>qp_world = t1, qp_log = []\<rparr>" "batch_pipe [x] [] [] []"] t1(2) x(4)
    by auto
  define s2 where "s2 = s1\<lparr>qs_transport := qp_world p2, qs_scheduler_log := qp_log p2\<rparr>"
  have "?step s1 s2"
    unfolding s2_def by (rule qrm_step.schedule) (simp add: im_qrm_ops_def s1_def qrm_initial_def p2(1) [simplified])
  moreover obtain p3 where p3: "compiler_round mlir snd (\<lambda>sc w. (fst w, sc)) (with_lib_receive (im_json_receive par id))
      (with_lib_send (im_json_send ser)) config \<lparr>qp_world = (qp_world p2, sc), qp_log = []\<rparr> = Some (Returns p3)"
    "flowing ser par rser rpar config (fst (qp_world p3)) (batch_pipe [] [] [?x'] [])"
    using compiler_moves [of ser par rser rpar config "\<lparr>qp_world = (qp_world p2, sc), qp_log = []\<rparr>"
      "batch_pipe [] [x] [] []" x "[]" mlir m] p2(2) x(2,5) by auto
  define s3 where "s3 = s2\<lparr>qs_transport := fst (qp_world p3), qs_mlir := snd (qp_world p3), qs_compiler_log := qp_log p3\<rparr>"
  have "?step s2 s3"
    unfolding s3_def by (rule qrm_step.compile)
      (simp_all add: compiler_at_def im_qrm_ops_def s2_def s1_def qrm_initial_def p3(1) [simplified])
  moreover obtain p4 where p4: "submitter_round qdmi ndebug beyond snd (\<lambda>sq w. (fst w, sq))
      (with_lib_receive (im_json_receive par id)) (with_lib_send (im_json_send rser)) config
      \<lparr>qp_world = (fst (qp_world p3), sq), qp_log = []\<rparr> = Some (Returns p4)"
    "flowing ser par rser rpar config (fst (qp_world p4)) (batch_pipe [] [] [] [?r])"
    using submitter_moves [of ser par rser rpar config "\<lparr>qp_world = (fst (qp_world p3), sq), qp_log = []\<rparr>"
      "batch_pipe [] [] [?x'] []" ?x' "[]" qdmi beyond hist ndebug] p3(2) x(3,6) r by auto
  define s4 where "s4 = s3\<lparr>qs_transport := fst (qp_world p4), qs_qdmi := snd (qp_world p4), qs_submitter_log := qp_log p4\<rparr>"
  have "?step s3 s4"
    unfolding s4_def by (rule qrm_step.run_task)
      (simp_all add: submitter_at_def im_qrm_ops_def s3_def s2_def s1_def qrm_initial_def p4(1) [simplified])
  moreover obtain t5 where t5: "im_json_receive rpar id \<lparr>addr_name = queue_results (qrm_queues config)\<rparr> poll_args
      (fst (qp_world p4)) = Some (Inr ?r, t5)"
    using front_received [of "fst (qp_world p4)" "queue_results (qrm_queues config)" rser ?r "[]" rpar id poll_args] p4(2)
    by (auto simp: flowing_def queues_named_def pipe_at_def)
  define s5 where "s5 = s4\<lparr>qs_transport := t5, qs_delivered := [?r]\<rparr>"
  have "?step s4 s5"
    using qrm_step.deliver_result [of "im_qrm_ops ser par rser rpar" config poll_args s4 "Inr ?r" t5] t5
    by (simp add: im_qrm_ops_def s5_def s4_def s3_def s2_def s1_def qrm_initial_def)
  ultimately have "?step\<^sup>*\<^sup>* ?s0 s5" by (meson converse_rtranclp_into_rtranclp rtranclp.rtrancl_refl)
  then show ?thesis
    by (intro exI [of _ s5]) (simp add: s5_def s4_def s3_def s2_def s1_def)
qed

text \<open>Two tasks and tables that serialize them, for evaluation.\<close>

definition demo_config :: qrm_Config where
  "demo_config = qrm_loadConfig \<lparr>build_log_dir = ''log'', build_benchmark_dir = ''bench''\<rparr> (\<lambda>_. None) []"

definition demo_task :: "int32 \<Rightarrow> QuantumTask" where
  "demo_task i = QuantumTask_default\<lparr>qt_task_id := i, qt_circuit_files := [''bell''],
     qt_result_destination := ''test.results.queue''\<rparr>"

definition demo_hist :: "string \<Rightarrow> int32 \<Rightarrow> string list \<times> uint64 list" where
  "demo_hist c n = ([''00'', ''11''], [3, 5])"

definition demo_tasks :: "(string \<times> QuantumTask) list" where
  "demo_tasks = [(''a'', demo_task 1), (''b'', demo_task 2),
     (''c'', compiled echo_mlir id (demo_task 1)), (''d'', compiled echo_mlir id (demo_task 2))]"

definition demo_results :: "(string \<times> QuantumResult) list" where
  "demo_results = [(''e'', result_of echo_mlir id demo_hist (demo_task 1)),
     (''f'', result_of echo_mlir id demo_hist (demo_task 2))]"

lemma demo_queues: "queues_distinct demo_config" "queues_named demo_config"
  "queue_results (qrm_queues demo_config) = ''test.results.queue''"
  by (simp_all add: queues_distinct_def queues_named_def demo_config_def qrm_loadConfig_def qrm_getEnvOr_def Let_def)

lemma demo_sound: "wire_sound (table_ser demo_tasks) (map_of demo_tasks)"
  "wire_sound (table_ser demo_results) (map_of demo_results)"
  by (rule table_sound, simp add: demo_tasks_def demo_results_def)+

lemma demo_task_works:
  assumes "i \<in> {1, 2}"
  shows "task_works (table_ser demo_tasks) (table_ser demo_results) echo_mlir id demo_qdmi 0 demo_hist
    demo_config (demo_task i)"
proof -
  have "demo_task i \<in> snd ` set demo_tasks" "compiled echo_mlir id (demo_task i) \<in> snd ` set demo_tasks"
    "result_of echo_mlir id demo_hist (demo_task i) \<in> snd ` set demo_results"
    using assms by (auto simp: demo_tasks_def demo_results_def)
  then have "table_ser demo_tasks (demo_task i) \<noteq> None"
    "table_ser demo_tasks (compiled echo_mlir id (demo_task i)) \<noteq> None"
    "table_ser demo_results (result_of echo_mlir id demo_hist (demo_task i)) \<noteq> None"
    by (simp_all only: table_known not_False_eq_True)
  moreover have "compiler_works echo_mlir id (demo_task i)"
    by (simp add: compiler_works_def echo_mlir_def demo_task_def)
  moreover have "device_runs demo_qdmi 0 demo_hist (compiled echo_mlir id (demo_task i))"
    by (simp add: device_runs_def demo_hist_def demo_works) (simp add: compiled_def demo_task_def)
  ultimately show ?thesis by (simp add: task_works_def demo_queues(3)) (simp add: demo_task_def)
qed

section \<open>Properties\<close>

text \<open>
  Over the in-memory transport, the concurrent workflow implements a pipeline that loses nothing but the task a stage
  drops. The programs of the workflow use RabbitMQ, with which the pipeline is a lossy one: theory \<open>Qrm_Rabbit\<close>.
\<close>

theorem workflow_implements_pipeline:
  assumes "(qrm_step (im_qrm_ops ser par rser rpar) mlir qdmi ndebug beyond config)\<^sup>*\<^sup>*
      (qrm_initial createTransport_InMemory sc sq) s"
    and "wire_sound ser par" and "wire_sound rser rpar" and "queues_distinct config"
  shows "\<exists>a. (ap_step False)\<^sup>*\<^sup>* apipe_empty a \<and>
    pipe_rel False (ProtoJson_encode ser) (ProtoJson_encode rser) im_queue config s a"
  using workflow.run_simulates [OF assms(1) workflow_initial [OF assms(2-4)]] by (auto simp: workflow_rel_def)

lemma demo_run:
  "\<exists>s. (qrm_step (im_qrm_ops (table_ser demo_tasks) (map_of demo_tasks) (table_ser demo_results) (map_of demo_results))
      echo_mlir demo_qdmi False 0 demo_config)\<^sup>*\<^sup>* (qrm_initial createTransport_InMemory () []) s \<and>
    qs_submitted s = [demo_task 1] \<and> qs_delivered s = [result_of echo_mlir id demo_hist (demo_task 1)]"
  by (rule one_task_run [OF demo_task_works demo_sound demo_queues(1,2)]) simp

theorem workflow_implements_pipeline_witness:
  "\<exists>a. (ap_step False)\<^sup>*\<^sup>* apipe_empty a \<and> ap_submitted a = [demo_task 1] \<and>
     ap_delivered a = [result_of echo_mlir id demo_hist (demo_task 1)]"
proof -
  obtain s where s: "(qrm_step (im_qrm_ops (table_ser demo_tasks) (map_of demo_tasks) (table_ser demo_results)
      (map_of demo_results)) echo_mlir demo_qdmi False 0 demo_config)\<^sup>*\<^sup>* (qrm_initial createTransport_InMemory () []) s"
    "qs_submitted s = [demo_task 1]" "qs_delivered s = [result_of echo_mlir id demo_hist (demo_task 1)]"
    using demo_run by blast
  from workflow_implements_pipeline [OF s(1) demo_sound demo_queues(1)] s(2,3) show ?thesis
    by (auto simp: pipe_rel_def)
qed

text \<open>
  C4: results come back in the order of submission and at most once. In every reachable state of the
  concurrent workflow over the in-memory transport (for RabbitMQ see the theory \<open>Qrm_Rabbit\<close>), the task
  ids of the results delivered, then of the results waiting, then of the tasks in the submitter's, the compiler's and the scheduler's queue form a subsequence of the ids
  submitted.
\<close>

theorem workflow_keeps_order:
  assumes "(qrm_step (im_qrm_ops ser par rser rpar) mlir qdmi ndebug beyond config)\<^sup>*\<^sup>*
      (qrm_initial createTransport_InMemory sc sq) s"
    and "wire_sound ser par" and "wire_sound rser rpar" and "queues_distinct config"
  shows "\<exists>rs ts3 ts2 ts1.
    holds (ProtoJson_encode rser) im_queue (qs_transport s) (queue_results (qrm_queues config)) rs \<and>
    holds (ProtoJson_encode ser) im_queue (qs_transport s) (queue_submitter (qrm_queues config)) ts3 \<and>
    holds (ProtoJson_encode ser) im_queue (qs_transport s) (queue_compiler (qrm_queues config)) ts2 \<and>
    holds (ProtoJson_encode ser) im_queue (qs_transport s) (queue_scheduler (qrm_queues config)) ts1 \<and>
    subseq (map qr_task_id (qs_delivered s @ rs) @ map qt_task_id (ts3 @ ts2 @ ts1))
      (map qt_task_id (qs_submitted s))"
proof -
  obtain a where "workflow_rel ser par rser rpar config s a" "ap_ordered a"
    using workflow.transfer_invariant [where P = ap_ordered, OF _ assms(1) workflow_initial [OF assms(2-4)]]
      ap_step_ordered ap_ordered_empty by blast
  then show ?thesis using pipe_rel_ordered [where lossy = False and config = config and s = s] by (auto simp: workflow_rel_def)
qed

theorem workflow_keeps_order_witness:
  "\<exists>s. (qrm_step (im_qrm_ops (table_ser demo_tasks) (map_of demo_tasks) (table_ser demo_results) (map_of demo_results))
      echo_mlir demo_qdmi False 0 demo_config)\<^sup>*\<^sup>* (qrm_initial createTransport_InMemory () []) s \<and>
    qs_delivered s \<noteq> [] \<and> subseq (map qr_task_id (qs_delivered s)) [1]"
proof -
  obtain s where s: "(qrm_step (im_qrm_ops (table_ser demo_tasks) (map_of demo_tasks) (table_ser demo_results)
      (map_of demo_results)) echo_mlir demo_qdmi False 0 demo_config)\<^sup>*\<^sup>* (qrm_initial createTransport_InMemory () []) s"
    "qs_submitted s = [demo_task 1]" "qs_delivered s = [result_of echo_mlir id demo_hist (demo_task 1)]"
    using demo_run by blast
  obtain rs where "subseq (map qr_task_id (qs_delivered s) @ rs) (map qt_task_id (qs_submitted s))"
    using workflow_keeps_order [OF s(1) demo_sound demo_queues(1)] by auto
  then have "subseq (map qr_task_id (qs_delivered s)) (map qt_task_id (qs_submitted s))"
    by (rule subseq_order.trans [rotated]) (simp add: subseq_rev_drop_many)
  then have "subseq (map qr_task_id (qs_delivered s)) [1]" by (simp add: s(2) demo_task_def)
  then show ?thesis using s(1,3) by (intro exI [of _ s]) simp
qed

text \<open>
  Over the in-memory transport, with the JSON codec, a whole batch is processed completely and in order: any number
  of tasks is sent to the scheduler; the scheduler, the compiler and the submitter, each a
  fresh process with the same environment, run for that many rounds; then as many receives on the results
  queue return the results of exactly these tasks, in their order, and the four queues are empty. (Over
  RabbitMQ a queue of several tasks would lose all that were sent to the first consumer: theory \<open>Rabbit_Queues\<close>.)
  Required are libraries that work on each task (circuits that parse, QDMI calls that succeed,
  complete histograms), serializable messages, and four different queue names.
\<close>

theorem qrm_batch_end_to_end:
  assumes config: "config = qrm_loadConfig build env argv"
    and works: "list_all (task_works ser rser mlir m qdmi beyond hist config) ts"
    and sound: "wire_sound ser par" "wire_sound rser rpar"
    and names: "queues_distinct config" "queues_named config"
    and t1: "t1 = send_values (ProtoJson_encode ser) im_send \<lparr>addr_name = queue_scheduler (qrm_queues config)\<rparr>
      default_send_args ts createTransport_InMemory"
  shows "\<exists>p2 p3 p4 t5.
    scheduler_main (length ts) ndebug build env argv (\<lambda>_. None) (fresh_store c) (\<lambda>_. t1)
      (im_json_receive par id) (im_json_send ser) = Some (Returns p2) \<and>
    compiler_main (length ts) ndebug build env argv (\<lambda>_. None) (fresh_store c) (\<lambda>_. (qp_world p2, sc)) mlir snd
      (\<lambda>sc w. (fst w, sc)) (with_lib_receive (im_json_receive par id)) (with_lib_send (im_json_send ser)) =
      Some (Returns p3) \<and>
    submitter_main (length ts) ndebug build env argv (\<lambda>_. None) (fresh_store c) (\<lambda>_. (fst (qp_world p3), sq)) qdmi
      beyond snd (\<lambda>sq w. (fst w, sq)) (with_lib_receive (im_json_receive par id)) (with_lib_send (im_json_send rser)) =
      Some (Returns p4) \<and>
    receive_values (ProtoJson_decode rpar) (im_receive id) \<lparr>addr_name = queue_results (qrm_queues config)\<rparr> ra (length ts)
      (fst (qp_world p4)) = Some (map (\<lambda>x. Inr (result_of mlir m hist x)) ts, t5) \<and>
    map (im_queue t5) [queue_scheduler (qrm_queues config), queue_compiler (qrm_queues config),
      queue_submitter (qrm_queues config), queue_results (qrm_queues config)] = [[], [], [], []]"
proof -
  have "flowing ser par rser rpar config t1 (batch_pipe ([] @ ts) [] [] [])" unfolding t1
    by (rule batch_sent [OF flowing_initial [OF sound names]]) (use works in \<open>auto simp: list_all_iff task_works_def\<close>)
  then have f: "flowing ser par rser rpar config t1 (batch_pipe ts [] [] [])" by simp
  have s: "list_all (\<lambda>x. ser x \<noteq> None) ts"
    and c: "list_all (\<lambda>x. compiler_works mlir m x \<and> ser (compiled mlir m x) \<noteq> None) ts"
    and d: "list_all (\<lambda>x. device_runs qdmi beyond hist x \<and> rser (hist_result hist x) \<noteq> None) (map (compiled mlir m) ts)"
    using works by (auto simp: list_all_iff task_works_def result_of_compiled)
  from scheduler_main_drains [OF config f s] obtain p2 where
    p2: "scheduler_main (length ts) ndebug build env argv (\<lambda>_. None) (fresh_store c) (\<lambda>_. t1)
      (im_json_receive par id) (im_json_send ser) = Some (Returns p2)"
    "flowing ser par rser rpar config (qp_world p2) (batch_pipe [] ts [] [])" by blast
  from compiler_main_drains [OF config p2(2) c] obtain p3 where
    p3: "compiler_main (length ts) ndebug build env argv (\<lambda>_. None) (fresh_store c) (\<lambda>_. (qp_world p2, sc)) mlir snd
      (\<lambda>sc w. (fst w, sc)) (with_lib_receive (im_json_receive par id)) (with_lib_send (im_json_send ser)) =
      Some (Returns p3)"
    "flowing ser par rser rpar config (fst (qp_world p3)) (batch_pipe [] [] (map (compiled mlir m) ts) [])" by blast
  from submitter_main_drains [OF config p3(2) d] obtain p4 where
    p4: "submitter_main (length ts) ndebug build env argv (\<lambda>_. None) (fresh_store c) (\<lambda>_. (fst (qp_world p3), sq)) qdmi
      beyond snd (\<lambda>sq w. (fst w, sq)) (with_lib_receive (im_json_receive par id)) (with_lib_send (im_json_send rser)) =
      Some (Returns p4)"
    "flowing ser par rser rpar config (fst (qp_world p4)) (batch_pipe [] [] []
      (map (hist_result hist) (map (compiled mlir m) ts)))" unfolding length_map by blast
  have "map Inr (map (hist_result hist) (map (compiled mlir m) ts)) = map (\<lambda>x. Inr (result_of mlir m hist x)) ts"
    "length (map (hist_result hist) (map (compiled mlir m) ts)) = length ts"
    by (simp_all add: result_of_compiled)
  then obtain t5 where t5: "receive_values (ProtoJson_decode rpar) (im_receive id)
      \<lparr>addr_name = queue_results (qrm_queues config)\<rparr> ra (length ts) (fst (qp_world p4)) =
      Some (map (\<lambda>x. Inr (result_of mlir m hist x)) ts, t5)"
    "flowing ser par rser rpar config t5 (batch_pipe [] [] [] [])"
    using batch_received [OF p4(2), of ra] by metis
  have e: "map (im_queue t5) [queue_scheduler (qrm_queues config), queue_compiler (qrm_queues config),
      queue_submitter (qrm_queues config), queue_results (qrm_queues config)] = [[], [], [], []]"
    using flowing_empty [OF t5(2)] flowing_empty(1) [OF t5(2), of Scheduling] flowing_empty(1) [OF t5(2), of Compiling]
      flowing_empty(1) [OF t5(2), of Submitting] by simp
  show ?thesis
    by (rule exI, rule exI, rule exI, rule exI, intro conjI, rule p2(1), rule p3(1), rule p4(1), rule t5(1), rule e)
qed

theorem qrm_batch_end_to_end_witness:
  "\<exists>t t'. receive_values (ProtoJson_decode (map_of demo_results)) (im_receive id)
     \<lparr>addr_name = ''test.results.queue''\<rparr> default_receive_args 2 t =
     Some ([Inr (result_of echo_mlir id demo_hist (demo_task 1)),
            Inr (result_of echo_mlir id demo_hist (demo_task 2))], t') \<and> im_queue t' ''test.results.queue'' = []"
proof -
  have w: "list_all (task_works (table_ser demo_tasks) (table_ser demo_results) echo_mlir id demo_qdmi 0 demo_hist
      demo_config) [demo_task 1, demo_task 2]"
    using demo_task_works by simp
  show ?thesis
    using qrm_batch_end_to_end [OF demo_config_def w demo_sound demo_queues(1,2) refl, of False demo_config "()" "[]"
      default_receive_args]
    by (auto simp: demo_queues(3) numeral_2_eq_2 simp del: receive_values.simps send_values.simps)
qed

end
