(* ===== verification/Delivery.thy ===== *)
theory Delivery
  imports QOffload_Service Qrm_Batch
begin

text \<open>
  QOffload in front of the QRM workflow, over any means of carrying single messages. The locale
  \<open>carrier_stack\<close> is the contract between the programs and what carries their messages: the operations are those each
  program is given (a program's sends and receives are on a messenger of its own), the laws say that a message
  sent into quiet queues is what the next receive returns. The passage of a task is proved
  from the contract; it is interpreted for the in-memory transport in the theory \<open>Spec2Isabelle\<close>, and for RabbitMQ in the
  theory \<open>Full_Rabbit\<close>.
\<close>

section \<open>The contract\<close>

record 't stack_ops = "'t qrm_ops" +
  so_request :: "(QuantumTask, 't) snd_op"
  so_task_receive :: "(QuantumTask, 't) recv"
  so_task_send :: "(QuantumTask, 't) snd_op"
  so_result_receive :: "(QuantumResult, 't) recv"
  so_result_send :: "(QuantumResult, 't) snd_op"
  so_answer :: "(QuantumResult, 't) recv"

text \<open>
  A receive waits if its timeout is not negative. A receiver is brought a value from a queue if
  every such receive returns it, and the queues are quiet then; a sender and a receiver carry
  a value if sending it into quiet queues brings it to the receiver.
\<close>

definition waits :: "ReceiveArgs \<Rightarrow> bool" where
  "waits ra \<longleftrightarrow> (case recv_timeout ra of None \<Rightarrow> True | Some ms \<Rightarrow> 0 \<le> ms)"

definition brings :: "('t \<Rightarrow> bool) \<Rightarrow> ('m, 't) recv \<Rightarrow> string \<Rightarrow> 'm \<Rightarrow> 't \<Rightarrow> bool" where
  "brings quiet receive n v t \<longleftrightarrow>
     (\<forall>ra. waits ra \<longrightarrow> (\<exists>t'. receive \<lparr>addr_name = n\<rparr> ra t = Some (Inr v, t') \<and> quiet t'))"

definition carries :: "('t \<Rightarrow> bool) \<Rightarrow> ('m, 't) snd_op \<Rightarrow> ('m, 't) recv \<Rightarrow> 'm \<Rightarrow> bool" where
  "carries quiet send receive v \<longleftrightarrow> (\<forall>n t. n \<noteq> [] \<longrightarrow> quiet t \<longrightarrow>
     (\<exists>t'. send \<lparr>addr_name = n\<rparr> v default_send_args t = (success, t') \<and> brings quiet receive n v t'))"

lemma waits_args [simp]: "waits worker_args" "waits poll_args" "waits \<lparr>recv_timeout = Some 60000, ack_mode = m\<rparr>"
  by (simp_all add: waits_def worker_args_def poll_args_def)

lemma brought:
  assumes "brings quiet receive n v t" and "waits ra"
  obtains t' where "receive \<lparr>addr_name = n\<rparr> ra t = Some (Inr v, t')" and "quiet t'"
  using assms unfolding brings_def by blast

lemma carried:
  assumes "carries quiet send receive v" and "n \<noteq> []" and "quiet t"
  obtains t' where "send \<lparr>addr_name = n\<rparr> v default_send_args t = (success, t')" and "brings quiet receive n v t'"
  using assms unfolding carries_def by blast

section \<open>The workflow by itself\<close>

text \<open>
  One turn of the workflow: a client submits a task, the scheduler, the compiler and the submitter have a round
  each, and the client receives the result. Transports, libraries and logs live on from turn to
  turn. \<open>None\<close>: a send fails, a call does not return, a program ends, or no result arrives.
\<close>

definition workflow_turn ::
  "'t qrm_ops \<Rightarrow> ('m, 'sc) mlir \<Rightarrow> ('d, 'j, 'sq) qdmi \<Rightarrow> bool \<Rightarrow> 32 word \<Rightarrow> qrm_Config \<Rightarrow> QuantumTask \<Rightarrow>
   ('t, 'sc, 'sq) qrm_state \<Rightarrow> (QuantumResult \<times> ('t, 'sc, 'sq) qrm_state) option" where
  "workflow_turn ops mlir qdmi ndebug beyond config task s =
     (let (st, t) = po_submit ops \<lparr>addr_name = queue_scheduler (qrm_queues config)\<rparr> task default_send_args (qs_transport s);
          s1 = s\<lparr>qs_transport := t, qs_attempted := qs_attempted s @ [task],
            qs_submitted := qs_submitted s @ (if ok st then [task] else [])\<rparr>
      in if \<not> ok st then None else
      case scheduler_round (po_scheduler_receive ops) (po_scheduler_send ops) config
          \<lparr>qp_world = qs_transport s1, qp_log = qs_scheduler_log s1\<rparr> of
        None \<Rightarrow> None
      | Some p \<Rightarrow> (let s2 = s1\<lparr>qs_transport := qp_world p, qs_scheduler_log := qp_log p\<rparr> in
      case compiler_at ops mlir config s2 of
        Some (Returns p) \<Rightarrow> (let s3 = s2\<lparr>qs_transport := fst (qp_world p), qs_mlir := snd (qp_world p),
          qs_compiler_log := qp_log p\<rparr> in
      case submitter_at ops qdmi ndebug beyond config s3 of
        Some (Returns p) \<Rightarrow> (let s4 = s3\<lparr>qs_transport := fst (qp_world p), qs_qdmi := snd (qp_world p),
          qs_submitter_log := qp_log p\<rparr> in
      case po_fetch ops \<lparr>addr_name = queue_results (qrm_queues config)\<rparr> poll_args (qs_transport s4) of
        Some (Inr r, t) \<Rightarrow> Some (r, s4\<lparr>qs_transport := t, qs_delivered := qs_delivered s4 @ [r]\<rparr>)
      | _ \<Rightarrow> None) | _ \<Rightarrow> None) | _ \<Rightarrow> None))"

text \<open>A turn for each task of a list, and the results received.\<close>

fun workflow_serves ::
  "'t qrm_ops \<Rightarrow> ('m, 'sc) mlir \<Rightarrow> ('d, 'j, 'sq) qdmi \<Rightarrow> bool \<Rightarrow> 32 word \<Rightarrow> qrm_Config \<Rightarrow> QuantumTask list \<Rightarrow>
   ('t, 'sc, 'sq) qrm_state \<Rightarrow> (QuantumResult list \<times> ('t, 'sc, 'sq) qrm_state) option" where
  "workflow_serves ops mlir qdmi ndebug beyond config [] s = Some ([], s)"
| "workflow_serves ops mlir qdmi ndebug beyond config (task # tasks) s =
     (case workflow_turn ops mlir qdmi ndebug beyond config task s of
        None \<Rightarrow> None
      | Some (r, s1) \<Rightarrow> map_option (\<lambda>(rs, s2). (r # rs, s2)) (workflow_serves ops mlir qdmi ndebug beyond config tasks s1))"

text \<open>A turn is a run of the concurrent workflow of the theory \<open>Qrm_Pipeline\<close>, of five steps.\<close>

lemma turn_is_run:
  assumes turn: "workflow_turn ops mlir qdmi ndebug beyond config x s = Some (r, s')"
    and dest: "qt_result_destination x = queue_results (qrm_queues config)"
    and up: "qs_compiler_up s" "qs_submitter_up s"
  shows "(qrm_step ops mlir qdmi ndebug beyond config)\<^sup>*\<^sup>* s s' \<and> qs_compiler_up s' \<and> qs_submitter_up s' \<and>
    qs_submitted s' = qs_submitted s @ [x] \<and> qs_delivered s' = qs_delivered s @ [r]"
proof -
  let ?step = "qrm_step ops mlir qdmi ndebug beyond config"
  obtain st t1 where 1: "po_submit ops \<lparr>addr_name = queue_scheduler (qrm_queues config)\<rparr> x default_send_args
      (qs_transport s) = (st, t1)" by fastforce
  define s1 where "s1 = s\<lparr>qs_transport := t1, qs_attempted := qs_attempted s @ [x],
    qs_submitted := qs_submitted s @ (if ok st then [x] else [])\<rparr>"
  note turn = turn [unfolded workflow_turn_def 1 Let_def prod.case, folded s1_def]
  from turn obtain p2 where 2: "ok st" "scheduler_round (po_scheduler_receive ops) (po_scheduler_send ops) config
      \<lparr>qp_world = qs_transport s1, qp_log = qs_scheduler_log s1\<rparr> = Some p2" by (auto split: if_splits option.splits)
  define s2 where "s2 = s1\<lparr>qs_transport := qp_world p2, qs_scheduler_log := qp_log p2\<rparr>"
  note turn = turn [unfolded 2(2) option.case if_not_P [OF iffD2 [OF not_not 2(1)]], folded s2_def]
  from turn obtain p3 where 3: "compiler_at ops mlir config s2 = Some (Returns p3)"
    by (auto split: option.splits outcome.splits)
  define s3 where "s3 = s2\<lparr>qs_transport := fst (qp_world p3), qs_mlir := snd (qp_world p3), qs_compiler_log := qp_log p3\<rparr>"
  note turn = turn [unfolded 3 option.case outcome.case, folded s3_def]
  from turn obtain p4 where 4: "submitter_at ops qdmi ndebug beyond config s3 = Some (Returns p4)"
    by (auto split: option.splits outcome.splits)
  define s4 where "s4 = s3\<lparr>qs_transport := fst (qp_world p4), qs_qdmi := snd (qp_world p4), qs_submitter_log := qp_log p4\<rparr>"
  note turn = turn [unfolded 4 option.case outcome.case, folded s4_def]
  from turn obtain t5 where 5: "po_fetch ops \<lparr>addr_name = queue_results (qrm_queues config)\<rparr> poll_args (qs_transport s4) =
      Some (Inr r, t5)" "s' = s4\<lparr>qs_transport := t5, qs_delivered := qs_delivered s4 @ [r]\<rparr>"
    by (auto split: option.splits sum.splits)
  have up': "qs_compiler_up s2" "qs_submitter_up s3" using up by (simp_all add: s3_def s2_def s1_def)
  have "?step s s1" unfolding s1_def by (rule qrm_step.submit [OF dest 1])
  moreover have "?step s1 s2" unfolding s2_def by (rule qrm_step.schedule [OF 2(2)])
  moreover have "?step s2 s3" unfolding s3_def by (rule qrm_step.compile [OF up'(1) 3])
  moreover have "?step s3 s4" unfolding s4_def by (rule qrm_step.run_task [OF up'(2) 4])
  moreover have "?step s4 s'" using qrm_step.deliver_result [OF 5(1), of mlir qdmi ndebug beyond] by (simp add: 5(2))
  ultimately have "?step\<^sup>*\<^sup>* s s'" by (meson converse_rtranclp_into_rtranclp rtranclp.rtrancl_refl)
  then show ?thesis using up 2(1) by (simp add: 5(2) s4_def s3_def s2_def s1_def)
qed

lemma service_is_run:
  assumes "workflow_serves ops mlir qdmi ndebug beyond config xs s = Some (rs, s')"
    and "list_all (\<lambda>x. qt_result_destination x = queue_results (qrm_queues config)) xs"
    and "qs_compiler_up s" and "qs_submitter_up s"
  shows "(qrm_step ops mlir qdmi ndebug beyond config)\<^sup>*\<^sup>* s s' \<and> qs_submitted s' = qs_submitted s @ xs \<and>
    qs_delivered s' = qs_delivered s @ rs"
  using assms
proof (induction xs arbitrary: s rs)
  case (Cons x xs)
  from Cons.prems(1) obtain r s1 rs1 where
    1: "workflow_turn ops mlir qdmi ndebug beyond config x s = Some (r, s1)"
      "workflow_serves ops mlir qdmi ndebug beyond config xs s1 = Some (rs1, s')" "rs = r # rs1"
    by (auto split: option.splits)
  from turn_is_run [OF 1(1)] Cons.prems have
    2: "(qrm_step ops mlir qdmi ndebug beyond config)\<^sup>*\<^sup>* s s1" "qs_compiler_up s1" "qs_submitter_up s1"
      "qs_submitted s1 = qs_submitted s @ [x]" "qs_delivered s1 = qs_delivered s @ [r]" by auto
  from Cons.IH [OF 1(2) _ 2(2,3)] Cons.prems(2) 2 1(3) show ?case by (auto intro: rtranclp_trans)
qed auto

locale carrier_workflow =
  fixes quiet :: "'t \<Rightarrow> bool" and ops :: "('t, 'z) qrm_ops_scheme"
    and good_task :: "QuantumTask \<Rightarrow> bool" and good_result :: "QuantumResult \<Rightarrow> bool"
  assumes submits: "good_task v \<Longrightarrow> carries quiet (po_submit ops) (po_scheduler_receive ops) v"
    and schedules: "good_task v \<Longrightarrow> carries quiet (po_scheduler_send ops) (po_compiler_receive ops) v"
    and compiles: "good_task v \<Longrightarrow> carries quiet (po_compiler_send ops) (po_submitter_receive ops) v"
    and fetches: "good_result r \<Longrightarrow> carries quiet (po_submitter_send ops) (po_fetch ops) r"
begin

text \<open>One round of each program.\<close>

lemma scheduler_passes:
  assumes "brings quiet (po_scheduler_receive ops) (queue_scheduler (qrm_queues config)) task w"
    and "good_task task" and "queue_compiler (qrm_queues config) \<noteq> []"
  shows "\<exists>p'. scheduler_round (po_scheduler_receive ops) (po_scheduler_send ops) config \<lparr>qp_world = w, qp_log = lg\<rparr> =
      Some p' \<and> brings quiet (po_compiler_receive ops) (queue_compiler (qrm_queues config)) task (qp_world p')"
proof -
  let ?p = "\<lparr>qp_world = w, qp_log = lg\<rparr>"
  obtain w1 where w1: "po_scheduler_receive ops \<lparr>addr_name = queue_scheduler (qrm_queues config)\<rparr> poll_args
      (qp_world ?p) = Some (Inr task, w1)" "quiet w1" using brought [OF assms(1) waits_args(2)] by auto
  obtain w2 where w2: "po_scheduler_send ops \<lparr>addr_name = queue_compiler (qrm_queues config)\<rparr> task default_send_args
      w1 = (success, w2)" "brings quiet (po_compiler_receive ops) (queue_compiler (qrm_queues config)) task w2"
    by (rule carried [OF schedules [OF assms(2)] assms(3) w1(2)])
  from scheduler_round_forwards [where receive = "po_scheduler_receive ops" and
    send = "po_scheduler_send ops", OF w1(1) w2(1)] w2(2)
  show ?thesis by blast
qed

lemma compiler_passes:
  assumes "brings quiet (po_compiler_receive ops) (queue_compiler (qrm_queues config)) task w"
    and "applyOptimizationPasses mlir task sc = (Returns task', es, sc')"
    and "good_task task'" and "queue_submitter (qrm_queues config) \<noteq> []"
  shows "\<exists>p'. compiler_round mlir (\<lambda>_. sc) (\<lambda>_ w. w) (po_compiler_receive ops) (po_compiler_send ops) config
      \<lparr>qp_world = w, qp_log = lg\<rparr> = Some (Returns p') \<and>
    brings quiet (po_submitter_receive ops) (queue_submitter (qrm_queues config)) task' (qp_world p')"
proof -
  let ?p = "\<lparr>qp_world = w, qp_log = lg\<rparr>"
  obtain w1 where w1: "po_compiler_receive ops \<lparr>addr_name = queue_compiler (qrm_queues config)\<rparr> poll_args
      (qp_world ?p) = Some (Inr task, w1)" "quiet w1" using brought [OF assms(1) waits_args(2)] by auto
  obtain w2 where w2: "po_compiler_send ops \<lparr>addr_name = queue_submitter (qrm_queues config)\<rparr> task' default_send_args
      w1 = (success, w2)" "brings quiet (po_submitter_receive ops) (queue_submitter (qrm_queues config)) task' w2"
    by (rule carried [OF compiles [OF assms(3)] assms(4) w1(2)])
  from compiler_round_forwards [where receive = "po_compiler_receive ops" and get_s = "\<lambda>_. sc" and
    put_s = "\<lambda>_ w. w" and send = "po_compiler_send ops", OF w1(1) assms(2) w2(1)] w2(2) show ?thesis by blast
qed

lemma submitter_passes:
  assumes "brings quiet (po_submitter_receive ops) (queue_submitter (qrm_queues config)) task w"
    and "\<And>lg. \<exists>st. createAndSubmitQDMIJobToQDMIDevice qdmi ndebug beyond task (sq, lg) = (Returns r, st)"
    and "carries quiet (po_submitter_send ops) receive r" and "qt_result_destination task \<noteq> []"
  shows "\<exists>p'. submitter_round qdmi ndebug beyond (\<lambda>_. sq) (\<lambda>_ w. w) (po_submitter_receive ops) (po_submitter_send ops)
      config \<lparr>qp_world = w, qp_log = lg\<rparr> = Some (Returns p') \<and>
    brings quiet receive (qt_result_destination task) r (qp_world p')"
proof -
  let ?p = "\<lparr>qp_world = w, qp_log = lg\<rparr>"
  obtain w1 where w1: "po_submitter_receive ops \<lparr>addr_name = queue_submitter (qrm_queues config)\<rparr> poll_args
      (qp_world ?p) = Some (Inr task, w1)" "quiet w1" using brought [OF assms(1) waits_args(2)] by auto
  obtain w2 where w2: "po_submitter_send ops \<lparr>addr_name = qt_result_destination task\<rparr> r default_send_args w1 =
      (success, w2)" "brings quiet receive (qt_result_destination task) r w2"
    by (rule carried [OF assms(3,4) w1(2)])
  from submitter_round_answers [where receive = "po_submitter_receive ops" and get_s = "\<lambda>_. sq" and
    put_s = "\<lambda>_ w. w" and send = "po_submitter_send ops", OF w1(1) assms(2) w2(1)] w2(2) show ?thesis by blast
qed

text \<open>The same for a program whose world holds the state of its library.\<close>

lemma compiler_passes_lib:
  assumes "brings quiet (po_compiler_receive ops) (queue_compiler (qrm_queues config)) task t"
    and "compiler_works mlir m task" and "good_task (compiled mlir m task)" and "queue_submitter (qrm_queues config) \<noteq> []"
  shows "\<exists>p'. compiler_round mlir snd (\<lambda>sc w. (fst w, sc)) (with_lib_receive (po_compiler_receive ops))
      (with_lib_send (po_compiler_send ops)) config \<lparr>qp_world = (t, sc), qp_log = lg\<rparr> = Some (Returns p') \<and>
    brings quiet (po_submitter_receive ops) (queue_submitter (qrm_queues config)) (compiled mlir m task) (fst (qp_world p'))"
proof -
  let ?p = "\<lparr>qp_world = (t, sc), qp_log = lg\<rparr>"
  obtain t1 where t1: "po_compiler_receive ops \<lparr>addr_name = queue_compiler (qrm_queues config)\<rparr> poll_args t =
      Some (Inr task, t1)" "quiet t1" using brought [OF assms(1) waits_args(2)] by auto
  obtain es sc' where passes: "applyOptimizationPasses mlir task sc = (Returns (compiled mlir m task), es, sc')"
    using passes_result [of mlir task m sc] assms(2) unfolding compiled_def compiler_works_def by blast
  obtain t2 where t2: "po_compiler_send ops \<lparr>addr_name = queue_submitter (qrm_queues config)\<rparr> (compiled mlir m task)
      default_send_args t1 = (success, t2)"
    "brings quiet (po_submitter_receive ops) (queue_submitter (qrm_queues config)) (compiled mlir m task) t2"
    by (rule carried [OF compiles [OF assms(3)] assms(4) t1(2)])
  have "with_lib_receive (po_compiler_receive ops) \<lparr>addr_name = queue_compiler (qrm_queues config)\<rparr> poll_args
      (qp_world ?p) = Some (Inr task, (t1, sc))" using t1(1) by (simp add: with_lib_receive_def)
  moreover have "with_lib_send (po_compiler_send ops) \<lparr>addr_name = queue_submitter (qrm_queues config)\<rparr>
      (compiled mlir m task) default_send_args (fst (t1, sc), sc') = (success, (t2, sc'))"
    using t2(1) by (simp add: with_lib_send_def)
  ultimately have "\<exists>p'. compiler_round mlir snd (\<lambda>sc w. (fst w, sc)) (with_lib_receive (po_compiler_receive ops))
      (with_lib_send (po_compiler_send ops)) config ?p = Some (Returns p') \<and> qp_world p' = (t2, sc')"
    using passes by (intro compiler_round_forwards) auto
  with t2(2) show ?thesis by auto
qed

lemma submitter_passes_lib:
  assumes "brings quiet (po_submitter_receive ops) (queue_submitter (qrm_queues config)) task t"
    and "device_runs qdmi beyond hist task" and "carries quiet (po_submitter_send ops) receive (hist_result hist task)"
    and "qt_result_destination task \<noteq> []"
  shows "\<exists>p'. submitter_round qdmi ndebug beyond snd (\<lambda>sq w. (fst w, sq)) (with_lib_receive (po_submitter_receive ops))
      (with_lib_send (po_submitter_send ops)) config \<lparr>qp_world = (t, sq), qp_log = lg\<rparr> = Some (Returns p') \<and>
    brings quiet receive (qt_result_destination task) (hist_result hist task) (fst (qp_world p'))"
proof -
  let ?p = "\<lparr>qp_world = (t, sq), qp_log = lg\<rparr>" and ?r = "hist_result hist task"
  let ?p1 = "spd_info (''Processing new task with id: '' @ int_text (qt_task_id task)) (spd_info ''Waiting for a new job...'' ?p)"
  obtain t1 where t1: "po_submitter_receive ops \<lparr>addr_name = queue_submitter (qrm_queues config)\<rparr> poll_args t =
      Some (Inr task, t1)" "quiet t1" using brought [OF assms(1) waits_args(2)] by auto
  obtain sq' lg' where job: "createAndSubmitQDMIJobToQDMIDevice qdmi ndebug beyond task (sq, qp_log ?p1) =
      (Returns ?r, sq', lg')" using device_returns [OF assms(2)] by (metis prod.collapse)
  obtain t2 where t2: "po_submitter_send ops \<lparr>addr_name = qt_result_destination task\<rparr> ?r default_send_args t1 = (success, t2)"
    "brings quiet receive (qt_result_destination task) ?r t2"
    by (rule carried [OF assms(3,4) t1(2)])
  have r: "with_lib_receive (po_submitter_receive ops) \<lparr>addr_name = queue_submitter (qrm_queues config)\<rparr> poll_args
      (t, sq) = Some (Inr task, (t1, sq))" using t1(1) by (simp add: with_lib_receive_def)
  have s: "with_lib_send (po_submitter_send ops) \<lparr>addr_name = qt_result_destination task\<rparr> ?r default_send_args (t1, sq') =
      (success, (t2, sq'))" using t2(1) by (simp add: with_lib_send_def)
  have "\<exists>p'. submitter_round qdmi ndebug beyond snd (\<lambda>sq w. (fst w, sq)) (with_lib_receive (po_submitter_receive ops))
      (with_lib_send (po_submitter_send ops)) config ?p = Some (Returns p') \<and> qp_world p' = (t2, sq')"
    using job by (simp add: submitter_round_def Let_def r s spd_info_def)
  with t2(2) show ?thesis by auto
qed

lemma turn_served:
  assumes names: "[] \<notin> {queue_scheduler (qrm_queues config), queue_compiler (qrm_queues config),
        queue_submitter (qrm_queues config), queue_results (qrm_queues config)}"
    and quiet: "quiet (qs_transport s)" and dest: "qt_result_destination x = queue_results (qrm_queues config)"
    and works: "compiler_works mlir m x" "device_runs qdmi beyond hist (compiled mlir m x)"
    and good: "good_task x" "good_task (compiled mlir m x)" "good_result (result_of mlir m hist x)"
  shows "\<exists>s'. workflow_turn (qrm_ops.truncate ops) mlir qdmi ndebug beyond config x s = Some (result_of mlir m hist x, s') \<and>
    quiet (qs_transport s')"
proof -
  let ?q = "qrm_queues config" and ?x' = "compiled mlir m x" and ?r = "result_of mlir m hist x"
  from names have ne: "queue_scheduler ?q \<noteq> []" "queue_compiler ?q \<noteq> []" "queue_submitter ?q \<noteq> []" "queue_results ?q \<noteq> []"
    by auto
  have dest': "qt_result_destination ?x' = queue_results ?q" using dest by (simp add: compiled_def)
  obtain t1 where 1: "po_submit ops \<lparr>addr_name = queue_scheduler ?q\<rparr> x default_send_args (qs_transport s) = (success, t1)"
    "brings quiet (po_scheduler_receive ops) (queue_scheduler ?q) x t1"
    by (rule carried [OF submits [OF good(1)] ne(1) quiet])
  obtain p2 where 2: "scheduler_round (po_scheduler_receive ops) (po_scheduler_send ops) config
      \<lparr>qp_world = t1, qp_log = qs_scheduler_log s\<rparr> = Some p2"
    "brings quiet (po_compiler_receive ops) (queue_compiler ?q) x (qp_world p2)"
    using scheduler_passes [OF 1(2) good(1) ne(2)] by blast
  obtain p3 where 3: "compiler_round mlir snd (\<lambda>sc w. (fst w, sc)) (with_lib_receive (po_compiler_receive ops))
      (with_lib_send (po_compiler_send ops)) config \<lparr>qp_world = (qp_world p2, qs_mlir s), qp_log = qs_compiler_log s\<rparr> =
      Some (Returns p3)"
    "brings quiet (po_submitter_receive ops) (queue_submitter ?q) ?x' (fst (qp_world p3))"
    using compiler_passes_lib [OF 2(2) works(1) good(2) ne(3)] by blast
  have "qt_result_destination ?x' \<noteq> []" using dest' ne(4) by simp
  from submitter_passes_lib [OF 3(2) works(2) fetches [OF good(3) [unfolded result_of_compiled]] this, unfolded dest']
  obtain p4 where 4: "submitter_round qdmi ndebug beyond snd (\<lambda>sq w. (fst w, sq)) (with_lib_receive (po_submitter_receive ops))
      (with_lib_send (po_submitter_send ops)) config \<lparr>qp_world = (fst (qp_world p3), qs_qdmi s), qp_log = qs_submitter_log s\<rparr> =
      Some (Returns p4)"
    "brings quiet (po_fetch ops) (queue_results ?q) ?r (fst (qp_world p4))" unfolding result_of_compiled by blast
  obtain t5 where 5: "po_fetch ops \<lparr>addr_name = queue_results ?q\<rparr> poll_args (fst (qp_world p4)) = Some (Inr ?r, t5)" "quiet t5"
    by (rule brought [OF 4(2) waits_args(2)])
  show ?thesis
    by (simp add: workflow_turn_def compiler_at_def submitter_at_def qrm_ops.truncate_def 1(1) 2(1) 3(1) 4(1) 5)
qed

text \<open>Any number of tasks, one after another.\<close>

lemma tasks_served:
  assumes names: "[] \<notin> {queue_scheduler (qrm_queues config), queue_compiler (qrm_queues config),
        queue_submitter (qrm_queues config), queue_results (qrm_queues config)}"
    and "list_all (\<lambda>x. qt_result_destination x = queue_results (qrm_queues config) \<and> compiler_works mlir m x \<and>
      device_runs qdmi beyond hist (compiled mlir m x) \<and> good_task x \<and> good_task (compiled mlir m x) \<and>
      good_result (result_of mlir m hist x)) xs"
    and "quiet (qs_transport s)"
  shows "\<exists>s'. workflow_serves (qrm_ops.truncate ops) mlir qdmi ndebug beyond config xs s = Some (map (result_of mlir m hist) xs, s') \<and>
    quiet (qs_transport s')"
  using assms(2,3)
proof (induction xs arbitrary: s)
  case (Cons x xs)
  then obtain s1 where s1: "workflow_turn (qrm_ops.truncate ops) mlir qdmi ndebug beyond config x s = Some (result_of mlir m hist x, s1)"
    "quiet (qs_transport s1)"
    using turn_served [OF names, of s x mlir m qdmi beyond hist ndebug] by auto
  with Cons.IH [OF _ s1(2)] Cons.prems(1) show ?case by auto
qed simp

end

section \<open>The workflow behind QOffload\<close>

text \<open>Every message of a stack passes from one of the senders to one of the receivers.\<close>

locale carrier_stack = carrier_workflow quiet ops good_task good_result
  for quiet :: "'t \<Rightarrow> bool" and ops :: "'t stack_ops"
    and good_task :: "QuantumTask \<Rightarrow> bool" and good_result :: "QuantumResult \<Rightarrow> bool" +
  assumes requests: "good_task v \<Longrightarrow> carries quiet (so_request ops) (so_task_receive ops) v"
    and forwards: "good_task v \<Longrightarrow> carries quiet (so_task_send ops) (po_scheduler_receive ops) v"
    and results: "good_result r \<Longrightarrow> carries quiet (po_submitter_send ops) (so_result_receive ops) r"
    and answers: "good_result r \<Longrightarrow> carries quiet (so_result_send ops) (so_answer ops) r"
begin

lemma task_worker_passes:
  assumes "brings quiet (so_task_receive ops) (queue_request (queue_names config)) request (sv_world s)"
    and "forwardDirectTask request (forward_config_of config) (sv_forwarder s) (sv_tasks s) = (fwd, f, tasks)"
    and "carries quiet (so_task_send ops) receive fwd" and "queue_qrm_task (queue_names config) \<noteq> []"
  shows "\<exists>w. task_worker_round (so_task_receive ops) (so_task_send ops) config s =
      Some (s\<lparr>sv_forwarder := f, sv_tasks := tasks, sv_world := w\<rparr>) \<and>
    brings quiet receive (queue_qrm_task (queue_names config)) fwd w"
proof -
  obtain w1 where w1: "so_task_receive ops \<lparr>addr_name = queue_request (queue_names config)\<rparr> worker_args
      (sv_world s) = Some (Inr request, w1)" "quiet w1" by (rule brought [OF assms(1) waits_args(1)])
  obtain w2 where w2: "so_task_send ops \<lparr>addr_name = queue_qrm_task (queue_names config)\<rparr> fwd default_send_args w1 =
      (success, w2)" "brings quiet receive (queue_qrm_task (queue_names config)) fwd w2"
    by (rule carried [OF assms(3,4) w1(2)])
  from task_round_forwards [where receive = "so_task_receive ops" and send_task = "so_task_send ops" and s = s, OF w1(1) assms(2) w2(1)] w2(2)
  show ?thesis by blast
qed

lemma result_worker_passes:
  assumes "brings quiet (so_result_receive ops) (queue_result (queue_names config)) result (sv_world s)"
    and "processResult result (sv_tasks s) =
      (\<lparr>outcome_kind = DirectResult, direct_result = Some r, direct_result_destination = d\<rparr>, tasks)"
    and "good_result r" and "d \<noteq> []"
  shows "\<exists>w. result_worker_round (so_result_receive ops) (so_result_send ops) config s =
      Some (s\<lparr>sv_tasks := tasks, sv_world := w\<rparr>) \<and> brings quiet (so_answer ops) d r w"
proof -
  obtain w1 where w1: "so_result_receive ops \<lparr>addr_name = queue_result (queue_names config)\<rparr> worker_args
      (sv_world s) = Some (Inr result, w1)" "quiet w1" by (rule brought [OF assms(1) waits_args(1)])
  obtain w2 where w2: "so_result_send ops \<lparr>addr_name = d\<rparr> r default_send_args w1 = (success, w2)"
    "brings quiet (so_answer ops) d r w2" by (rule carried [OF answers [OF assms(3)] assms(4) w1(2)])
  from result_round_answers [where receive = "so_result_receive ops" and
    send_result = "so_result_send ops" and s = s, OF w1(1) assms(2) w2(1)] w2(2)
  show ?thesis by blast
qed

section \<open>The passage of a task\<close>

text \<open>The three programs of the workflow, from the scheduler's queue to the receiver of the result.\<close>

lemma workflow_passage:
  assumes names: "[] \<notin> {queue_compiler (qrm_queues config), queue_submitter (qrm_queues config),
        qt_result_destination task}"
    and deliv: "brings quiet (po_scheduler_receive ops) (queue_scheduler (qrm_queues config)) task w"
    and comp: "compiler_works mlir m task" and task': "task' = compiled mlir m task"
    and dev: "device_works qdmi beyond sq (hd (qt_circuit_files task')) (qt_n_shots task) ks cs"
    and r: "r = histogram_result task' (hd (qt_circuit_files task')) ks cs"
    and good: "good_task task" "good_task task'" "carries quiet (po_submitter_send ops) receive r"
  shows "\<exists>p2 p3 p4.
    scheduler_round (po_scheduler_receive ops) (po_scheduler_send ops) config \<lparr>qp_world = w, qp_log = []\<rparr> = Some p2 \<and>
    compiler_round mlir (\<lambda>_. sc) (\<lambda>_ w. w) (po_compiler_receive ops) (po_compiler_send ops) config
      \<lparr>qp_world = qp_world p2, qp_log = []\<rparr> = Some (Returns p3) \<and>
    submitter_round qdmi ndebug beyond (\<lambda>_. sq) (\<lambda>_ w. w) (po_submitter_receive ops) (po_submitter_send ops)
      config \<lparr>qp_world = qp_world p3, qp_log = []\<rparr> = Some (Returns p4) \<and>
    brings quiet receive (qt_result_destination task) r (qp_world p4)"
proof -
  from names have ne: "queue_compiler (qrm_queues config) \<noteq> []" "queue_submitter (qrm_queues config) \<noteq> []"
    "qt_result_destination task' \<noteq> []" by (auto simp: task' compiled_def)
  have t: "qt_result_destination task' = qt_result_destination task" "qt_n_shots task' = qt_n_shots task"
    by (simp_all add: task' compiled_def)
  have c: "qt_circuit_files task' = hd (qt_circuit_files task') # tl (qt_circuit_files task')"
    using comp by (simp add: task' compiled_def compiler_works_def)
  obtain es sc' where passes: "applyOptimizationPasses mlir task sc = (Returns task', es, sc')"
    using passes_result [of mlir task m sc] comp unfolding task' compiled_def compiler_works_def by blast
  have job: "\<exists>st. createAndSubmitQDMIJobToQDMIDevice qdmi ndebug beyond task' (sq, lg) = (Returns r, st)" for lg
    unfolding r
    by (rule job_returns [OF _ c, where job = "fst (finished_job qdmi beyond (hd (qt_circuit_files task'))
          (qt_n_shots task') sq)" and s' = "snd (finished_job qdmi beyond (hd (qt_circuit_files task'))
          (qt_n_shots task') sq)"])
      (use dev in \<open>auto simp: device_works_def t(2) case_prod_beta Let_def\<close>)
  show ?thesis
    using scheduler_passes [OF deliv good(1) ne(1)] compiler_passes [OF _ passes good(2) ne(2)]
      submitter_passes [OF _ job good(3) ne(3)] unfolding t(1) by metis
qed

text \<open>The workflow by itself: the daemon's task, and its result back to the daemon.\<close>

lemma daemon_passage:
  assumes names: "[] \<notin> {queue_scheduler (qrm_queues config), queue_compiler (qrm_queues config),
        queue_submitter (qrm_queues config), queue_results (qrm_queues config)}"
    and quiet: "quiet w0"
    and tasks: "task = daemon_task config" "task' = compiled mlir m task"
      "r = histogram_result task' (hd (qt_circuit_files task')) ks cs"
    and works: "compiler_works mlir m task"
      "device_works qdmi beyond sq (hd (qt_circuit_files task')) 0 ks cs"
    and good: "good_task task" "good_task task'" "good_result r"
  shows "\<exists>w1 p2 p3 p4 p5.
      po_submit ops \<lparr>addr_name = queue_scheduler (qrm_queues config)\<rparr> task default_send_args w0 = (success, w1) \<and>
      scheduler_round (po_scheduler_receive ops) (po_scheduler_send ops) config \<lparr>qp_world = w1, qp_log = []\<rparr> =
        Some p2 \<and>
      compiler_round mlir (\<lambda>_. sc) (\<lambda>_ w. w) (po_compiler_receive ops) (po_compiler_send ops) config
        \<lparr>qp_world = qp_world p2, qp_log = []\<rparr> = Some (Returns p3) \<and>
      submitter_round qdmi ndebug beyond (\<lambda>_. sq) (\<lambda>_ w. w) (po_submitter_receive ops) (po_submitter_send ops)
        config \<lparr>qp_world = qp_world p3, qp_log = []\<rparr> = Some (Returns p4) \<and>
      daemon_main (po_fetch ops) (po_submit ops) (\<lambda>_. qp_world p4) config \<lparr>qp_world = w0, qp_log = []\<rparr> =
        Some (Returns 0, p5) \<and>
      quiet (qp_world p5) \<and>
      (\<exists>earlier. qp_log p5 = earlier @ map (\<lambda>(key, count). (SpdInfo, ''count['' @ key @ ''] : '' @ int_text count))
         (counts (hd (qr_results r))))"
proof -
  let ?q = "qrm_queues config"
  have t: "qt_result_destination task = queue_results ?q" "qt_n_shots task = 0"
    by (simp_all add: tasks(1) daemon_task_def)
  from names have ne: "queue_scheduler ?q \<noteq> []"
    "[] \<notin> {queue_compiler ?q, queue_submitter ?q, qt_result_destination task}" by (auto simp: t)
  obtain w1 where 1: "po_submit ops \<lparr>addr_name = queue_scheduler ?q\<rparr> task default_send_args w0 = (success, w1)"
    "brings quiet (po_scheduler_receive ops) (queue_scheduler ?q) task w1"
    by (rule carried [OF submits [OF good(1)] ne(1) quiet])
  note dev = works(2) [unfolded t(2) [symmetric]]
  obtain p2 p3 p4 where p:
    "scheduler_round (po_scheduler_receive ops) (po_scheduler_send ops) config \<lparr>qp_world = w1, qp_log = []\<rparr> = Some p2"
    "compiler_round mlir (\<lambda>_. sc) (\<lambda>_ w. w) (po_compiler_receive ops) (po_compiler_send ops) config
      \<lparr>qp_world = qp_world p2, qp_log = []\<rparr> = Some (Returns p3)"
    "submitter_round qdmi ndebug beyond (\<lambda>_. sq) (\<lambda>_ w. w) (po_submitter_receive ops) (po_submitter_send ops)
      config \<lparr>qp_world = qp_world p3, qp_log = []\<rparr> = Some (Returns p4)"
    "brings quiet (po_fetch ops) (queue_results ?q) r (qp_world p4)"
    using workflow_passage [OF ne(2) 1(2) works(1) tasks(2) dev tasks(3) good(1,2) fetches [OF good(3)]]
    unfolding t(1) by blast
  obtain w5 where 5: "po_fetch ops \<lparr>addr_name = queue_results ?q\<rparr>
      \<lparr>recv_timeout = Some 60000, ack_mode = AckAuto\<rparr> (qp_world p4) = Some (Inr r, w5)" "quiet w5"
    by (rule brought [OF p(4) waits_args(3)])
  have "qr_results r \<noteq> []" by (simp add: tasks(3) histogram_result_def)
  note reports = daemon_main_reports [of "po_submit ops" config "\<lparr>qp_world = w0, qp_log = []\<rparr>" w1
      "po_fetch ops" "\<lambda>_. qp_world p4" r w5, unfolded qrm_process.simps,
      OF 1(1) [unfolded tasks(1)] 5(1) this]
  then show ?thesis using 1(1) p(1-3) 5(2) by metis
qed

text \<open>The two halves of QOffload's part: from the client to a receiver of its tasks, and back.\<close>

lemma client_to_qrm:
  assumes "good_task request" and "carries quiet (so_task_send ops) receive fwd" and "quiet w0"
    and "queue_request (queue_names config) \<noteq> []" and "queue_qrm_task (queue_names config) \<noteq> []"
    and "forwardDirectTask request (forward_config_of config) (sv_forwarder s) (sv_tasks s) = (fwd, f, tasks)"
  shows "\<exists>w1 s2. so_request ops \<lparr>addr_name = queue_request (queue_names config)\<rparr> request default_send_args w0 =
      (success, w1) \<and>
    task_worker_round (so_task_receive ops) (so_task_send ops) config (s\<lparr>sv_world := w1\<rparr>) = Some s2 \<and>
    brings quiet receive (queue_qrm_task (queue_names config)) fwd (sv_world s2) \<and> sv_log s2 = sv_log s \<and>
    sv_tasks s2 = tasks"
proof -
  obtain w1 where 1: "so_request ops \<lparr>addr_name = queue_request (queue_names config)\<rparr> request
      default_send_args w0 = (success, w1)"
    "brings quiet (so_task_receive ops) (queue_request (queue_names config)) request w1"
    by (rule carried [OF requests [OF assms(1)] assms(4,3)])
  with task_worker_passes [of config request "s\<lparr>sv_world := w1\<rparr>" fwd f tasks receive] assms(2,5,6)
  obtain w where "task_worker_round (so_task_receive ops) (so_task_send ops) config (s\<lparr>sv_world := w1\<rparr>) =
      Some (s\<lparr>sv_world := w1, sv_forwarder := f, sv_tasks := tasks, sv_world := w\<rparr>)"
    "brings quiet receive (queue_qrm_task (queue_names config)) fwd w" by auto
  with 1(1) show ?thesis by auto
qed

lemma qrm_to_client:
  assumes fits: "fits_int32 (fst (nextTaskId f))"
    and fwd: "forwardDirectTask request (forward_config_of config) f tasks0 = (fwd, f', tasks)"
    and id: "qr_task_id result = qt_task_id fwd"
    and r: "r = result\<lparr>qr_task_id := qt_task_id request, qr_destination := qt_result_destination request\<rparr>"
    and deliv: "brings quiet (so_result_receive ops) (queue_result (queue_names config)) result w"
    and tasks: "sv_tasks s = tasks" and good: "good_result r" and name: "qt_result_destination request \<noteq> []"
  shows "\<exists>s5 w6. result_worker_round (so_result_receive ops) (so_result_send ops) config (s\<lparr>sv_world := w\<rparr>) =
      Some s5 \<and>
    so_answer ops \<lparr>addr_name = qt_result_destination request\<rparr> worker_args (sv_world s5) = Some (Inr r, w6) \<and>
    quiet w6 \<and> sv_log s5 = sv_log s"
proof -
  obtain tasks' where "processResult result (sv_tasks (s\<lparr>sv_world := w\<rparr>)) = (\<lparr>outcome_kind = DirectResult,
      direct_result = Some r, direct_result_destination = qt_result_destination request\<rparr>, tasks')"
    using forwarded_result [OF fits fwd id] r tasks by auto
  from result_worker_passes [where s = "s\<lparr>sv_world := w\<rparr>", OF _ this good name] deliv
  obtain w5 where 5: "result_worker_round (so_result_receive ops) (so_result_send ops) config (s\<lparr>sv_world := w\<rparr>) =
      Some (s\<lparr>sv_world := w, sv_tasks := tasks', sv_world := w5\<rparr>)"
    "brings quiet (so_answer ops) (qt_result_destination request) r w5" by auto
  obtain w6 where "so_answer ops \<lparr>addr_name = qt_result_destination request\<rparr> worker_args w5 = Some (Inr r, w6)"
    "quiet w6" by (rule brought [OF 5(2) waits_args(1)])
  with 5(1) show ?thesis by auto
qed

text \<open>The whole of it.\<close>

lemma stack_passage:
  assumes names: "[] \<notin> {queue_request (queue_names qc), queue_qrm_task (queue_names qc),
        queue_result (queue_names qc), qt_result_destination request,
        queue_compiler (qrm_queues rc), queue_submitter (qrm_queues rc)}"
    and wired: "queue_qrm_task (queue_names qc) = queue_scheduler (qrm_queues rc)"
    and quiet: "quiet w0" and fits: "fits_int32 (fst (nextTaskId (sv_forwarder s)))"
    and fwd: "fwd = fst (forwardDirectTask request (forward_config_of qc) (sv_forwarder s) (sv_tasks s))"
      "fwd' = compiled mlir m fwd"
    and works: "compiler_works mlir m fwd"
      "device_works qdmi beyond sq (hd (qt_circuit_files fwd')) (qt_n_shots request) ks cs"
    and r: "r = histogram_result fwd' (hd (qt_circuit_files fwd')) ks cs"
      "r' = r\<lparr>qr_task_id := qt_task_id request, qr_destination := qt_result_destination request\<rparr>"
    and good: "good_task request" "good_task fwd" "good_task fwd'" "good_result r" "good_result r'"
  shows "\<exists>w1 s2 p3 p4 p5 s6 w7.
      so_request ops \<lparr>addr_name = queue_request (queue_names qc)\<rparr> request default_send_args w0 = (success, w1) \<and>
      task_worker_round (so_task_receive ops) (so_task_send ops) qc (s\<lparr>sv_world := w1\<rparr>) = Some s2 \<and>
      scheduler_round (po_scheduler_receive ops) (po_scheduler_send ops) rc \<lparr>qp_world = sv_world s2, qp_log = []\<rparr> =
        Some p3 \<and>
      compiler_round mlir (\<lambda>_. sc) (\<lambda>_ w. w) (po_compiler_receive ops) (po_compiler_send ops) rc
        \<lparr>qp_world = qp_world p3, qp_log = []\<rparr> = Some (Returns p4) \<and>
      submitter_round qdmi ndebug beyond (\<lambda>_. sq) (\<lambda>_ w. w) (po_submitter_receive ops) (po_submitter_send ops) rc
        \<lparr>qp_world = qp_world p4, qp_log = []\<rparr> = Some (Returns p5) \<and>
      result_worker_round (so_result_receive ops) (so_result_send ops) qc (s2\<lparr>sv_world := qp_world p5\<rparr>) = Some s6 \<and>
      so_answer ops \<lparr>addr_name = qt_result_destination request\<rparr> worker_args (sv_world s6) = Some (Inr r', w7) \<and>
      quiet w7 \<and> sv_log s6 = sv_log s \<and> qr_results r' = qr_results r"
proof -
  obtain f tasks where F: "forwardDirectTask request (forward_config_of qc) (sv_forwarder s) (sv_tasks s) =
      (fwd, f, tasks)" using fwd(1) by (metis prod.exhaust_sel)
  have dest: "qt_result_destination fwd = queue_result (queue_names qc)" "qt_n_shots fwd = qt_n_shots request"
    using forwardDirectTask_eqs(2) [OF F] by (simp_all add: forward_config_of_def)
  have id: "qr_task_id r = qt_task_id fwd" by (simp add: r(1) histogram_result_def fwd(2) compiled_def)
  from names dest(1) have ne: "queue_request (queue_names qc) \<noteq> []" "queue_qrm_task (queue_names qc) \<noteq> []"
    "[] \<notin> {queue_compiler (qrm_queues rc), queue_submitter (qrm_queues rc), qt_result_destination fwd}"
    "qt_result_destination request \<noteq> []" by auto
  from client_to_qrm [OF good(1) forwards [OF good(2)] quiet ne(1,2) F] obtain w1 s2 where
    1: "so_request ops \<lparr>addr_name = queue_request (queue_names qc)\<rparr> request default_send_args w0 = (success, w1)"
    "task_worker_round (so_task_receive ops) (so_task_send ops) qc (s\<lparr>sv_world := w1\<rparr>) = Some s2"
    "brings quiet (po_scheduler_receive ops) (queue_qrm_task (queue_names qc)) fwd (sv_world s2)"
    "sv_log s2 = sv_log s" "sv_tasks s2 = tasks" by blast
  note dev = works(2) [unfolded dest(2) [symmetric]]
  obtain p3 p4 p5 where p:
    "scheduler_round (po_scheduler_receive ops) (po_scheduler_send ops) rc \<lparr>qp_world = sv_world s2, qp_log = []\<rparr> = Some p3"
    "compiler_round mlir (\<lambda>_. sc) (\<lambda>_ w. w) (po_compiler_receive ops) (po_compiler_send ops) rc
      \<lparr>qp_world = qp_world p3, qp_log = []\<rparr> = Some (Returns p4)"
    "submitter_round qdmi ndebug beyond (\<lambda>_. sq) (\<lambda>_ w. w) (po_submitter_receive ops) (po_submitter_send ops)
      rc \<lparr>qp_world = qp_world p4, qp_log = []\<rparr> = Some (Returns p5)"
    "brings quiet (so_result_receive ops) (queue_result (queue_names qc)) r (qp_world p5)"
    using workflow_passage [OF ne(3) 1(3) [unfolded wired] works(1) fwd(2) dev r(1) good(2,3) results [OF good(4)]]
    unfolding dest(1) by blast
  have "qr_results r' = qr_results r" by (simp add: r(2))
  with qrm_to_client [OF fits F id r(2) p(4) 1(5) good(5) ne(4)]
  show ?thesis using 1(1,2,4) p(1-3) by metis
qed

end

end
