(* ===== verification/Session.thy ===== *)
theory Session
  imports Delivery Worker_System
begin

text \<open>
  A session of the whole deployment: direct tasks sent one after another through QOffload and the QRM workflow. The
  identifier counter and the task store of QOffload, the transports, the libraries of the compiler and the submitter and all
  logs live on from task to task. The session is a function composed of the programs' rounds; that it gives every
  client its answer is proved from the contract \<open>carrier_stack\<close>.
\<close>

section \<open>One task after another\<close>

text \<open>The state of all programs; what they communicate by is the world of the service.\<close>

record ('t, 'sc, 'sq) deployment =
  dp_service :: "'t service"
  dp_mlir :: 'sc
  dp_qdmi :: 'sq
  dp_scheduler_log :: "(level_enum \<times> string) list"
  dp_compiler_log :: "(level_enum \<times> string) list"
  dp_submitter_log :: "(level_enum \<times> string) list"

text \<open>
  The way of one request: the client's send, a round each of the task worker, the scheduler, the compiler, the submitter
  and the result worker, and the client's receive. \<open>None\<close>: a send fails, a call does not return, a
  program ends, or the client gets no answer.
\<close>

definition session_turn ::
  "'t stack_ops \<Rightarrow> ('m, 'sc) mlir \<Rightarrow> ('d, 'j, 'sq) qdmi \<Rightarrow> bool \<Rightarrow> 32 word \<Rightarrow> Config \<Rightarrow> qrm_Config \<Rightarrow> QuantumTask \<Rightarrow>
   ('t, 'sc, 'sq) deployment \<Rightarrow> (QuantumResult \<times> ('t, 'sc, 'sq) deployment) option" where
  "session_turn ops mlir qdmi ndebug beyond qc rc request d =
     (let (st, w) = so_request ops \<lparr>addr_name = queue_request (queue_names qc)\<rparr> request default_send_args
            (sv_world (dp_service d))
      in if \<not> ok st then None else
      case task_worker_round (so_task_receive ops) (so_task_send ops) qc ((dp_service d)\<lparr>sv_world := w\<rparr>) of
        None \<Rightarrow> None
      | Some s \<Rightarrow> (
      case scheduler_round (po_scheduler_receive ops) (po_scheduler_send ops) rc
          \<lparr>qp_world = sv_world s, qp_log = dp_scheduler_log d\<rparr> of
        None \<Rightarrow> None
      | Some p2 \<Rightarrow> (
      case compiler_round mlir snd (\<lambda>sc w. (fst w, sc)) (with_lib_receive (po_compiler_receive ops))
          (with_lib_send (po_compiler_send ops)) rc \<lparr>qp_world = (qp_world p2, dp_mlir d), qp_log = dp_compiler_log d\<rparr> of
        Some (Returns p3) \<Rightarrow> (
      case submitter_round qdmi ndebug beyond snd (\<lambda>sq w. (fst w, sq)) (with_lib_receive (po_submitter_receive ops))
          (with_lib_send (po_submitter_send ops)) rc
          \<lparr>qp_world = (fst (qp_world p3), dp_qdmi d), qp_log = dp_submitter_log d\<rparr> of
        Some (Returns p4) \<Rightarrow> (
      case result_worker_round (so_result_receive ops) (so_result_send ops) qc (s\<lparr>sv_world := fst (qp_world p4)\<rparr>) of
        None \<Rightarrow> None
      | Some s' \<Rightarrow> (
      case so_answer ops \<lparr>addr_name = qt_result_destination request\<rparr> worker_args (sv_world s') of
        Some (Inr r, w') \<Rightarrow> Some (r, \<lparr>dp_service = s'\<lparr>sv_world := w'\<rparr>, dp_mlir = snd (qp_world p3),
          dp_qdmi = snd (qp_world p4), dp_scheduler_log = qp_log p2, dp_compiler_log = qp_log p3,
          dp_submitter_log = qp_log p4\<rparr>)
      | _ \<Rightarrow> None)) | _ \<Rightarrow> None) | _ \<Rightarrow> None)))"

fun session ::
  "'t stack_ops \<Rightarrow> ('m, 'sc) mlir \<Rightarrow> ('d, 'j, 'sq) qdmi \<Rightarrow> bool \<Rightarrow> 32 word \<Rightarrow> Config \<Rightarrow> qrm_Config \<Rightarrow> QuantumTask list \<Rightarrow>
   ('t, 'sc, 'sq) deployment \<Rightarrow> (QuantumResult list \<times> ('t, 'sc, 'sq) deployment) option" where
  "session ops mlir qdmi ndebug beyond qc rc [] d = Some ([], d)"
| "session ops mlir qdmi ndebug beyond qc rc (request # requests) d =
     (case session_turn ops mlir qdmi ndebug beyond qc rc request d of
        None \<Rightarrow> None
      | Some (r, d1) \<Rightarrow> map_option (\<lambda>(rs, d2). (r # rs, d2)) (session ops mlir qdmi ndebug beyond qc rc requests d1))"

section \<open>What is required and what is promised\<close>

text \<open>
  The answer to a request: the device's histogram of its first circuit, compiled, for its number of shots, under the
  client's task id and queue. It does not depend on the identifier that QOffload assigned.
\<close>

definition answer_to ::
  "('m, 'sc) mlir \<Rightarrow> (string \<Rightarrow> 'm) \<Rightarrow> (string \<Rightarrow> int32 \<Rightarrow> string list \<times> uint64 list) \<Rightarrow> QuantumTask \<Rightarrow> QuantumResult" where
  "answer_to mlir m hist request =
     (result_of mlir m hist request)\<lparr>qr_destination := qt_result_destination request\<rparr>"

lemma outgoing_fields [simp]:
  "qt_circuit_files (outgoing_task fc k x) = qt_circuit_files x" "qt_n_shots (outgoing_task fc k x) = qt_n_shots x"
  "qt_preferred_qpu (outgoing_task fc k x) = qt_preferred_qpu x"
  "qt_result_destination (outgoing_task fc k x) = fc_result_queue fc"
  by (simp_all add: outgoing_task_def Let_def)

lemma compiled_fields [simp]:
  "qt_n_shots (compiled mlir m x) = qt_n_shots x" "qt_task_id (compiled mlir m x) = qt_task_id x"
  "qt_result_destination (compiled mlir m x) = qt_result_destination x"
  by (simp_all add: compiled_def)

lemma compiled_outgoing: "qt_circuit_files (compiled mlir m (outgoing_task fc k x)) = qt_circuit_files (compiled mlir m x)"
  by (simp add: compiled_def)

lemma outgoing_works:
  "compiler_works mlir m (outgoing_task fc k x) = compiler_works mlir m x"
  "device_runs qdmi beyond hist (compiled mlir m (outgoing_task fc k x)) = device_runs qdmi beyond hist (compiled mlir m x)"
  by (simp_all add: compiler_works_def device_runs_def compiled_outgoing)

lemma outgoing_result:
  "qr_task_id (result_of mlir m hist (outgoing_task fc k x)) = to_int32 k"
  "(result_of mlir m hist (outgoing_task fc k x))\<lparr>qr_task_id := qt_task_id x, qr_destination := qt_result_destination x\<rparr> =
     answer_to mlir m hist x"
  by (simp_all add: answer_to_def result_of_compiled hist_result_def histogram_result_def compiled_outgoing case_prod_beta Let_def)

text \<open>
  What is required of a request that is assigned the identifier \<open>k\<close>: the identifier survives 32 bits, the client names a queue,
  the libraries work on its circuits, and the messages that come of it can be carried.
\<close>

definition request_works ::
  "(QuantumTask \<Rightarrow> bool) \<Rightarrow> (QuantumResult \<Rightarrow> bool) \<Rightarrow> ('m, 'sc) mlir \<Rightarrow> (string \<Rightarrow> 'm) \<Rightarrow> ('d, 'j, 'sq) qdmi \<Rightarrow> 32 word \<Rightarrow>
   (string \<Rightarrow> int32 \<Rightarrow> string list \<times> uint64 list) \<Rightarrow> forward_config \<Rightarrow> uint64 \<Rightarrow> QuantumTask \<Rightarrow> bool" where
  "request_works good_task good_result mlir m qdmi beyond hist fc k x \<longleftrightarrow>
     fits_int32 k \<and> qt_result_destination x \<noteq> [] \<and> compiler_works mlir m x \<and>
     device_runs qdmi beyond hist (compiled mlir m x) \<and>
     good_task x \<and> good_task (outgoing_task fc k x) \<and> good_task (compiled mlir m (outgoing_task fc k x)) \<and>
     good_result (result_of mlir m hist (outgoing_task fc k x)) \<and> good_result (answer_to mlir m hist x)"

text \<open>The same for each request of a list, with the identifiers that QOffload assigns them.\<close>

fun requests_work ::
  "(QuantumTask \<Rightarrow> bool) \<Rightarrow> (QuantumResult \<Rightarrow> bool) \<Rightarrow> ('m, 'sc) mlir \<Rightarrow> (string \<Rightarrow> 'm) \<Rightarrow> ('d, 'j, 'sq) qdmi \<Rightarrow> 32 word \<Rightarrow>
   (string \<Rightarrow> int32 \<Rightarrow> string list \<times> uint64 list) \<Rightarrow> forward_config \<Rightarrow> Forward \<Rightarrow> QuantumTask list \<Rightarrow> bool" where
  "requests_work good_task good_result mlir m qdmi beyond hist fc f [] = True"
| "requests_work good_task good_result mlir m qdmi beyond hist fc f (x # xs) =
     (request_works good_task good_result mlir m qdmi beyond hist fc (fst (nextTaskId f)) x \<and>
      requests_work good_task good_result mlir m qdmi beyond hist fc (snd (nextTaskId f)) xs)"

text \<open>The keys of the identifiers assigned.\<close>

fun assigned_ids :: "Forward \<Rightarrow> nat \<Rightarrow> uint64 set" where
  "assigned_ids f 0 = {}"
| "assigned_ids f (Suc n) = insert (fst (nextTaskId f)) (assigned_ids (snd (nextTaskId f)) n)"

context carrier_stack
begin

lemma turn_answered:
  assumes names: "[] \<notin> {queue_request (queue_names qc), queue_qrm_task (queue_names qc),
        queue_result (queue_names qc), queue_compiler (qrm_queues rc), queue_submitter (qrm_queues rc)}"
    and wired: "queue_qrm_task (queue_names qc) = queue_scheduler (qrm_queues rc)"
    and quiet: "quiet (sv_world (dp_service d))"
    and works: "request_works good_task good_result mlir m qdmi beyond hist (forward_config_of qc)
      (fst (nextTaskId (sv_forwarder (dp_service d)))) x"
  shows "\<exists>d'. session_turn ops mlir qdmi ndebug beyond qc rc x d = Some (answer_to mlir m hist x, d') \<and>
    quiet (sv_world (dp_service d')) \<and> sv_forwarder (dp_service d') = snd (nextTaskId (sv_forwarder (dp_service d))) \<and>
    pending_map (sv_tasks (dp_service d')) =
      (pending_map (sv_tasks (dp_service d)))(fst (nextTaskId (sv_forwarder (dp_service d))) := None) \<and>
    completed_map (sv_tasks (dp_service d')) = completed_map (sv_tasks (dp_service d)) \<and>
    sv_log (dp_service d') = sv_log (dp_service d)"
proof -
  let ?s = "dp_service d" and ?fc = "forward_config_of qc"
  let ?k = "fst (nextTaskId (sv_forwarder ?s))"
  let ?y = "outgoing_task ?fc ?k x" and ?a = "answer_to mlir m hist x"
  let ?r = "hist_result hist (compiled mlir m ?y)"
  have w: "fits_int32 ?k" "qt_result_destination x \<noteq> []" "compiler_works mlir m ?y"
    "device_runs qdmi beyond hist (compiled mlir m ?y)" "good_task x" "good_task ?y" "good_task (compiled mlir m ?y)"
    "good_result ?r" "good_result ?a"
    using works unfolding request_works_def result_of_compiled outgoing_works by blast+
  from names have ne: "queue_request (queue_names qc) \<noteq> []" "queue_qrm_task (queue_names qc) \<noteq> []"
    "queue_result (queue_names qc) \<noteq> []" "queue_compiler (qrm_queues rc) \<noteq> []" "queue_submitter (qrm_queues rc) \<noteq> []" by auto
  obtain f tasks where fwd: "forwardDirectTask x ?fc (sv_forwarder ?s) (sv_tasks ?s) = (?y, f, tasks)"
    and f: "f = snd (nextTaskId (sv_forwarder ?s))" by (auto simp: forwardDirectTask_steps)
  obtain w1 where 1: "so_request ops \<lparr>addr_name = queue_request (queue_names qc)\<rparr> x default_send_args (sv_world ?s) =
      (success, w1)" "brings quiet (so_task_receive ops) (queue_request (queue_names qc)) x w1"
    by (rule carried [OF requests [OF w(5)] ne(1) quiet])
  from task_worker_passes [where s = "?s\<lparr>sv_world := w1\<rparr>" and request = x and fwd = ?y, OF _ _ forwards [OF w(6)] ne(2)] 1(2) fwd
  obtain w2 where 2: "task_worker_round (so_task_receive ops) (so_task_send ops) qc (?s\<lparr>sv_world := w1\<rparr>) =
      Some (?s\<lparr>sv_forwarder := f, sv_tasks := tasks, sv_world := w2\<rparr>)"
    "brings quiet (po_scheduler_receive ops) (queue_scheduler (qrm_queues rc)) ?y w2" unfolding wired by auto
  obtain p2 where 3: "scheduler_round (po_scheduler_receive ops) (po_scheduler_send ops) rc
      \<lparr>qp_world = w2, qp_log = dp_scheduler_log d\<rparr> = Some p2"
    "brings quiet (po_compiler_receive ops) (queue_compiler (qrm_queues rc)) ?y (qp_world p2)"
    using scheduler_passes [OF 2(2) w(6) ne(4)] by blast
  obtain p3 where 4: "compiler_round mlir snd (\<lambda>sc w. (fst w, sc)) (with_lib_receive (po_compiler_receive ops))
      (with_lib_send (po_compiler_send ops)) rc \<lparr>qp_world = (qp_world p2, dp_mlir d), qp_log = dp_compiler_log d\<rparr> =
      Some (Returns p3)"
    "brings quiet (po_submitter_receive ops) (queue_submitter (qrm_queues rc)) (compiled mlir m ?y) (fst (qp_world p3))"
    using compiler_passes_lib [OF 3(2) w(3,7) ne(5)] by blast
  obtain p4 where 5: "submitter_round qdmi ndebug beyond snd (\<lambda>sq w. (fst w, sq)) (with_lib_receive (po_submitter_receive ops))
      (with_lib_send (po_submitter_send ops)) rc
      \<lparr>qp_world = (fst (qp_world p3), dp_qdmi d), qp_log = dp_submitter_log d\<rparr> = Some (Returns p4)"
    "brings quiet (so_result_receive ops) (queue_result (queue_names qc)) ?r (fst (qp_world p4))"
    using submitter_passes_lib [OF 4(2) w(4) results [OF w(8)], of ndebug "dp_qdmi d" "dp_submitter_log d"] ne(3)
    by (auto simp: forward_config_of_def)
  have id: "qr_task_id ?r = qt_task_id ?y"
    using outgoing_result(1) [where mlir = mlir and m = m and hist = hist and fc = ?fc and k = ?k and x = x]
    by (simp add: result_of_compiled)
  have a: "?r\<lparr>qr_task_id := qt_task_id x, qr_destination := qt_result_destination x\<rparr> = ?a"
    using outgoing_result(2) [where mlir = mlir and m = m and hist = hist and fc = ?fc and k = ?k and x = x]
    by (simp add: result_of_compiled)
  obtain tasks' where t: "processResult ?r tasks = (\<lparr>outcome_kind = DirectResult, direct_result = Some ?a,
      direct_result_destination = qt_result_destination x\<rparr>, tasks')"
    "pending_map tasks' = (pending_map (sv_tasks ?s))(?k := None)" "completed_map tasks' = completed_map (sv_tasks ?s)"
    using forwarded_result [OF w(1) fwd id] unfolding a by blast
  from result_worker_passes [where s = "?s\<lparr>sv_forwarder := f, sv_tasks := tasks, sv_world := fst (qp_world p4)\<rparr>" and
      r = ?a and result = ?r and tasks = tasks' and config = qc, OF _ _ w(9,2)] 5(2) t(1) obtain w6 where
    6: "result_worker_round (so_result_receive ops) (so_result_send ops) qc
        (?s\<lparr>sv_forwarder := f, sv_tasks := tasks, sv_world := fst (qp_world p4)\<rparr>) =
        Some (?s\<lparr>sv_forwarder := f, sv_tasks := tasks', sv_world := w6\<rparr>)"
      "brings quiet (so_answer ops) (qt_result_destination x) ?a w6" by auto
  obtain w7 where 7: "so_answer ops \<lparr>addr_name = qt_result_destination x\<rparr> worker_args w6 = Some (Inr ?a, w7)" "quiet w7"
    by (rule brought [OF 6(2) waits_args(1)])
  show ?thesis
    by (simp add: session_turn_def 1(1) 2(1) 3(1) 4(1) 5(1) 6(1) 7 t(2,3)) (simp add: f)
qed

lemma session_answered:
  assumes names: "[] \<notin> {queue_request (queue_names qc), queue_qrm_task (queue_names qc),
        queue_result (queue_names qc), queue_compiler (qrm_queues rc), queue_submitter (qrm_queues rc)}"
    and wired: "queue_qrm_task (queue_names qc) = queue_scheduler (qrm_queues rc)"
    and "quiet (sv_world (dp_service d))"
    and "requests_work good_task good_result mlir m qdmi beyond hist (forward_config_of qc) (sv_forwarder (dp_service d)) xs"
  shows "\<exists>d'. session ops mlir qdmi ndebug beyond qc rc xs d = Some (map (answer_to mlir m hist) xs, d') \<and>
    quiet (sv_world (dp_service d')) \<and>
    pending_map (sv_tasks (dp_service d')) = (\<lambda>k. if k \<in> assigned_ids (sv_forwarder (dp_service d)) (length xs) then None
      else pending_map (sv_tasks (dp_service d)) k) \<and>
    completed_map (sv_tasks (dp_service d')) = completed_map (sv_tasks (dp_service d)) \<and>
    sv_log (dp_service d') = sv_log (dp_service d)"
  using assms(3,4)
proof (induction xs arbitrary: d)
  case (Cons x xs)
  from turn_answered [OF names wired Cons.prems(1), where x = x and mlir = mlir and m = m and qdmi = qdmi and
      beyond = beyond and hist = hist and ndebug = ndebug] Cons.prems(2) obtain d1 where
    d1: "session_turn ops mlir qdmi ndebug beyond qc rc x d = Some (answer_to mlir m hist x, d1)"
      "quiet (sv_world (dp_service d1))" "sv_forwarder (dp_service d1) = snd (nextTaskId (sv_forwarder (dp_service d)))"
      "pending_map (sv_tasks (dp_service d1)) =
        (pending_map (sv_tasks (dp_service d)))(fst (nextTaskId (sv_forwarder (dp_service d))) := None)"
      "completed_map (sv_tasks (dp_service d1)) = completed_map (sv_tasks (dp_service d))"
      "sv_log (dp_service d1) = sv_log (dp_service d)" by auto
  from Cons.IH [OF d1(2)] Cons.prems(2) d1 show ?case by (auto simp: fun_eq_iff)
qed simp

end

end
