(* ===== verification/Rabbit_Queues.thy ===== *)
theory Rabbit_Queues
  imports Rabbit_Transport Typed_Queue
begin

text \<open>
  What the RabbitMQ backend does to the queues of the broker, for receives with automatic
  acknowledgement, which is the mode of all programs of the repository. The broker is described by a view of the
  world: the messages it holds in each queue, and for a consumer the messages sent to it that it has
  not handed out. \<open>broker_laws\<close> is the documented behaviour of AMQP and of SimpleAmqpClient: a queue is
  first in, first out; a publish that throws may or may not have reached the broker; a message sent to a
  consumer without acknowledgement leaves the queue at once. The last law is why the backend may
  lose messages: the limit of one unacknowledged message that it asks for does not
  apply to such consumers, and cancelling one drops what it was sent.
\<close>

record ('w, 'ch, 'bm) broker_view =
  bv_ready :: "'w \<Rightarrow> string \<Rightarrow> 'bm list"
  bv_sent :: "'w \<Rightarrow> 'ch \<Rightarrow> string \<Rightarrow> 'bm list"
  bv_consumer :: "'w \<Rightarrow> 'ch \<Rightarrow> string \<Rightarrow> string option"

text \<open>Opening a channel, declaring a queue and waiting for a lock touch no message.\<close>

definition quiet_laws :: "('w, 'ch, 'bm, 'd) amqp \<Rightarrow> ('w, 'ch, 'bm) broker_view \<Rightarrow> bool" where
  "quiet_laws am v \<longleftrightarrow>
     (\<forall>opts w. bv_ready v (snd (am_Create am opts w)) = bv_ready v w) \<and>
     (\<forall>ch n w. bv_ready v (snd (am_DeclareQueue am ch n False False False False w)) = bv_ready v w) \<and>
     (\<forall>w. bv_ready v (wait_lock am w) = bv_ready v w)"

text \<open>A publish to a queue just declared puts the message behind the others.\<close>

definition publish_law :: "('w, 'ch, 'bm, 'd) amqp \<Rightarrow> ('w, 'ch, 'bm) broker_view \<Rightarrow> bool" where
  "publish_law am v \<longleftrightarrow>
     (\<forall>ch n bm w w1 r w2. am_DeclareQueue am ch n False False False False w = (Inr (), w1) \<longrightarrow>
        am_BasicPublish am ch [] n bm w1 = (r, w2) \<longrightarrow>
        (isl r \<and> bv_ready v w2 = bv_ready v w1) \<or>
        bv_ready v w2 = (bv_ready v w1)(n := bv_ready v w1 n @ [bm]))"

text \<open>\<^verbatim>\<open>BasicGet\<close> takes the first message.\<close>

definition get_law :: "('w, 'ch, 'bm, 'd) amqp \<Rightarrow> ('w, 'ch, 'bm) broker_view \<Rightarrow> bool" where
  "get_law am v \<longleftrightarrow>
     (\<forall>ch n w r w'. am_BasicGet am ch n True w = (r, w') \<longrightarrow>
        (\<exists>ms. bv_ready v w' = (bv_ready v w)(n := ms) \<and>
           (case r of
              Inl x \<Rightarrow> suffix ms (bv_ready v w n)
            | Inr None \<Rightarrow> ms = bv_ready v w n
            | Inr (Some d) \<Rightarrow> bv_ready v w n = am_Message am d # ms)))"

text \<open>
  A consumer without acknowledgement is sent messages from the front of its queue, when it is set up and
  at every poll; a poll hands out the first of them.
\<close>

definition consume_law :: "('w, 'ch, 'bm, 'd) amqp \<Rightarrow> ('w, 'ch, 'bm) broker_view \<Rightarrow> bool" where
  "consume_law am v \<longleftrightarrow>
     (\<forall>ch n w r w'. am_BasicConsume am ch n [] True True False 1 w = (r, w') \<longrightarrow>
        (\<exists>ms. suffix ms (bv_ready v w n) \<and> bv_ready v w' = (bv_ready v w)(n := ms) \<and>
           (\<forall>tag. r = Inr tag \<longrightarrow> bv_consumer v w' ch tag = Some n \<and> bv_sent v w' ch tag @ ms = bv_ready v w n)))"

definition poll_law :: "('w, 'ch, 'bm, 'd) amqp \<Rightarrow> ('w, 'ch, 'bm) broker_view \<Rightarrow> bool" where
  "poll_law am v \<longleftrightarrow>
     (\<forall>ch tag n ms w r w'. bv_consumer v w ch tag = Some n \<longrightarrow> am_BasicConsumeMessage am ch tag ms w = (r, w') \<longrightarrow>
        (\<exists>rs. suffix rs (bv_ready v w n) \<and> bv_ready v w' = (bv_ready v w)(n := rs) \<and>
           (\<not> isl r \<longrightarrow> bv_consumer v w' ch tag = Some n) \<and>
           (case r of
              Inl x \<Rightarrow> True
            | Inr None \<Rightarrow> bv_sent v w' ch tag @ rs = bv_sent v w ch tag @ bv_ready v w n
            | Inr (Some d) \<Rightarrow> am_Message am d # bv_sent v w' ch tag @ rs = bv_sent v w ch tag @ bv_ready v w n)))"

definition cancel_law :: "('w, 'ch, 'bm, 'd) amqp \<Rightarrow> ('w, 'ch, 'bm) broker_view \<Rightarrow> bool" where
  "cancel_law am v \<longleftrightarrow>
     (\<forall>ch tag n w. bv_consumer v w ch tag = Some n \<longrightarrow> bv_ready v (snd (am_BasicCancel am ch tag w)) = bv_ready v w)"

definition broker_laws :: "('w, 'ch, 'bm, 'd) amqp \<Rightarrow> ('w, 'ch, 'bm) broker_view \<Rightarrow> bool" where
  "broker_laws am v \<longleftrightarrow> quiet_laws am v \<and> publish_law am v \<and> get_law am v \<and> consume_law am v \<and> poll_law am v \<and>
     cancel_law am v"

lemma broker_lawsD:
  assumes "broker_laws am v"
  shows "quiet_laws am v" "publish_law am v" "get_law am v" "consume_law am v" "poll_law am v" "cancel_law am v"
  using assms by (simp_all add: broker_laws_def)

lemma quiet_calls:
  assumes "broker_laws am v"
  shows "am_Create am opts w = (x, w') \<Longrightarrow> bv_ready v w' = bv_ready v w"
    "am_DeclareQueue am ch n False False False False w = (y, w') \<Longrightarrow> bv_ready v w' = bv_ready v w"
    "bv_ready v (wait_lock am w) = bv_ready v w"
  using broker_lawsD(1) [OF assms] unfolding quiet_laws_def by (metis snd_conv)+

section \<open>A broker\<close>

text \<open>
  An instance of the parameter, for evaluation: a broker with any number of queues and one consumer,
  which is sent all there is.
\<close>

record model_broker =
  mb_ready :: "string \<Rightarrow> plain_message list"
  mb_consumer :: "(string \<times> plain_message list) option"
  mb_clock :: int

definition mb_poll :: "int \<Rightarrow> model_broker \<Rightarrow> (string + plain_message option) \<times> model_broker" where
  "mb_poll ms w = (case mb_consumer w of
       None \<Rightarrow> (Inl ''no consumer'', w)
     | Some (n, buf) \<Rightarrow>
         (case buf @ mb_ready w n of
            [] \<Rightarrow> (Inr None, w\<lparr>mb_clock := mb_clock w + max 0 ms * 1000000 + 1\<rparr>)
          | m # rest \<Rightarrow> (Inr (Some m), w\<lparr>mb_ready := (mb_ready w)(n := []), mb_consumer := Some (n, rest)\<rparr>)))"

definition model_amqp :: "(model_broker, unit, plain_message, plain_message) amqp" where
  "model_amqp = \<lparr>
     am_Create = (\<lambda>_ w. (Inr (), w)),
     am_DeclareQueue = (\<lambda>_ _ _ _ _ _ w. (Inr (), w)),
     am_BasicPublish = (\<lambda>_ _ n m w. (Inr (), w\<lparr>mb_ready := (mb_ready w)(n := mb_ready w n @ [m])\<rparr>)),
     am_BasicGet = (\<lambda>_ n _ w. case mb_ready w n of
         [] \<Rightarrow> (Inr None, w)
       | m # r \<Rightarrow> (Inr (Some m), w\<lparr>mb_ready := (mb_ready w)(n := r)\<rparr>)),
     am_BasicConsume = (\<lambda>_ n _ _ _ _ _ w. (Inr ''tag'', w\<lparr>mb_ready := (mb_ready w)(n := []),
       mb_consumer := Some (n, mb_ready w n)\<rparr>)),
     am_BasicConsumeMessage = (\<lambda>_ _ ms w. mb_poll ms w),
     am_BasicCancel = (\<lambda>_ _ w. (Inr (), w\<lparr>mb_consumer := None\<rparr>)),
     am_BasicAck = (\<lambda>_ _ w. (Inr (), w)),
     am_BasicReject = (\<lambda>_ _ _ w. (Inr (), w)),
     am_Message = (\<lambda>d. d),
     steady_now = mb_clock,
     stop_seen = (\<lambda>w. False),
     wait_lock = (\<lambda>w. w)\<rparr>"

definition model_view :: "(model_broker, unit, plain_message) broker_view" where
  "model_view = \<lparr>bv_ready = mb_ready,
     bv_sent = (\<lambda>w _ _. case mb_consumer w of Some (n, ms) \<Rightarrow> ms | None \<Rightarrow> []),
     bv_consumer = (\<lambda>w _ _. map_option fst (mb_consumer w))\<rparr>"

definition model_start :: model_broker where
  "model_start = \<lparr>mb_ready = (\<lambda>_. []), mb_consumer = None, mb_clock = 0\<rparr>"

lemma model_laws: "broker_laws model_amqp model_view"
proof -
  have "quiet_laws model_amqp model_view" "publish_law model_amqp model_view" "cancel_law model_amqp model_view"
    by (simp_all add: quiet_laws_def publish_law_def cancel_law_def model_amqp_def model_view_def)
  moreover have "get_law model_amqp model_view" "consume_law model_amqp model_view"
    by (auto simp: get_law_def consume_law_def model_amqp_def model_view_def split: list.splits)
  moreover have "poll_law model_amqp model_view"
    by (fastforce simp: poll_law_def model_amqp_def model_view_def mb_poll_def split: option.splits list.splits)
  ultimately show "broker_laws model_amqp model_view" by (simp add: broker_laws_def)
qed

section \<open>What a receive takes\<close>

text \<open>
  Between two moments of a wait, with its outcome: the queue has lost a front part. If a message was handed out, it
  was the first of those sent to the consumer or still in the queue, and the others are still with the consumer or in
  the queue, in their order.
\<close>

definition taken ::
  "('w, 'ch, 'bm, 'd) amqp \<Rightarrow> ('w, 'ch, 'bm) broker_view \<Rightarrow> 'ch \<Rightarrow> string \<Rightarrow> string \<Rightarrow> 'w \<Rightarrow> 'd wait_result \<times> 'w \<Rightarrow>
   bool" where
  "taken am v ch tag n w res \<longleftrightarrow> (case res of (r, w') \<Rightarrow>
     \<exists>ms. suffix ms (bv_ready v w n) \<and> bv_ready v w' = (bv_ready v w)(n := ms) \<and>
       ((\<nexists>x. r = WaitThrew x) \<longrightarrow> bv_consumer v w' ch tag = Some n) \<and>
       (\<forall>d. r = WaitGot d \<longrightarrow>
          bv_sent v w ch tag @ bv_ready v w n = am_Message am d # bv_sent v w' ch tag @ ms))"

text \<open>One poll: it ends the wait or goes on.\<close>

lemma poll_taken:
  assumes laws: "broker_laws am v" and con: "bv_consumer v w ch tag = Some n"
    and poll: "am_BasicConsumeMessage am ch tag ms w = (r, w')"
  shows "case r of
      Inl x \<Rightarrow> taken am v ch tag n w (WaitThrew x, w')
    | Inr (Some d) \<Rightarrow> taken am v ch tag n w (WaitGot d, w')
    | Inr None \<Rightarrow> bv_consumer v w' ch tag = Some n \<and>
        (\<forall>res. taken am v ch tag n w' res \<longrightarrow> taken am v ch tag n w res)"
proof -
  from broker_lawsD(5) [OF laws] con poll obtain rs where
    rs: "suffix rs (bv_ready v w n)" "bv_ready v w' = (bv_ready v w)(n := rs)"
      "\<not> isl r \<longrightarrow> bv_consumer v w' ch tag = Some n"
      "case r of
          Inl x \<Rightarrow> True
        | Inr None \<Rightarrow> bv_sent v w' ch tag @ rs = bv_sent v w ch tag @ bv_ready v w n
        | Inr (Some d) \<Rightarrow> am_Message am d # bv_sent v w' ch tag @ rs = bv_sent v w ch tag @ bv_ready v w n"
    unfolding poll_law_def by blast
  show ?thesis
  proof (cases r)
    case (Inl x)
    then show ?thesis using rs by (auto simp: taken_def)
  next
    case (Inr m)
    show ?thesis
    proof (cases m)
      case None
      with Inr rs have more: "bv_consumer v w' ch tag = Some n"
        "bv_sent v w' ch tag @ bv_ready v w' n = bv_sent v w ch tag @ bv_ready v w n" by simp_all
      have "taken am v ch tag n w res" if "taken am v ch tag n w' res" for res
      proof -
        obtain q w2 where res: "res = (q, w2)" by (cases res)
        have "\<exists>ms. suffix ms (bv_ready v w' n) \<and> bv_ready v w2 = (bv_ready v w')(n := ms) \<and>
          ((\<nexists>x. q = WaitThrew x) \<longrightarrow> bv_consumer v w2 ch tag = Some n) \<and>
          (\<forall>d. q = WaitGot d \<longrightarrow> bv_sent v w ch tag @ bv_ready v w n = am_Message am d # bv_sent v w2 ch tag @ ms)"
          using that unfolding res taken_def prod.case more(2) by blast
        then obtain ms where ms: "suffix ms rs" "bv_ready v w2 = (bv_ready v w)(n := ms)"
          "(\<nexists>x. q = WaitThrew x) \<longrightarrow> bv_consumer v w2 ch tag = Some n"
          "\<forall>d. q = WaitGot d \<longrightarrow> bv_sent v w ch tag @ bv_ready v w n = am_Message am d # bv_sent v w2 ch tag @ ms"
          unfolding rs(2) fun_upd_same fun_upd_upd by blast
        then show ?thesis unfolding taken_def res prod.case
          using suffix_order.trans [OF ms(1) rs(1)] by blast
      qed
      with more(1) Inr None show ?thesis by simp
    next
      case (Some d)
      with Inr rs have d: "bv_consumer v w' ch tag = Some n"
        "bv_sent v w ch tag @ bv_ready v w n = am_Message am d # (bv_sent v w' ch tag @ rs)" by simp_all
      show ?thesis
        using rs(1,2) d unfolding Inr Some taken_def by auto
    qed
  qed
qed

lemma taken_none: "bv_consumer v w ch tag = Some n \<Longrightarrow> r \<in> {WaitStopped, WaitTimedOut} \<Longrightarrow> taken am v ch tag n w (r, w)"
  by (auto simp: taken_def intro!: exI [of _ "bv_ready v w n"])

lemma wait_taken:
  "rb_wait am ch tag st w = Some res \<Longrightarrow> broker_laws am v \<Longrightarrow> bv_consumer v w ch tag = Some n \<Longrightarrow>
   taken am v ch tag n w res"
proof (induction rule: rb_wait.raw_induct [rotated 1, consumes 1])
  case (1 wait am ch tag st w res)
  show ?case
  proof (cases "rb_is_stopped am st w")
    case True
    with 1 show ?thesis by (auto intro: taken_none)
  next
    case False
    obtain r w' where poll: "am_BasicConsumeMessage am ch tag 200 w = (r, w')" by (metis surj_pair)
    from poll_taken [OF 1(3,4) poll] 1(1) [of am ch tag st w' res] 1(2,3) show ?thesis
      by (cases res) (auto simp: False poll split: sum.splits option.splits)
  qed
qed

lemma wait_until_taken:
  "rb_wait_until am ch tag st deadline w = Some res \<Longrightarrow> broker_laws am v \<Longrightarrow> bv_consumer v w ch tag = Some n \<Longrightarrow>
   taken am v ch tag n w res"
proof (induction rule: rb_wait_until.raw_induct [rotated 1, consumes 1])
  case (1 wait am ch tag st deadline w res)
  show ?case
  proof (cases "rb_is_stopped am st w \<or> deadline \<le> steady_now am w")
    case True
    with 1 show ?thesis by (auto intro: taken_none split: if_splits)
  next
    case False
    let ?ms = "wait_ms deadline (steady_now am w)"
    obtain r w' where poll: "am_BasicConsumeMessage am ch tag ?ms w = (r, w')" by (metis surj_pair)
    from poll_taken [OF 1(3,4) poll] 1(1) [of am ch tag st deadline w' res] 1(2,3) show ?thesis
      using False by (cases res) (auto simp: poll split: sum.splits option.splits if_splits)
  qed
qed

text \<open>
  From the start of the consumer to its cancellation. \<open>dropped\<close>: the last thing that happened is the
  cancellation of a consumer of the queue, to which the broker had sent these messages.
\<close>

definition dropped ::
  "('w, 'ch, 'bm, 'd) amqp \<Rightarrow> ('w, 'ch, 'bm) broker_view \<Rightarrow> string \<Rightarrow> 'bm list \<Rightarrow> 'w \<Rightarrow> bool" where
  "dropped am v n lost w' \<longleftrightarrow> (\<exists>ch tag w. w' = snd (am_BasicCancel am ch tag w) \<and>
     bv_consumer v w ch tag = Some n \<and> bv_sent v w ch tag = lost)"

lemma consume_taken:
  assumes laws: "broker_laws am v" and auto: "ack_mode args = AckAuto"
    and "rb_consume am st ch n args w = Some (r, w')"
  shows "\<exists>ms. suffix ms (bv_ready v w n) \<and> bv_ready v w' = (bv_ready v w)(n := ms) \<and>
    (\<forall>d. r = WaitGot d \<longrightarrow> (\<exists>lost. bv_ready v w n = am_Message am d # lost @ ms \<and> dropped am v n lost w'))"
proof -
  obtain c w1 where c: "am_BasicConsume am ch n [] True True False 1 w = (c, w1)" by (metis surj_pair)
  from broker_lawsD(4) [OF laws, unfolded consume_law_def, rule_format, OF c] obtain ms1 where
    ms1: "suffix ms1 (bv_ready v w n)" "bv_ready v w1 = (bv_ready v w)(n := ms1)"
      "\<And>tag. c = Inr tag \<Longrightarrow> bv_consumer v w1 ch tag = Some n \<and> bv_sent v w1 ch tag @ ms1 = bv_ready v w n"
    by blast
  show ?thesis
  proof (cases c)
    case (Inl x)
    then show ?thesis using assms(3) auto c ms1 by (auto simp: rb_consume_def)
  next
    case (Inr tag)
    define waited where "waited = (case recv_timeout args of
        None \<Rightarrow> rb_wait am ch tag st w1
      | Some ms \<Rightarrow> rb_wait_until am ch tag st (steady_now am w1 + ms * 1000000) w1)"
    obtain res w2 where w2: "waited = Some (res, w2)"
      and fin: "r = res" "w' = (if \<exists>x. res = WaitThrew x then w2 else cancel_consumer am ch tag w2)"
      using assms(3) auto c Inr
      by (auto simp: rb_consume_def waited_def split: option.splits wait_result.splits)
    have "taken am v ch tag n w1 (res, w2)"
      using w2 ms1(3) [OF Inr] wait_taken [OF _ laws] wait_until_taken [OF _ laws]
      by (auto simp: waited_def split: option.splits)
    then obtain ms where ms: "suffix ms ms1" "bv_ready v w2 = (bv_ready v w)(n := ms)"
      "(\<nexists>x. res = WaitThrew x) \<Longrightarrow> bv_consumer v w2 ch tag = Some n"
      "\<And>d. res = WaitGot d \<Longrightarrow> bv_ready v w n = am_Message am d # bv_sent v w2 ch tag @ ms"
      using ms1 Inr by (auto simp: taken_def)
    have "bv_ready v w' = bv_ready v w2"
      using broker_lawsD(6) [OF laws] ms(3) unfolding fin cancel_law_def cancel_consumer_def by auto
    moreover have "dropped am v n (bv_sent v w2 ch tag) w'" if "res = WaitGot d" for d
      using that ms(3) fin(2) by (auto simp: dropped_def cancel_consumer_def)
    ultimately show ?thesis
      using ms ms1(1) fin(1) by (intro exI [of _ ms]) (auto intro: suffix_order.trans)
  qed
qed

text \<open>A receive as a whole.\<close>

abbreviation rb_ready ::
  "('w, 'ch, 'bm) broker_view \<Rightarrow> ('w, 'ch, 'd) RabbitMqSimpleTransport \<Rightarrow> string \<Rightarrow> 'bm list" where
  "rb_ready v t \<equiv> bv_ready v (rb_world t)"

lemma delivery_parts:
  "makeMessageFromDelivery am api ch d AckAuto t = (m, t') \<Longrightarrow>
   envelope m = fromBasicMessage api (am_Message am d) \<and> rb_world t' = rb_world t"
  by (auto simp: makeMessageFromDelivery_def Let_def)

definition rb_takes ::
  "('w, 'ch, 'bm, 'd) amqp \<Rightarrow> ('w, 'ch, 'bm) broker_view \<Rightarrow> ('bm, 'tv) bm_api \<Rightarrow> string \<Rightarrow> ReceiveArgs \<Rightarrow>
   ('w, 'ch, 'd) RabbitMqSimpleTransport \<Rightarrow>
   ('w, 'ch, 'd) RabbitMqSimpleTransport Message Result \<times> ('w, 'ch, 'd) RabbitMqSimpleTransport \<Rightarrow> bool" where
  "rb_takes am v api n args t res \<longleftrightarrow> (case res of (r, t') \<Rightarrow>
     \<exists>ms. rb_ready v t' = (rb_ready v t)(n := ms) \<and>
       (case r of
          Inl e \<Rightarrow> suffix ms (rb_ready v t n)
        | Inr m \<Rightarrow> \<exists>bm lost. rb_ready v t n = bm # lost @ ms \<and> envelope m = fromBasicMessage api bm \<and>
            (if recv_timeout args = Some 0 then lost = [] else dropped am v n lost (rb_world t'))))"

lemma rb_takes_nothing: "isl r \<Longrightarrow> rb_ready v t' = rb_ready v t \<Longrightarrow> rb_takes am v api n args t (r, t')"
  by (cases r) (auto simp: rb_takes_def intro!: exI [of _ "rb_ready v t n"])

text \<open>A poll, and a wait, once the channel is open and the queue declared.\<close>

lemma polled_takes:
  assumes laws: "broker_laws am v" and auto: "ack_mode args = AckAuto" and poll: "recv_timeout args = Some 0"
    and ready: "bv_ready v w = rb_ready v t"
    and g: "am_BasicGet am ch n True w = (g, w')"
    and r: "case g of
        Inr (Some d) \<Rightarrow> \<exists>m. r = Inr m \<and> makeMessageFromDelivery am api ch d (ack_mode args) (t\<lparr>rb_world := w'\<rparr>) = (m, t')
      | _ \<Rightarrow> isl r \<and> t' = t\<lparr>rb_world := w'\<rparr>"
  shows "rb_takes am v api n args t (r, t')"
proof -
  from broker_lawsD(3) [OF laws, unfolded get_law_def, rule_format, OF g, unfolded ready] obtain ms where
    "bv_ready v w' = (rb_ready v t)(n := ms)"
    "case g of Inl x \<Rightarrow> suffix ms (rb_ready v t n) | Inr None \<Rightarrow> ms = rb_ready v t n
      | Inr (Some d) \<Rightarrow> rb_ready v t n = am_Message am d # ms" by blast
  then show ?thesis
    using r unfolding auto rb_takes_def prod.case
    by (intro exI [of _ ms]) (auto simp: poll dest: delivery_parts split: sum.splits option.splits)
qed

lemma waited_takes:
  assumes laws: "broker_laws am v" and auto: "ack_mode args = AckAuto" and wait: "recv_timeout args \<noteq> Some 0"
    and ready: "bv_ready v w = rb_ready v t"
    and g: "rb_consume am st ch n args w = Some (g, w')"
    and r: "case g of
        WaitGot d \<Rightarrow> \<exists>m. r = Inr m \<and> makeMessageFromDelivery am api ch d (ack_mode args) (t\<lparr>rb_world := w'\<rparr>) = (m, t')
      | _ \<Rightarrow> isl r \<and> t' = t\<lparr>rb_world := w'\<rparr>"
  shows "rb_takes am v api n args t (r, t')"
proof -
  from consume_taken [OF laws auto g, unfolded ready] obtain ms where
    "suffix ms (rb_ready v t n)" "bv_ready v w' = (rb_ready v t)(n := ms)"
    "\<forall>d. g = WaitGot d \<longrightarrow> (\<exists>lost. rb_ready v t n = am_Message am d # lost @ ms \<and> dropped am v n lost w')" by blast
  then show ?thesis
    using r wait unfolding auto rb_takes_def prod.case
    by (intro exI [of _ ms]) (auto dest: delivery_parts split: sum.splits wait_result.splits)
qed

lemma receive_ready:
  assumes laws: "broker_laws am v" and auto: "ack_mode args = AckAuto"
    and rcv: "rb_receive am api \<lparr>addr_name = n\<rparr> args t = Some (r, t')"
  shows "rb_takes am v api n args t (r, t')"
proof (cases "\<exists>st. n \<noteq> [] \<and> rb_ptr t = Some st \<and> \<not> rb_is_stopped am st (rb_world t)")
  case False
  then have "isl r" "t' = t" using rcv by (auto simp: rb_receive_def split: if_splits option.splits)
  then show ?thesis by (simp add: rb_takes_nothing)
next
  case True
  then obtain st where st: "n \<noteq> []" "rb_ptr t = Some st" "\<not> rb_is_stopped am st (rb_world t)" by blast
  obtain c w1 where c: "openChannel am (rb_opts st) (rb_world t) = (c, w1)" by (metis surj_pair)
  have w1: "bv_ready v w1 = rb_ready v t" using quiet_calls(1) [OF laws] c by (simp add: openChannel_def)
  show ?thesis
  proof (cases c)
    case (Inl x)
    then show ?thesis using rcv st c w1 by (intro rb_takes_nothing) (auto simp: rb_receive_def Let_def)
  next
    case (Inr ch)
    obtain q w2 where q: "am_DeclareQueue am ch n False False False False w1 = (q, w2)" by (metis surj_pair)
    have w2: "bv_ready v w2 = rb_ready v t" using quiet_calls(2) [OF laws q] w1 by simp
    consider x where "q = Inl x" | "q = Inr ()" "recv_timeout args = Some 0" | "q = Inr ()" "recv_timeout args \<noteq> Some 0"
      by (cases q) auto
    then show ?thesis
    proof cases
      case 1
      then show ?thesis using rcv st c Inr q w2 by (intro rb_takes_nothing) (auto simp: rb_receive_def Let_def)
    next
      case 2
      obtain g w3 where g: "am_BasicGet am ch n True w2 = (g, w3)" by (metis surj_pair)
      show ?thesis
        by (rule polled_takes [OF laws auto 2(2) w2 g])
          (use rcv st c Inr q 2 g auto in \<open>auto simp: rb_receive_def Let_def split: sum.splits option.splits prod.splits\<close>)
    next
      case 3
      with rcv st c Inr q obtain g w3 where g: "rb_consume am st ch n args w2 = Some (g, w3)"
        by (auto simp: rb_receive_def Let_def split: option.splits)
      show ?thesis
        by (rule waited_takes [OF laws auto 3(2) w2 g])
          (use rcv st c Inr q 3 g in \<open>auto simp: rb_receive_def Let_def split: wait_result.splits prod.splits\<close>)
    qed
  qed
qed

text \<open>A send: it puts the message behind the others, or fails.\<close>

lemma send_ready:
  assumes laws: "broker_laws am v" and snd: "rb_send am api \<lparr>addr_name = n\<rparr> e args t = (st, t')"
  shows "(\<not> ok st \<and> rb_ready v t' = rb_ready v t) \<or>
    rb_ready v t' = (rb_ready v t)(n := rb_ready v t n @ [toBasicMessage api e])"
proof (cases "\<exists>s. n \<noteq> [] \<and> \<not> confirm args \<and> rb_ptr t = Some s \<and> \<not> rb_is_stopped am s (rb_world t)")
  case False
  then show ?thesis using snd by (auto simp: rb_send_def split: if_splits option.splits)
next
  case True
  then obtain s where s: "n \<noteq> []" "\<not> confirm args" "rb_ptr t = Some s" "\<not> rb_is_stopped am s (rb_world t)" by blast
  let ?w = "wait_lock am (rb_world t)"
  define opened where "opened = (case rb_send_ch s of Some ch \<Rightarrow> (Inr ch, ?w) | None \<Rightarrow> openChannel am (rb_opts s) ?w)"
  obtain c w1 where c: "opened = (c, w1)" by (metis surj_pair)
  have w1: "bv_ready v w1 = rb_ready v t"
    using quiet_calls(1,3) [OF laws] c by (auto simp: opened_def openChannel_def split: option.splits)
  note c = c [unfolded opened_def]
  show ?thesis
  proof (cases c)
    case (Inl x)
    then show ?thesis
      using snd s w1 quiet_calls(3) [OF laws] c by (auto simp: rb_send_def Let_def split: if_splits)
  next
    case (Inr ch)
    obtain q w2 where q: "am_DeclareQueue am ch n False False False False w1 = (q, w2)" by (metis surj_pair)
    have w2: "bv_ready v w2 = rb_ready v t" using quiet_calls(2) [OF laws q] w1 by simp
    obtain p w3 where p: "am_BasicPublish am ch [] n (toBasicMessage api e) w2 = (p, w3)" by (metis surj_pair)
    have "q = Inr () \<Longrightarrow> (isl p \<and> bv_ready v w3 = rb_ready v t) \<or>
        bv_ready v w3 = (rb_ready v t)(n := rb_ready v t n @ [toBasicMessage api e])"
      using broker_lawsD(2) [OF laws, unfolded publish_law_def, rule_format, of ch n w1 w2 "toBasicMessage api e" p w3]
        q p w2 by auto
    then show ?thesis
      using snd s w2 quiet_calls(3) [OF laws] c
      by (auto simp: rb_send_def Let_def Inr q p split: if_splits sum.splits)
  qed
qed

section \<open>A broker that does not fail\<close>

text \<open>
  No call throws, and a poll finds a message when there is one for it. (A shutdown by another thread is
  not seen either.)
\<close>

definition reliable_broker :: "('w, 'ch, 'bm, 'd) amqp \<Rightarrow> ('w, 'ch, 'bm) broker_view \<Rightarrow> bool" where
  "reliable_broker am v \<longleftrightarrow> (\<forall>w. \<not> stop_seen am w) \<and> (\<forall>opts w. \<not> isl (fst (am_Create am opts w))) \<and>
     (\<forall>ch n w. \<not> isl (fst (am_DeclareQueue am ch n False False False False w))) \<and>
     (\<forall>ch n bm w. \<not> isl (fst (am_BasicPublish am ch [] n bm w))) \<and>
     (\<forall>ch n w. bv_ready v w n \<noteq> [] \<longrightarrow> (\<exists>d. fst (am_BasicGet am ch n True w) = Inr (Some d))) \<and>
     (\<forall>ch n w. \<not> isl (fst (am_BasicConsume am ch n [] True True False 1 w))) \<and>
     (\<forall>ch tag n ms w. bv_consumer v w ch tag = Some n \<longrightarrow> bv_sent v w ch tag @ bv_ready v w n \<noteq> [] \<longrightarrow> 0 \<le> ms \<longrightarrow>
        (\<exists>d. fst (am_BasicConsumeMessage am ch tag ms w) = Inr (Some d)))"

lemma did_not_throw: "\<not> isl (fst c) \<Longrightarrow> \<exists>x w'. c = (Inr x, w')"
  by (cases c; cases "fst c") auto

lemma reliable_calls:
  assumes "reliable_broker am v"
  shows "\<not> stop_seen am w" "\<exists>ch w'. am_Create am opts w = (Inr ch, w')"
    "\<exists>w'. am_DeclareQueue am ch n False False False False w = (Inr (), w')"
    "\<exists>w'. am_BasicPublish am ch [] n bm w = (Inr (), w')"
    "bv_ready v w n \<noteq> [] \<Longrightarrow> \<exists>d w'. am_BasicGet am ch n True w = (Inr (Some d), w')"
    "\<exists>tag w'. am_BasicConsume am ch n [] True True False 1 w = (Inr tag, w')"
    "bv_consumer v w ch tag = Some n \<Longrightarrow> bv_sent v w ch tag @ bv_ready v w n \<noteq> [] \<Longrightarrow> 0 \<le> ms \<Longrightarrow>
      \<exists>d w'. am_BasicConsumeMessage am ch tag ms w = (Inr (Some d), w')"
proof -
  note r = assms [unfolded reliable_broker_def]
  show "\<not> stop_seen am w" using r by simp
  show "\<exists>ch w'. am_Create am opts w = (Inr ch, w')" by (rule did_not_throw) (use r in simp)
  show "\<exists>w'. am_DeclareQueue am ch n False False False False w = (Inr (), w')"
    using did_not_throw [of "am_DeclareQueue am ch n False False False False w"] r by auto
  show "\<exists>w'. am_BasicPublish am ch [] n bm w = (Inr (), w')" using did_not_throw [of "am_BasicPublish am ch [] n bm w"] r by auto
  show "\<exists>tag w'. am_BasicConsume am ch n [] True True False 1 w = (Inr tag, w')" by (rule did_not_throw) (use r in simp)
  show "\<exists>d w'. am_BasicGet am ch n True w = (Inr (Some d), w')" if "bv_ready v w n \<noteq> []"
    using r that by (metis prod.collapse)
  show "\<exists>d w'. am_BasicConsumeMessage am ch tag ms w = (Inr (Some d), w')"
    if "bv_consumer v w ch tag = Some n" "bv_sent v w ch tag @ bv_ready v w n \<noteq> []" "0 \<le> ms"
    using r that by (metis prod.collapse)
qed

definition rb_live :: "('w, 'ch, 'd) RabbitMqSimpleTransport \<Rightarrow> bool" where
  "rb_live t \<longleftrightarrow> (\<exists>st. rb_ptr t = Some st \<and> \<not> rb_stopped st)"

lemma reliable_up: "reliable_broker am v \<Longrightarrow> \<not> rb_stopped st \<Longrightarrow> \<not> rb_is_stopped am st w"
  by (simp add: rb_is_stopped_def reliable_calls(1))

lemma reliable_send:
  assumes "reliable_broker am v" and "n \<noteq> []" and "rb_live t"
  shows "\<exists>t'. rb_send am api \<lparr>addr_name = n\<rparr> e default_send_args t = (success, t') \<and> rb_live t'"
proof -
  obtain st where st: "rb_ptr t = Some st" "\<not> rb_stopped st" using assms(3) by (auto simp: rb_live_def)
  let ?w = "wait_lock am (rb_world t)"
  obtain ch w1 where c: "(case rb_send_ch st of Some ch \<Rightarrow> (Inr ch, ?w) | None \<Rightarrow> openChannel am (rb_opts st) ?w) = (Inr ch, w1)"
    using reliable_calls(2) [OF assms(1), of "rb_opts st" ?w] by (cases "rb_send_ch st") (auto simp: openChannel_def)
  obtain w2 where q: "am_DeclareQueue am ch n False False False False w1 = (Inr (), w2)"
    using reliable_calls(3) [OF assms(1)] by blast
  obtain w3 where p: "am_BasicPublish am ch [] n (toBasicMessage api e) w2 = (Inr (), w3)"
    using reliable_calls(4) [OF assms(1)] by blast
  show ?thesis
    using st assms(2) reliable_up [OF assms(1) st(2)]
    by (simp add: rb_send_def default_send_args_def c q p rb_live_def Let_def)
qed

lemma reliable_consume:
  assumes rel: "reliable_broker am v" and laws: "broker_laws am v" and up: "\<not> rb_stopped st"
    and ready: "bv_ready v w n \<noteq> []" and args: "ack_mode args = AckAuto" "\<And>ms. recv_timeout args = Some ms \<Longrightarrow> 0 < ms"
  shows "\<exists>d w'. rb_consume am st ch n args w = Some (WaitGot d, w')"
proof -
  obtain tag w1 where c: "am_BasicConsume am ch n [] True True False 1 w = (Inr tag, w1)"
    using reliable_calls(6) [OF rel] by blast
  from broker_lawsD(4) [OF laws, unfolded consume_law_def, rule_format, OF c] ready
  have con: "bv_consumer v w1 ch tag = Some n" "bv_sent v w1 ch tag @ bv_ready v w1 n \<noteq> []" by auto
  note poll = reliable_calls(7) [OF rel con]
  have "\<exists>d w'. (case recv_timeout args of None \<Rightarrow> rb_wait am ch tag st w1
      | Some ms \<Rightarrow> rb_wait_until am ch tag st (steady_now am w1 + ms * 1000000) w1) = Some (WaitGot d, w')"
  proof (cases "recv_timeout args")
    case None
    obtain d w' where "am_BasicConsumeMessage am ch tag 200 w1 = (Inr (Some d), w')" using poll [of 200] by auto
    then show ?thesis using None reliable_up [OF rel up] by (subst rb_wait.simps) simp
  next
    case (Some ms)
    let ?d = "steady_now am w1 + ms * 1000000"
    have ms: "steady_now am w1 < ?d" using args(2) [OF Some] by simp
    then have "0 \<le> wait_ms ?d (steady_now am w1)" using wait_ms_bounds by blast
    from poll [OF this] obtain d w' where
      "am_BasicConsumeMessage am ch tag (wait_ms ?d (steady_now am w1)) w1 = (Inr (Some d), w')" by blast
    then show ?thesis using Some ms reliable_up [OF rel up] by (subst rb_wait_until.simps) simp
  qed
  then show ?thesis using c args(1) by (auto simp: rb_consume_def)
qed

lemma reliable_receive:
  assumes rel: "reliable_broker am v" and laws: "broker_laws am v" and "n \<noteq> []" and "rb_live t"
    and ready: "rb_ready v t n \<noteq> []" and args: "ack_mode args = AckAuto" "\<And>ms. recv_timeout args = Some ms \<Longrightarrow> 0 \<le> ms"
  shows "\<exists>m t'. rb_receive am api \<lparr>addr_name = n\<rparr> args t = Some (Inr m, t') \<and> rb_live t'"
proof -
  obtain st where st: "rb_ptr t = Some st" "\<not> rb_stopped st" using assms(4) by (auto simp: rb_live_def)
  obtain ch w1 where c: "am_Create am (rb_opts st) (rb_world t) = (Inr ch, w1)" using reliable_calls(2) [OF rel] by blast
  obtain w2 where q: "am_DeclareQueue am ch n False False False False w1 = (Inr (), w2)"
    using reliable_calls(3) [OF rel] by blast
  have w2: "bv_ready v w2 n \<noteq> []" using quiet_calls(1) [OF laws c] quiet_calls(2) [OF laws q] ready by simp
  have start: "n \<noteq> []" "\<not> rb_is_stopped am st (rb_world t)" using assms(3) reliable_up [OF rel st(2)] by auto
  show ?thesis
  proof (cases "recv_timeout args = Some 0")
    case True
    obtain d w3 where "am_BasicGet am ch n True w2 = (Inr (Some d), w3)" using reliable_calls(5) [OF rel w2] by blast
    then show ?thesis using st start c q args(1) True
      by (simp add: rb_receive_def openChannel_def makeMessageFromDelivery_def rb_live_def Let_def)
  next
    case False
    have "0 < ms" if "recv_timeout args = Some ms" for ms using args(2) [OF that] that False by (cases "ms = 0") auto
    from reliable_consume [OF rel laws st(2) w2 args(1) this] obtain d w3 where
      "rb_consume am st ch n args w2 = Some (WaitGot d, w3)" by blast
    then show ?thesis using st start c q args(1) False
      by (simp add: rb_receive_def openChannel_def makeMessageFromDelivery_def rb_live_def Let_def)
  qed
qed

text \<open>The broker of the instance does not fail, and a wait empties its queue.\<close>

lemma model_reliable: "reliable_broker model_amqp model_view"
  by (auto simp: reliable_broker_def model_amqp_def model_view_def mb_poll_def split: list.split)

lemma model_consume:
  assumes "mb_ready w n = bm # rest" and "\<not> rb_stopped st" and "ack_mode args = AckAuto"
    and "\<And>ms. recv_timeout args = Some ms \<Longrightarrow> 0 < ms"
  shows "rb_consume model_amqp st ch n args w =
    Some (WaitGot bm, w\<lparr>mb_ready := (mb_ready w)(n := []), mb_consumer := None\<rparr>)"
proof -
  have up: "\<not> rb_is_stopped model_amqp st w'" for w' using reliable_up [OF model_reliable assms(2)] .
  show ?thesis
  proof (cases "recv_timeout args")
    case None
    then show ?thesis using assms(1,3) up
      by (simp add: rb_consume_def rb_wait.simps model_amqp_def mb_poll_def cancel_consumer_def)
  next
    case (Some ms)
    with assms(4) [OF Some] show ?thesis using assms(1,3) up
      by (simp add: rb_consume_def rb_wait_until.simps model_amqp_def mb_poll_def cancel_consumer_def)
  qed
qed

lemma model_receive:
  assumes "n \<noteq> []" and "rb_live t" and "mb_ready (rb_world t) n = bm # rest" and "ack_mode args = AckAuto"
    and "\<And>ms. recv_timeout args = Some ms \<Longrightarrow> 0 < ms"
  shows "\<exists>m t'. rb_receive model_amqp api \<lparr>addr_name = n\<rparr> args t = Some (Inr m, t') \<and> rb_live t' \<and>
    envelope m = fromBasicMessage api bm \<and> mb_ready (rb_world t') = (mb_ready (rb_world t))(n := [])"
proof -
  obtain st where st: "rb_ptr t = Some st" "\<not> rb_stopped st" using assms(2) by (auto simp: rb_live_def)
  have "recv_timeout args \<noteq> Some 0" using assms(5) by auto
  moreover have "am_Create model_amqp opts w = (Inr (), w)" "am_DeclareQueue model_amqp ch n b1 b2 b3 b4 w = (Inr (), w)"
    "am_Message model_amqp bm = bm" for opts w ch b1 b2 b3 b4 by (simp_all add: model_amqp_def)
  ultimately show ?thesis
    using st reliable_up [OF model_reliable st(2)] assms(1,4) model_consume [OF assms(3) st(2) assms(4,5)]
    by (simp add: rb_receive_def openChannel_def makeMessageFromDelivery_def rb_live_def Let_def)
qed

section \<open>Properties\<close>

text \<open>
  C13: a receive that waits loses what the broker sent ahead. With a broker that behaves as documented, a
  successful receive with automatic acknowledgement returns the first message of the queue, and touches
  no other queue. A poll (timeout zero) leaves all others where they were. A wait ends with the cancellation of its own
  consumer, and the messages behind the first are split in two: those that the broker had
  sent to that consumer without its handing them out are gone, the others stay in the queue in their order.
\<close>

theorem rb_wait_loses_what_was_sent:
  assumes "broker_laws am v" and "ack_mode args = AckAuto"
    and "rb_receive am api \<lparr>addr_name = n\<rparr> args t = Some (Inr m, t')"
  shows "\<exists>bm lost rest. rb_ready v t n = bm # lost @ rest \<and> envelope m = fromBasicMessage api bm \<and>
    rb_ready v t' = (rb_ready v t)(n := rest) \<and>
    (if recv_timeout args = Some 0 then lost = []
     else \<exists>ch tag w. rb_world t' = snd (am_BasicCancel am ch tag w) \<and> bv_consumer v w ch tag = Some n \<and>
       bv_sent v w ch tag = lost)"
  using receive_ready [OF assms] by (fastforce simp: rb_takes_def dropped_def)

text \<open>With the broker of the instance, which sends all it has: two messages are there, a wait loses the second.\<close>

theorem rb_wait_loses_what_was_sent_witness:
  "\<exists>t m t' lost. mb_ready (rb_world t) ''q'' = map (\<lambda>b. toBasicMessage plain_api (empty_envelope\<lparr>payload := b\<rparr>)) [''a'', ''b''] \<and>
     rb_receive model_amqp plain_api \<lparr>addr_name = ''q''\<rparr> \<lparr>recv_timeout = Some 500, ack_mode = AckAuto\<rparr> t =
       Some (Inr m, t') \<and> payload (envelope m) = ''a'' \<and> mb_ready (rb_world t') ''q'' = [] \<and>
     lost = [toBasicMessage plain_api (empty_envelope\<lparr>payload := ''b''\<rparr>)] \<and>
     (\<exists>w. rb_world t' = w\<lparr>mb_consumer := None\<rparr> \<and> mb_consumer w = Some (''q'', lost))"
proof -
  let ?bm = "\<lambda>b. toBasicMessage plain_api (empty_envelope\<lparr>payload := b\<rparr>)"
  let ?args = "\<lparr>recv_timeout = Some 500, ack_mode = AckAuto\<rparr>"
  define t :: "(model_broker, unit, plain_message) RabbitMqSimpleTransport" where
    "t = createTransport_RabbitMq RabbitMqSimple_default (model_start\<lparr>mb_ready := (\<lambda>_. map ?bm [''a'', ''b''])\<rparr>)"
  have t: "rb_live t" "mb_ready (rb_world t) ''q'' = [?bm ''a'', ?bm ''b'']"
    by (simp_all add: t_def rb_live_def createTransport_RabbitMq_def)
  from model_receive [OF _ t, of ?args plain_api] obtain m t' where
    r: "rb_receive model_amqp plain_api \<lparr>addr_name = ''q''\<rparr> ?args t = Some (Inr m, t')"
      "mb_ready (rb_world t') ''q'' = []" by auto
  from rb_wait_loses_what_was_sent [OF model_laws _ r(1)] t(2) r(2) obtain w where
    w: "envelope m = fromBasicMessage plain_api (?bm ''a'')" "rb_world t' = w\<lparr>mb_consumer := None\<rparr>"
      "mb_consumer w = Some (''q'', [?bm ''b''])"
    by (auto simp: model_view_def model_amqp_def split: option.splits)
  moreover have "payload (fromBasicMessage plain_api (?bm ''a'')) = ''a''"
    by (simp add: plain_envelope_unchanged [OF plain_api_laws] empty_envelope_def)
  ultimately show ?thesis using r t(2) by (intro exI [of _ t] exI [of _ m] exI [of _ t']) auto
qed

end
