(* ===== verification/Qrm_Rabbit.thy ===== *)
theory Qrm_Rabbit
  imports Qrm_Batch Rabbit_Queues
begin

text \<open>
  The QRM workflow over RabbitMQ, as it is deployed: the clients and the three programs are processes with a
  transport each, and the broker is what they share. (The workers of QOffload are parties too, for the theory
  \<open>Full_Rabbit\<close>.) A wait during which other processes publish is represented by the same
  wait begun when the first of its messages is there. What holds over the in-memory transport holds
  here up to loss: tasks keep their order and are not duplicated, but a task can be lost in
  every queue (theory \<open>Rabbit_Queues\<close>).
\<close>

datatype party = ClientParty | SchedulerParty | CompilerParty | SubmitterParty
  | TaskLocalParty | TaskQrmParty | ResultLocalParty

record ('w, 'ch, 'd) rb_system =
  rs_ports :: "party \<Rightarrow> 'ch rb_state option \<times> ('ch, 'd) AckState list"
  rs_world :: 'w

definition rs_transport :: "party \<Rightarrow> ('w, 'ch, 'd) rb_system \<Rightarrow> ('w, 'ch, 'd) RabbitMqSimpleTransport" where
  "rs_transport p s = \<lparr>rb_ptr = fst (rs_ports s p), rb_world = rs_world s, rb_acks = snd (rs_ports s p)\<rparr>"

definition rs_update ::
  "party \<Rightarrow> ('w, 'ch, 'd) RabbitMqSimpleTransport \<Rightarrow> ('w, 'ch, 'd) rb_system \<Rightarrow> ('w, 'ch, 'd) rb_system" where
  "rs_update p t s = s\<lparr>rs_ports := (rs_ports s)(p := (rb_ptr t, rb_acks t)), rs_world := rb_world t\<rparr>"

definition rs_initial :: "(party \<Rightarrow> RabbitMqSimple_options) \<Rightarrow> 'w \<Rightarrow> ('w, 'ch, 'd) rb_system" where
  "rs_initial opts w = \<lparr>rs_ports = (\<lambda>p. let t = createTransport_RabbitMq (opts p) w in (rb_ptr t, rb_acks t)),
     rs_world = w\<rparr>"

text \<open>
  The messenger operations of a party. Every receive of the repository's programs asks for automatic
  acknowledgement (\<^verbatim>\<open>AckMode::Auto\<close>), and so do the clients.
\<close>

definition rs_send ::
  "('w, 'ch, 'bm, 'd) amqp \<Rightarrow> ('bm, 'tv) bm_api \<Rightarrow> ('m \<Rightarrow> string option) \<Rightarrow> party \<Rightarrow> ('m, ('w, 'ch, 'd) rb_system) snd_op"
  where
  "rs_send am api ser p a v args s =
     (let (st, t) = messenger_send (ProtoJson_encode ser) (rb_send am api) a v args (rs_transport p s)
      in (st, rs_update p t s))"

definition rs_receive ::
  "('w, 'ch, 'bm, 'd) amqp \<Rightarrow> ('bm, 'tv) bm_api \<Rightarrow> (string \<Rightarrow> 'm option) \<Rightarrow> party \<Rightarrow> ('m, ('w, 'ch, 'd) rb_system) recv"
  where
  "rs_receive am api par p a args s =
     map_option (\<lambda>(r, t). (r, rs_update p t s))
       (messenger_receive (ProtoJson_decode par) (rb_receive am api) a (args\<lparr>ack_mode := AckAuto\<rparr>) (rs_transport p s))"

definition rs_qrm_ops ::
  "('w, 'ch, 'bm, 'd) amqp \<Rightarrow> ('bm, 'tv) bm_api \<Rightarrow> (QuantumTask \<Rightarrow> string option) \<Rightarrow> (string \<Rightarrow> QuantumTask option) \<Rightarrow>
   (QuantumResult \<Rightarrow> string option) \<Rightarrow> (string \<Rightarrow> QuantumResult option) \<Rightarrow> ('w, 'ch, 'd) rb_system qrm_ops" where
  "rs_qrm_ops am api ser par rser rpar = \<lparr>po_submit = rs_send am api ser ClientParty,
     po_scheduler_receive = rs_receive am api par SchedulerParty, po_scheduler_send = rs_send am api ser SchedulerParty,
     po_compiler_receive = rs_receive am api par CompilerParty, po_compiler_send = rs_send am api ser CompilerParty,
     po_submitter_receive = rs_receive am api par SubmitterParty,
     po_submitter_send = rs_send am api rser SubmitterParty,
     po_fetch = rs_receive am api rpar ClientParty\<rparr>"

text \<open>The envelopes in a queue of the broker.\<close>

definition rs_queue ::
  "('w, 'ch, 'bm) broker_view \<Rightarrow> ('bm, 'tv) bm_api \<Rightarrow> ('w, 'ch, 'd) rb_system \<Rightarrow> string \<Rightarrow> Envelope list" where
  "rs_queue v api s n = map (fromBasicMessage api) (bv_ready v (rs_world s) n)"

lemma rs_world_simps [simp]: "rb_world (rs_transport p s) = rs_world s" "rs_world (rs_update p t s) = rb_world t"
  by (simp_all add: rs_transport_def rs_update_def)

lemma json_envelope_unchanged:
  "bm_laws api \<Longrightarrow> ProtoJson_encode ser v = Inr e \<Longrightarrow> fromBasicMessage api (toBasicMessage api e) = e"
  by (rule plain_envelope_unchanged)
    (auto simp: ProtoJson_encode_def empty_envelope_def split: option.splits)

text \<open>The contract of typed queues, with losses, between any two parties.\<close>

lemma rs_typed_queue:
  assumes laws: "broker_laws am v" and api: "bm_laws api"
  shows "typed_queue True (ProtoJson_encode ser) (ProtoJson_decode par) (rs_send am api ser p)
    (rs_receive am api par p') (rs_queue v api)"
proof
  fix n w args t st t'
  assume snd: "rs_send am api ser p \<lparr>addr_name = n\<rparr> w args t = (st, t')"
  show "(\<not> ok st \<and> rs_queue v api t' = rs_queue v api t) \<or> ((ok st \<or> True) \<and>
    (\<exists>e. ProtoJson_encode ser w = Inr e \<and> rs_queue v api t' = (rs_queue v api t)(n := rs_queue v api t n @ [e])))"
  proof (cases "ProtoJson_encode ser w")
    case (Inl s)
    then have "t' = rs_update p (rs_transport p t) t" "\<not> ok st"
      using snd by (auto simp: rs_send_def messenger_send_def ProtoJson_encode_def split: option.splits)
    then show ?thesis by (simp add: rs_queue_def fun_eq_iff)
  next
    case (Inr e)
    then obtain u where u: "rb_send am api \<lparr>addr_name = n\<rparr> e args (rs_transport p t) = (st, u)" "t' = rs_update p u t"
      using snd by (auto simp: rs_send_def messenger_send_def split: prod.splits)
    from send_ready [OF laws u(1)] json_envelope_unchanged [OF api Inr] Inr show ?thesis
      by (auto simp: u(2) rs_queue_def fun_eq_iff)
  qed
next
  fix n args t r t'
  assume "rs_receive am api par p' \<lparr>addr_name = n\<rparr> args t = Some (r, t')"
  then obtain x u where u: "rb_receive am api \<lparr>addr_name = n\<rparr> (args\<lparr>ack_mode := AckAuto\<rparr>) (rs_transport p' t) = Some (x, u)"
    "t' = rs_update p' u t" "r = (case x of Inl e \<Rightarrow> Inl e | Inr m \<Rightarrow> ProtoJson_decode par (envelope m))"
    by (auto simp: rs_receive_def messenger_receive_def messenger_receiveExtended_def split: option.splits sum.splits)
  have "\<exists>ms. bv_ready v (rb_world u) = (bv_ready v (rs_world t))(n := ms) \<and> (case x of
       Inl e \<Rightarrow> suffix ms (bv_ready v (rs_world t) n)
     | Inr m \<Rightarrow> \<exists>bm q. bv_ready v (rs_world t) n = bm # q \<and> suffix ms q \<and> envelope m = fromBasicMessage api bm)"
    using receive_ready [OF laws _ u(1)] by (cases x) (auto simp: rb_takes_def suffix_def)
  then obtain ms where
    ms: "bv_ready v (rb_world u) = (bv_ready v (rs_world t))(n := ms)" "case x of
       Inl e \<Rightarrow> suffix ms (bv_ready v (rs_world t) n)
     | Inr m \<Rightarrow> \<exists>bm q. bv_ready v (rs_world t) n = bm # q \<and> suffix ms q \<and> envelope m = fromBasicMessage api bm"
    by blast
  have queue: "rs_queue v api t' = (rs_queue v api t)(n := map (fromBasicMessage api) ms)"
    by (simp add: rs_queue_def u(2) ms(1) fun_eq_iff)
  show "(\<exists>es. isl r \<and> remains True (rs_queue v api t n) es \<and> rs_queue v api t' = (rs_queue v api t)(n := es)) \<or>
    (\<exists>e es es'. rs_queue v api t n = e # es \<and> remains True es es' \<and> r = ProtoJson_decode par e \<and>
      rs_queue v api t' = (rs_queue v api t)(n := es'))"
  proof (cases x)
    case (Inl e)
    then show ?thesis
      using ms(2) u(3) map_mono_suffix [of ms _ "fromBasicMessage api"] unfolding queue
      by (intro disjI1 exI [of _ "map (fromBasicMessage api) ms"]) (simp add: rs_queue_def)
  next
    case (Inr m)
    then obtain bm q where "bv_ready v (rs_world t) n = bm # q" "suffix ms q" "envelope m = fromBasicMessage api bm"
      using ms(2) by auto
    then show ?thesis
      using Inr u(3) map_mono_suffix [of ms q "fromBasicMessage api"] unfolding queue
      by (intro disjI2 exI [of _ "fromBasicMessage api bm"] exI [of _ "map (fromBasicMessage api) q"]
          exI [of _ "map (fromBasicMessage api) ms"]) (simp add: rs_queue_def)
  qed
qed

lemma rs_workflow:
  assumes "broker_laws am v" and "bm_laws api"
  shows "workflow_queues True (ProtoJson_encode ser) (ProtoJson_decode par) (ProtoJson_encode rser)
    (ProtoJson_decode rpar) (rs_queue v api) (rs_qrm_ops am api ser par rser rpar)"
  unfolding workflow_queues_def task_queue_def rs_qrm_ops_def qrm_ops.simps
  by (intro conjI rs_typed_queue assms)

lemma rs_simulation:
  assumes "broker_laws am v" and "bm_laws api" and "wire_sound ser par" and "wire_sound rser rpar"
    and "queues_distinct config"
  shows "simulation (qrm_step (rs_qrm_ops am api ser par rser rpar) mlir qdmi ndebug beyond config) (ap_step True)
    (pipe_rel True (ProtoJson_encode ser) (ProtoJson_encode rser) (rs_queue v api) config)"
  using workflow_queues.workflow_simulates [OF rs_workflow [OF assms(1,2)] json_sound [OF assms(3)] json_sound [OF assms(4)]]
    assms(5) by unfold_locales blast

lemma rs_initial_rel:
  assumes "bv_ready v w = (\<lambda>n. [])"
  shows "pipe_rel True tenc renc (rs_queue v api) config (qrm_initial (rs_initial opts w) sc sq) apipe_empty"
  by (simp add: pipe_rel_def pipe_at_def qrm_initial_def apipe_empty_def holds_def rs_queue_def rs_initial_def assms)

text \<open>Two tasks are sent, and the scheduler has its turn.\<close>

abbreviation rs_demo_ops :: "(model_broker, unit, plain_message) rb_system qrm_ops" where
  "rs_demo_ops \<equiv> rs_qrm_ops model_amqp plain_api (table_ser demo_tasks) (map_of demo_tasks)
     (table_ser demo_results) (map_of demo_results)"

definition rs_live :: "('w, 'ch, 'd) rb_system \<Rightarrow> bool" where
  "rs_live s \<longleftrightarrow> (\<forall>p. rb_live (rs_transport p s))"

lemma rs_live_update: "rs_live s \<Longrightarrow> rb_live t \<Longrightarrow> rs_live (rs_update p t s)"
  by (auto simp: rs_live_def rb_live_def rs_transport_def rs_update_def)

lemma rs_demo_send:
  assumes "n \<noteq> []" and "rs_live s" and "ser v = Some x"
  shows "\<exists>s'. rs_send model_amqp plain_api ser p \<lparr>addr_name = n\<rparr> v default_send_args s = (success, s') \<and> rs_live s'"
proof -
  have "rb_live (rs_transport p s)" using assms(2) by (simp add: rs_live_def)
  then obtain t where "rb_send model_amqp plain_api \<lparr>addr_name = n\<rparr> (empty_envelope\<lparr>payload := x,
      content_type := ''application/json''\<rparr>) default_send_args (rs_transport p s) = (success, t)" "rb_live t"
    using reliable_send [OF model_reliable assms(1)] by blast
  with rs_live_update [OF assms(2), of t p] show ?thesis
    by (simp add: rs_send_def messenger_send_def ProtoJson_encode_def assms(3))
qed

lemma rs_demo_receive:
  assumes "n \<noteq> []" and "rs_live s" and "wire_sound ser par"
    and held: "holds (ProtoJson_encode ser) (rs_queue model_view plain_api) s n (v # vs)"
  shows "\<exists>s'. rs_receive model_amqp plain_api par p \<lparr>addr_name = n\<rparr> poll_args s = Some (Inr v, s') \<and> rs_live s' \<and>
    rs_queue model_view plain_api s' = (rs_queue model_view plain_api s)(n := [])"
proof -
  have live: "rb_live (rs_transport p s)" using assms(2) by (simp add: rs_live_def)
  obtain bm rest where bm: "mb_ready (rs_world s) n = bm # rest" "ProtoJson_encode ser v = Inr (fromBasicMessage plain_api bm)"
    using held by (cases "mb_ready (rs_world s) n") (auto simp: holds_def rs_queue_def model_view_def)
  have ready: "mb_ready (rb_world (rs_transport p s)) n = bm # rest" using bm(1) by simp
  have args: "poll_args\<lparr>ack_mode := AckAuto\<rparr> = poll_args" by (simp add: poll_args_def)
  obtain m t where t: "rb_receive model_amqp plain_api \<lparr>addr_name = n\<rparr> poll_args (rs_transport p s) = Some (Inr m, t)"
    "rb_live t"
    and m: "rb_ready model_view t = (mb_ready (rs_world s))(n := [])" "envelope m = fromBasicMessage plain_api bm"
    using model_receive [OF assms(1) live ready, of poll_args plain_api]
    by (auto simp: poll_args_def model_view_def)
  have "ProtoJson_decode par (envelope m) = Inr v"
    using json_sound [OF assms(3)] bm(2) m(2) by (simp add: codec_sound_def)
  then have "rs_receive model_amqp plain_api par p \<lparr>addr_name = n\<rparr> poll_args s = Some (Inr v, rs_update p t s)"
    by (simp add: rs_receive_def messenger_receive_def messenger_receiveExtended_def args t(1))
  with rs_live_update [OF assms(2) t(2)] m(1) show ?thesis
    by (auto simp: rs_queue_def model_view_def fun_eq_iff)
qed

text \<open>A send that succeeds puts the value behind the others.\<close>

lemma rs_demo_sent:
  assumes "rs_send model_amqp plain_api ser p \<lparr>addr_name = n\<rparr> v args s = (success, s')"
    and "holds (ProtoJson_encode ser) (rs_queue model_view plain_api) s n vs"
  shows "holds (ProtoJson_encode ser) (rs_queue model_view plain_api) s' n (vs @ [v])"
    "n' \<noteq> n \<Longrightarrow> rs_queue model_view plain_api s' n' = rs_queue model_view plain_api s n'"
  using typed_queue.put_back [OF rs_typed_queue [OF model_laws plain_api_laws] assms(2,1)] by auto

lemma rs_demo_known: "i \<in> {1, 2} \<Longrightarrow> \<exists>x. table_ser demo_tasks (demo_task i) = Some x"
proof -
  assume "i \<in> {1, 2}"
  then have "demo_task i \<in> snd ` set demo_tasks" by (auto simp: demo_tasks_def)
  then show ?thesis using table_known [of "demo_task i" demo_tasks] by blast
qed

abbreviation rs_demo_start :: "(model_broker, unit, plain_message) rb_system" where
  "rs_demo_start \<equiv> rs_initial (\<lambda>_. RabbitMqSimple_default) model_start"

text \<open>The calls of the run: two sends, a receive and a send of the scheduler.\<close>

lemma rs_demo_calls:
  assumes names: "n \<noteq> []" "c \<noteq> []" "c \<noteq> n"
  shows "\<exists>t1 t2 t3 t4.
    rs_send model_amqp plain_api (table_ser demo_tasks) ClientParty \<lparr>addr_name = n\<rparr> (demo_task 1)
      default_send_args rs_demo_start = (success, t1) \<and>
    rs_send model_amqp plain_api (table_ser demo_tasks) ClientParty \<lparr>addr_name = n\<rparr> (demo_task 2)
      default_send_args t1 = (success, t2) \<and>
    rs_receive model_amqp plain_api (map_of demo_tasks) SchedulerParty \<lparr>addr_name = n\<rparr> poll_args t2 =
      Some (Inr (demo_task 1), t3) \<and>
    rs_send model_amqp plain_api (table_ser demo_tasks) SchedulerParty \<lparr>addr_name = c\<rparr> (demo_task 1)
      default_send_args t3 = (success, t4) \<and>
    rs_queue model_view plain_api t4 n = []"
proof -
  let ?ser = "table_ser demo_tasks"
  let ?queue = "rs_queue model_view plain_api"
  have live0: "rs_live rs_demo_start"
    by (simp add: rs_live_def rb_live_def rs_transport_def rs_initial_def createTransport_RabbitMq_def Let_def)
  have empty0: "holds (ProtoJson_encode ?ser) ?queue rs_demo_start n []" "?queue rs_demo_start c = []"
    by (simp_all add: holds_def rs_queue_def rs_initial_def model_view_def model_start_def)
  obtain t1 where t1: "rs_send model_amqp plain_api ?ser ClientParty \<lparr>addr_name = n\<rparr> (demo_task 1)
      default_send_args rs_demo_start = (success, t1)" "rs_live t1"
    using rs_demo_known [of 1] rs_demo_send [OF names(1) live0, of ?ser "demo_task 1" _ ClientParty] by auto
  obtain t2 where t2: "rs_send model_amqp plain_api ?ser ClientParty \<lparr>addr_name = n\<rparr> (demo_task 2)
      default_send_args t1 = (success, t2)" "rs_live t2"
    using rs_demo_known [of 2] rs_demo_send [OF names(1) t1(2), of ?ser "demo_task 2" _ ClientParty] by auto
  note h1 = rs_demo_sent(1) [OF t1(1) empty0(1)] and c1 = rs_demo_sent(2) [OF t1(1) empty0(1) names(3)]
  have "holds (ProtoJson_encode ?ser) ?queue t2 n (demo_task 1 # [demo_task 2])"
    using rs_demo_sent(1) [OF t2(1) h1] by simp
  from rs_demo_receive [OF names(1) t2(2) demo_sound(1) this, of SchedulerParty] obtain t3 where
    t3: "rs_receive model_amqp plain_api (map_of demo_tasks) SchedulerParty \<lparr>addr_name = n\<rparr> poll_args t2 =
        Some (Inr (demo_task 1), t3)" "rs_live t3" "?queue t3 = (?queue t2)(n := [])" by blast
  obtain t4 where t4: "rs_send model_amqp plain_api ?ser SchedulerParty \<lparr>addr_name = c\<rparr> (demo_task 1)
      default_send_args t3 = (success, t4)"
    using rs_demo_known [of 1] rs_demo_send [OF names(2) t3(2), of ?ser "demo_task 1" _ SchedulerParty] by auto
  have "?queue t3 c = []"
    using rs_demo_sent(2) [OF t2(1) h1 names(3)] c1 empty0(2) names(3) unfolding t3(3) by simp
  from rs_demo_sent(2) [OF t4 holds_nil [of ?queue, OF this], of n] names(3) t3(3)
  have "?queue t4 n = []" by simp
  with t1(1) t2(1) t3(1) t4 show ?thesis by blast
qed

lemma rs_demo_run:
  "\<exists>s. (qrm_step rs_demo_ops echo_mlir demo_qdmi False 0 demo_config)\<^sup>*\<^sup>* (qrm_initial rs_demo_start () []) s \<and>
    qs_submitted s = [demo_task 1, demo_task 2] \<and> qs_attempted s = qs_submitted s \<and>
    rs_queue model_view plain_api (qs_transport s) (queue_scheduler (qrm_queues demo_config)) = []"
proof -
  let ?step = "qrm_step rs_demo_ops echo_mlir demo_qdmi False 0 demo_config"
  let ?n = "queue_scheduler (qrm_queues demo_config)" and ?c = "queue_compiler (qrm_queues demo_config)"
  let ?s0 = "qrm_initial rs_demo_start () ([] :: job_parameter list)"
  have names: "?n \<noteq> []" "?c \<noteq> []" "?c \<noteq> ?n"
    using demo_queues(1,2) by (auto simp: queues_distinct_def queues_named_def)
  have dest: "qt_result_destination (demo_task i) = queue_results (qrm_queues demo_config)" for i
    by (simp add: demo_queues(3)) (simp add: demo_task_def)
  obtain t1 t2 t3 t4 where
    t: "po_submit rs_demo_ops \<lparr>addr_name = ?n\<rparr> (demo_task 1) default_send_args rs_demo_start = (success, t1)"
      "po_submit rs_demo_ops \<lparr>addr_name = ?n\<rparr> (demo_task 2) default_send_args t1 = (success, t2)"
      "po_scheduler_receive rs_demo_ops \<lparr>addr_name = ?n\<rparr> poll_args t2 = Some (Inr (demo_task 1), t3)"
      "po_scheduler_send rs_demo_ops \<lparr>addr_name = ?c\<rparr> (demo_task 1) default_send_args t3 = (success, t4)"
      "rs_queue model_view plain_api t4 ?n = []"
    using rs_demo_calls [OF names] unfolding rs_qrm_ops_def qrm_ops.simps by blast
  define s1 where "s1 = ?s0\<lparr>qs_transport := t1, qs_attempted := [demo_task 1], qs_submitted := [demo_task 1]\<rparr>"
  define s2 where "s2 = s1\<lparr>qs_transport := t2, qs_attempted := [demo_task 1, demo_task 2],
    qs_submitted := [demo_task 1, demo_task 2]\<rparr>"
  have "?step ?s0 s1"
    using qrm_step.submit [OF dest, of rs_demo_ops 1 ?s0 success t1] t(1) by (simp add: qrm_initial_def s1_def)
  moreover have "?step s1 s2"
    using qrm_step.submit [OF dest, of rs_demo_ops 2 s1 success t2] t(2) by (simp add: s1_def s2_def qrm_initial_def)
  moreover obtain p where p: "scheduler_round (po_scheduler_receive rs_demo_ops) (po_scheduler_send rs_demo_ops) demo_config
      \<lparr>qp_world = qs_transport s2, qp_log = qs_scheduler_log s2\<rparr> = Some p" "qp_world p = t4"
    using scheduler_round_forwards [where p = "\<lparr>qp_world = qs_transport s2, qp_log = qs_scheduler_log s2\<rparr>" and
        receive = "po_scheduler_receive rs_demo_ops" and send = "po_scheduler_send rs_demo_ops" and config = demo_config]
      t(3,4) by (auto simp: s2_def)
  moreover have "?step s2 (s2\<lparr>qs_transport := qp_world p, qs_scheduler_log := qp_log p\<rparr>)"
    using p(1) by (rule qrm_step.schedule)
  ultimately have "?step\<^sup>*\<^sup>* ?s0 (s2\<lparr>qs_transport := qp_world p, qs_scheduler_log := qp_log p\<rparr>)"
    by (meson converse_rtranclp_into_rtranclp rtranclp.rtrancl_refl)
  then show ?thesis
    by (rule exI [of _ "s2\<lparr>qs_transport := qp_world p, qs_scheduler_log := qp_log p\<rparr>", OF conjI])
      (simp add: s2_def p(2) t(5))
qed

section \<open>Properties\<close>

text \<open>
  C5: over RabbitMQ too, results come back in the order of submission and at most once. Whatever the
  interleaving and whatever fails or is lost, with a broker and a client library that behave as
  documented: in every reachable state of the deployed workflow, the task ids of the results delivered, then of the
  results waiting, then of the tasks in the submitter's, the compiler's and the scheduler's queue
  form a subsequence of the ids of the tasks that the clients tried to submit.
\<close>

theorem rabbit_workflow_keeps_order:
  assumes "(qrm_step (rs_qrm_ops am api ser par rser rpar) mlir qdmi ndebug beyond config)\<^sup>*\<^sup>*
      (qrm_initial (rs_initial opts w) sc sq) s"
    and "broker_laws am v" and "bm_laws api" and "bv_ready v w = (\<lambda>n. [])"
    and "wire_sound ser par" and "wire_sound rser rpar" and "queues_distinct config"
  shows "\<exists>rs ts3 ts2 ts1.
    holds (ProtoJson_encode rser) (rs_queue v api) (qs_transport s) (queue_results (qrm_queues config)) rs \<and>
    holds (ProtoJson_encode ser) (rs_queue v api) (qs_transport s) (queue_submitter (qrm_queues config)) ts3 \<and>
    holds (ProtoJson_encode ser) (rs_queue v api) (qs_transport s) (queue_compiler (qrm_queues config)) ts2 \<and>
    holds (ProtoJson_encode ser) (rs_queue v api) (qs_transport s) (queue_scheduler (qrm_queues config)) ts1 \<and>
    subseq (map qr_task_id (qs_delivered s @ rs) @ map qt_task_id (ts3 @ ts2 @ ts1))
      (map qt_task_id (qs_attempted s))"
proof -
  obtain a where "pipe_rel True (ProtoJson_encode ser) (ProtoJson_encode rser) (rs_queue v api) config s a" "ap_ordered a"
    using simulation.transfer_invariant [where P = ap_ordered, OF rs_simulation [OF assms(2,3,5-7)] _ assms(1)
        rs_initial_rel [OF assms(4)]] ap_step_ordered ap_ordered_empty by blast
  then show ?thesis using pipe_rel_ordered by fastforce
qed

text \<open>At the example, two tasks have been sent and only the first is left.\<close>

theorem rabbit_workflow_keeps_order_witness:
  "\<exists>s. (qrm_step rs_demo_ops echo_mlir demo_qdmi False 0 demo_config)\<^sup>*\<^sup>*
      (qrm_initial (rs_initial (\<lambda>_. RabbitMqSimple_default) model_start) () []) s \<and>
    qs_submitted s = [demo_task 1, demo_task 2] \<and>
    rs_queue model_view plain_api (qs_transport s) (queue_scheduler (qrm_queues demo_config)) = [] \<and>
    (\<exists>rs (ts3 :: QuantumTask list) (ts2 :: QuantumTask list). subseq (map qr_task_id (qs_delivered s @ rs) @ map qt_task_id (ts3 @ ts2)) [1, 2])"
proof -
  obtain s where s: "(qrm_step rs_demo_ops echo_mlir demo_qdmi False 0 demo_config)\<^sup>*\<^sup>*
      (qrm_initial (rs_initial (\<lambda>_. RabbitMqSimple_default) model_start) () []) s"
    "qs_submitted s = [demo_task 1, demo_task 2]" "qs_attempted s = qs_submitted s"
    "rs_queue model_view plain_api (qs_transport s) (queue_scheduler (qrm_queues demo_config)) = []"
    using rs_demo_run by blast
  have start: "bv_ready model_view model_start = (\<lambda>n. [])" by (simp add: model_view_def model_start_def)
  from rabbit_workflow_keeps_order [OF s(1) model_laws plain_api_laws start demo_sound demo_queues(1)]
  obtain rs ts3 ts2 ts1 where
    "holds (ProtoJson_encode (table_ser demo_tasks)) (rs_queue model_view plain_api) (qs_transport s)
      (queue_scheduler (qrm_queues demo_config)) ts1"
    "subseq (map qr_task_id (qs_delivered s @ rs) @ map qt_task_id (ts3 @ ts2 @ ts1)) (map qt_task_id (qs_attempted s))"
    by blast
  with s(2-4) have "subseq (map qr_task_id (qs_delivered s @ rs) @ map qt_task_id (ts3 @ ts2)) [1, 2]"
    by (simp add: holds_def demo_task_def)
  then have "\<exists>rs (ts3 :: QuantumTask list) (ts2 :: QuantumTask list). subseq (map qr_task_id (qs_delivered s @ rs) @ map qt_task_id (ts3 @ ts2)) [1, 2]"
    by blast
  with s(1,2,4) show ?thesis by (intro exI [of _ s] conjI)
qed

text \<open>
  C11: the deployed workflow implements a lossy pipeline. Whatever the interleaving of the rounds of the programs and of
  the clients, whatever the library calls answer, and whatever fails (messages that cannot be serialized, circuits
  that cannot be compiled, jobs that fail, programs that end), with a broker and a client library that behave as
  documented, four different queue names, and text that parses back to what was serialized: every run of the workflow over RabbitMQ from empty queues is matched by a run of an abstract pipeline of lists,
  with the same tasks tried and results delivered, whose lists are what the broker holds. In the
  pipeline, a submitted task goes to the end of the first list or is lost, a stage moves its first task to the end of the next
  list, translated in its circuits or turned into a result with its identifier, or drops it, and any list may
  at any time shrink to a rest of itself (the backlog that a wait loses, theory \<open>Rabbit_Queues\<close>). So nothing overtakes, nothing is
  duplicated, and nothing comes from nowhere.
\<close>

theorem rabbit_workflow_implements_pipeline:
  assumes "(qrm_step (rs_qrm_ops am api ser par rser rpar) mlir qdmi ndebug beyond config)\<^sup>*\<^sup>*
      (qrm_initial (rs_initial opts w) sc sq) s"
    and "broker_laws am v" and "bm_laws api" and "bv_ready v w = (\<lambda>n. [])"
    and "wire_sound ser par" and "wire_sound rser rpar" and "queues_distinct config"
  shows "\<exists>a. (ap_step True)\<^sup>*\<^sup>* apipe_empty a \<and>
    pipe_rel True (ProtoJson_encode ser) (ProtoJson_encode rser) (rs_queue v api) config s a"
  using simulation.run_simulates [OF rs_simulation [OF assms(2,3,5-7)] assms(1) rs_initial_rel [OF assms(4)]] by blast

theorem rabbit_workflow_implements_pipeline_witness:
  "\<exists>a. (ap_step True)\<^sup>*\<^sup>* apipe_empty a \<and> ap_submitted a = [demo_task 1, demo_task 2] \<and> ap_at a Scheduling = []"
proof -
  obtain s where s: "(qrm_step rs_demo_ops echo_mlir demo_qdmi False 0 demo_config)\<^sup>*\<^sup>*
      (qrm_initial (rs_initial (\<lambda>_. RabbitMqSimple_default) model_start) () []) s"
    "qs_submitted s = [demo_task 1, demo_task 2]" "qs_attempted s = qs_submitted s"
    "rs_queue model_view plain_api (qs_transport s) (queue_scheduler (qrm_queues demo_config)) = []"
    using rs_demo_run by blast
  have start: "bv_ready model_view model_start = (\<lambda>n. [])" by (simp add: model_view_def model_start_def)
  from rabbit_workflow_implements_pipeline [OF s(1) model_laws plain_api_laws start demo_sound demo_queues(1)] obtain a where
    a: "(ap_step True)\<^sup>*\<^sup>* apipe_empty a" "pipe_rel True (ProtoJson_encode (table_ser demo_tasks))
      (ProtoJson_encode (table_ser demo_results)) (rs_queue model_view plain_api) demo_config s a" by blast
  then have "\<forall>g. holds (ProtoJson_encode (table_ser demo_tasks)) (rs_queue model_view plain_api) (qs_transport s)
      (stage_queue demo_config g) (ap_at a g)" "ap_submitted a = [demo_task 1, demo_task 2]"
    using s(2,3) unfolding pipe_rel_def pipe_at_def by auto
  from this(1) [THEN spec, of Scheduling] this(2) a(1) s(4) show ?thesis by (auto simp: holds_def)
qed

end
