(* ===== verification/Full_Rabbit.thy ===== *)
theory Full_Rabbit
  imports Qrm_Rabbit Delivery
begin

text \<open>
  QOffload and the QRM workflow as they are deployed: every program, and every worker of QOffload, has RabbitMQ
  transports of its own, one for each broker it is configured with (\<^verbatim>\<open>local_messenger\<close>, \<^verbatim>\<open>qrm_messenger\<close>). Here
  the two names stand for one broker, which the source needs too: the submitter answers on its only broker, and QOffload waits for the
  results on its local one. With a broker and a library that do what is
  documented and do not fail, the parties fulfil the contract of the theory \<open>Delivery\<close>.
\<close>

definition rs_stack_ops ::
  "('w, 'ch, 'bm, 'd) amqp \<Rightarrow> ('bm, 'tv) bm_api \<Rightarrow> (QuantumTask \<Rightarrow> string option) \<Rightarrow> (string \<Rightarrow> QuantumTask option) \<Rightarrow>
   (QuantumResult \<Rightarrow> string option) \<Rightarrow> (string \<Rightarrow> QuantumResult option) \<Rightarrow> ('w, 'ch, 'd) rb_system stack_ops" where
  "rs_stack_ops am api ser par rser rpar = \<lparr>po_submit = rs_send am api ser ClientParty,
     po_scheduler_receive = rs_receive am api par SchedulerParty, po_scheduler_send = rs_send am api ser SchedulerParty,
     po_compiler_receive = rs_receive am api par CompilerParty, po_compiler_send = rs_send am api ser CompilerParty,
     po_submitter_receive = rs_receive am api par SubmitterParty,
     po_submitter_send = rs_send am api rser SubmitterParty, po_fetch = rs_receive am api rpar ClientParty,
     so_request = rs_send am api ser ClientParty, so_task_receive = rs_receive am api par TaskLocalParty,
     so_task_send = rs_send am api ser TaskQrmParty, so_result_receive = rs_receive am api rpar ResultLocalParty,
     so_result_send = rs_send am api rser ResultLocalParty, so_answer = rs_receive am api rpar ClientParty\<rparr>"

text \<open>No message waits, and no transport is shut down.\<close>

definition rs_quiet :: "('w, 'ch, 'bm) broker_view \<Rightarrow> ('w, 'ch, 'd) rb_system \<Rightarrow> bool" where
  "rs_quiet v s \<longleftrightarrow> rs_live s \<and> bv_ready v (rs_world s) = (\<lambda>n. [])"

lemma rs_sends:
  assumes laws: "broker_laws am v" and rel: "reliable_broker am v" and enc: "ProtoJson_encode ser m = Inr e"
    and n: "n \<noteq> []" and quiet: "rs_quiet v s"
  shows "\<exists>s'. rs_send am api ser p \<lparr>addr_name = n\<rparr> m default_send_args s = (success, s') \<and> rs_live s' \<and>
    bv_ready v (rs_world s') = (\<lambda>k. if k = n then [toBasicMessage api e] else [])"
proof -
  have live: "rs_live s" "rb_live (rs_transport p s)" using quiet by (simp_all add: rs_quiet_def rs_live_def)
  obtain t where t: "rb_send am api \<lparr>addr_name = n\<rparr> e default_send_args (rs_transport p s) = (success, t)" "rb_live t"
    using reliable_send [OF rel n live(2)] by blast
  have "rb_ready v t = (\<lambda>k. if k = n then [toBasicMessage api e] else [])"
    using send_ready [OF laws t(1)] quiet by (simp add: rs_quiet_def fun_eq_iff)
  with t rs_live_update [OF live(1) t(2)] show ?thesis
    by (simp add: rs_send_def messenger_send_def enc)
qed

lemma rs_brings:
  assumes laws: "broker_laws am v" and rel: "reliable_broker am v" and api: "bm_laws api"
    and n: "n \<noteq> []" and live: "rs_live s" and enc: "ProtoJson_encode ser m = Inr e" "ProtoJson_decode par e = Inr m"
    and ready: "bv_ready v (rs_world s) = (\<lambda>k. if k = n then [toBasicMessage api e] else [])"
  shows "brings (rs_quiet v) (rs_receive am api par p) n m s"
  unfolding brings_def
proof (intro allI impI)
  fix ra
  assume "waits ra"
  let ?ra = "ra\<lparr>ack_mode := AckAuto\<rparr>"
  have ms: "\<And>ms. recv_timeout ?ra = Some ms \<Longrightarrow> 0 \<le> ms" using \<open>waits ra\<close> by (simp add: waits_def)
  have "rb_live (rs_transport p s)" using live by (simp add: rs_live_def)
  moreover have "rb_ready v (rs_transport p s) n \<noteq> []" by (simp add: ready)
  ultimately obtain x t where x: "rb_receive am api \<lparr>addr_name = n\<rparr> ?ra (rs_transport p s) = Some (Inr x, t)" "rb_live t"
    using reliable_receive [OF rel laws n, of "rs_transport p s" ?ra api] ms by auto
  have "rb_takes am v api n ?ra (rs_transport p s) (Inr x, t)"
    by (rule receive_ready [OF laws _ x(1)]) simp
  then have "envelope x = e" "rb_ready v t = (\<lambda>k. [])"
    using json_envelope_unchanged [OF api enc(1)] by (auto simp: rb_takes_def ready fun_eq_iff split: if_splits)
  with x enc(2) rs_live_update [OF live x(2)]
  show "\<exists>s'. rs_receive am api par p \<lparr>addr_name = n\<rparr> ra s = Some (Inr m, s') \<and> rs_quiet v s'"
    by (simp add: rs_receive_def messenger_receive_def messenger_receiveExtended_def rs_quiet_def)
qed

lemma rs_carries:
  assumes "broker_laws am v" and "reliable_broker am v" and "bm_laws api" and "wire_faithful ser par m"
  shows "carries (rs_quiet v) (rs_send am api ser p) (rs_receive am api par p') m"
proof -
  obtain e where e: "ProtoJson_encode ser m = Inr e" "ProtoJson_decode par e = Inr m"
    using json.encode_faithful [OF assms(4)] by blast
  show ?thesis unfolding carries_def
    using rs_sends [OF assms(1,2) e(1)] rs_brings [OF assms(1-3) _ _ e] by blast
qed

lemma rs_workflow_carrier:
  assumes "broker_laws am v" and "reliable_broker am v" and "bm_laws api"
  shows "carrier_workflow (rs_quiet v) (rs_qrm_ops am api ser par rser rpar) (wire_faithful ser par) (wire_faithful rser rpar)"
  by unfold_locales (simp_all add: rs_qrm_ops_def rs_carries [OF assms])

lemma rs_stack:
  assumes "broker_laws am v" and "reliable_broker am v" and "bm_laws api"
  shows "carrier_stack (rs_quiet v) (rs_stack_ops am api ser par rser rpar) (wire_faithful ser par) (wire_faithful rser rpar)"
  by unfold_locales (simp_all add: rs_stack_ops_def rs_carries [OF assms])

lemmas rs_ops = rs_stack_ops_def stack_ops.simps qrm_ops.simps

interpretation rs_model: carrier_stack "rs_quiet model_view" "rs_stack_ops model_amqp plain_api ser par rser rpar"
    "wire_faithful ser par" "wire_faithful rser rpar" for ser par rser rpar
  by (rule rs_stack [OF model_laws model_reliable plain_api_laws])

lemma rs_quiet_start: "rs_quiet model_view rs_demo_start"
  by (simp add: rs_quiet_def rs_live_def rb_live_def rs_transport_def rs_initial_def createTransport_RabbitMq_def
      model_view_def model_start_def Let_def)

text \<open>The two demonstration tasks, as a client of the workflow would have to send them.\<close>

lemma rs_demo_works:
  "list_all (task_works (table_ser demo_tasks) (table_ser demo_results) echo_mlir id demo_qdmi 0 demo_hist demo_config)
     [demo_task 1, demo_task 2]"
  using demo_task_works by simp

section \<open>Properties\<close>



end
