(* ===== verification/Rabbit_Threads.thy ===== *)
theory Rabbit_Threads
  imports Rabbit_Transport
begin

text \<open>
  Any number of threads that share one RabbitMQ transport (\<^verbatim>\<open>src/transport/RabbitMqSimpleTransport.cpp\<close>).
  A thread is in its caller's code, or at a library call or a mutex of \<^verbatim>\<open>send\<close>, \<^verbatim>\<open>receive\<close> or an
  acknowledgement handler; a step ends the call it is at, and goes on to the next. While a thread is
  at a library call, the call is in progress, and the channel it is made on is in use. The operations on a
  delivery under its mutex are \<open>rb_ack\<close> and \<open>rb_nack\<close> as they stand; the steps of the others, run without
  interruption, are \<open>rb_send\<close> and \<open>rb_receive\<close>, as is shown here. The claims of the source's comment on
  concurrency are then properties of every interleaving.
\<close>

section \<open>Threads\<close>

datatype ('w, 'ch, 'd) rb_answer =
    Sent_answer Status
  | Received_answer "('w, 'ch, 'd) RabbitMqSimpleTransport Message Result"
  | Settled_answer Status

datatype ('w, 'ch, 'bm, 'd) rb_pc =
    Outside "('w, 'ch, 'd) rb_answer option"
  | Send_lock string 'bm
  | Send_check string 'bm
  | Send_open string 'bm
  | Send_declare string 'bm 'ch
  | Send_publish string 'bm 'ch
  | Send_unlock Status
  | Recv_open string ReceiveArgs
  | Recv_declare string ReceiveArgs 'ch
  | Recv_get string ReceiveArgs 'ch
  | Recv_consume string ReceiveArgs 'ch
  | Recv_check ReceiveArgs "int option" string 'ch
  | Recv_poll ReceiveArgs "int option" int string 'ch
  | Recv_cancel ReceiveArgs "'d wait_result" string 'ch
  | Settle_lock nat "bool option"
  | Settle_check nat "bool option"
  | Settle_call nat "bool option"
  | Settle_unlock nat Status

text \<open>
  The shared state, the owners of the mutexes, and where each thread is. \<open>rs_settled\<close> is not in the code: it
  lists the deliveries for which an acknowledgement or a rejection has succeeded.
\<close>

record ('w, 'ch, 'bm, 'd) rt_system =
  rs_tr :: "('w, 'ch, 'd) RabbitMqSimpleTransport"
  rs_send_mu :: "nat option"
  rs_ack_mu :: "nat \<Rightarrow> nat option"
  rs_pc :: "nat \<Rightarrow> ('w, 'ch, 'bm, 'd) rb_pc"
  rs_settled :: "nat list"

definition rt_initial :: "RabbitMqSimple_options \<Rightarrow> 'w \<Rightarrow> ('w, 'ch, 'bm, 'd) rt_system" where
  "rt_initial opts w = \<lparr>rs_tr = createTransport_RabbitMq opts w, rs_send_mu = None, rs_ack_mu = (\<lambda>_. None),
     rs_pc = (\<lambda>_. Outside None), rs_settled = []\<rparr>"

definition rs_at ::
  "nat \<Rightarrow> ('w, 'ch, 'bm, 'd) rb_pc \<Rightarrow> ('w, 'ch, 'bm, 'd) rt_system \<Rightarrow> ('w, 'ch, 'bm, 'd) rt_system" where
  "rs_at i pc s = s\<lparr>rs_pc := (rs_pc s)(i := pc)\<rparr>"

definition rt_world :: "'w \<Rightarrow> ('w, 'ch, 'bm, 'd) rt_system \<Rightarrow> ('w, 'ch, 'bm, 'd) rt_system" where
  "rt_world w s = s\<lparr>rs_tr := (rs_tr s)\<lparr>rb_world := w\<rparr>\<rparr>"

section \<open>The calls\<close>

text \<open>What a caller may ask for; \<open>Settle\<close> is the handler of a delivery: ack, or nack with its flag.\<close>

datatype rb_call = Call_send Address Envelope SendArgs | Call_receive Address ReceiveArgs | Call_settle nat "bool option"

fun rs_begin ::
  "('w, 'ch, 'bm, 'd) amqp \<Rightarrow> ('bm, 'tv) bm_api \<Rightarrow> nat \<Rightarrow> rb_call \<Rightarrow> ('w, 'ch, 'bm, 'd) rt_system \<Rightarrow>
   ('w, 'ch, 'bm, 'd) rt_system" where
  "rs_begin am api i (Call_send dest e args) s = rs_at i
     (let done = (\<lambda>st. Outside (Some (Sent_answer st))) in
      if addr_name dest = [] then done (invalidArgument ''send destination name is empty'')
      else if confirm args then done (unsupported ''send confirmation is not supported'')
      else case rb_ptr (rs_tr s) of
          None \<Rightarrow> done (unavailable ''transport not initialized'')
        | Some st \<Rightarrow>
            if rb_is_stopped am st (rb_world (rs_tr s)) then done (unavailable ''transport shut down'')
            else Send_lock (addr_name dest) (toBasicMessage api e)) s"
| "rs_begin am api i (Call_receive src args) s = rs_at i
     (let done = (\<lambda>st. Outside (Some (Received_answer (Inl st)))) in
      if addr_name src = [] then done (invalidArgument ''receive source name is empty'')
      else case rb_ptr (rs_tr s) of
          None \<Rightarrow> done (unavailable ''transport not initialized'')
        | Some st \<Rightarrow>
            if rb_is_stopped am st (rb_world (rs_tr s)) then done (unavailable ''transport shut down'')
            else Recv_open (addr_name src) args) s"
| "rs_begin am api i (Call_settle j q) s = rs_at i (Settle_lock j q) s"

definition recv_failed :: "string \<Rightarrow> ('w, 'ch, 'bm, 'd) rb_pc" where
  "recv_failed x = Outside (Some (Received_answer (Inl (unavailable (''receive failed: '' @ x)))))"

definition recv_deliver ::
  "('w, 'ch, 'bm, 'd) amqp \<Rightarrow> ('bm, 'tv) bm_api \<Rightarrow> nat \<Rightarrow> ReceiveArgs \<Rightarrow> 'ch \<Rightarrow> 'd \<Rightarrow> ('w, 'ch, 'bm, 'd) rt_system \<Rightarrow>
   ('w, 'ch, 'bm, 'd) rt_system" where
  "recv_deliver am api i args ch d s =
     (case makeMessageFromDelivery am api ch d (ack_mode args) (rs_tr s) of
        (m, t) \<Rightarrow> rs_at i (Outside (Some (Received_answer (Inr m)))) (s\<lparr>rs_tr := t\<rparr>))"

text \<open>The library call of a handler, and what it makes of the delivery's state.\<close>

definition settle_call ::
  "('w, 'ch, 'bm, 'd) amqp \<Rightarrow> nat \<Rightarrow> bool option \<Rightarrow> ('w, 'ch, 'd) RabbitMqSimpleTransport \<Rightarrow>
   Status \<times> ('w, 'ch, 'd) RabbitMqSimpleTransport" where
  "settle_call am j q t = (let a = rb_acks t ! j in
     case (case q of
         None \<Rightarrow> am_BasicAck am (ack_ch a) (ack_delivery a) (rb_world t)
       | Some requeue \<Rightarrow> am_BasicReject am (ack_ch a) (ack_delivery a) requeue (rb_world t)) of
       (Inl x, w) \<Rightarrow> (internal ((case q of None \<Rightarrow> ''ack'' | Some b \<Rightarrow> ''nack'') @ '' failed: '' @ x), t\<lparr>rb_world := w\<rparr>)
     | (Inr _, w) \<Rightarrow>
         (success, t\<lparr>rb_world := w, rb_acks := (rb_acks t)[j := a\<lparr>ack_completed := True\<rparr>]\<rparr>))"

text \<open>
  The step of a thread inside a call; \<open>None\<close> if it waits for a mutex (or is not in a call). \<open>st\<close> is the state that the
  shared pointer points to, \<open>w\<close> the world.
\<close>

fun rs_step ::
  "('w, 'ch, 'bm, 'd) amqp \<Rightarrow> ('bm, 'tv) bm_api \<Rightarrow> nat \<Rightarrow> ('w, 'ch, 'bm, 'd) rb_pc \<Rightarrow> 'ch rb_state \<Rightarrow> 'w \<Rightarrow>
   ('w, 'ch, 'bm, 'd) rt_system \<Rightarrow> ('w, 'ch, 'bm, 'd) rt_system option" where
  "rs_step am api i (Outside a) st w s = None"
| "rs_step am api i (Send_lock n bm) st w s =
     (if rs_send_mu s = None then Some (rs_at i (Send_check n bm) (s\<lparr>rs_send_mu := Some i\<rparr>)) else None)"
| "rs_step am api i (Send_check n bm) st w s = Some (rs_at i
     (if rb_is_stopped am st w then Send_unlock (unavailable ''transport shut down'')
      else case rb_send_ch st of None \<Rightarrow> Send_open n bm | Some ch \<Rightarrow> Send_declare n bm ch) s)"
| "rs_step am api i (Send_open n bm) st w s = Some (case openChannel am (rb_opts st) w of
       (Inl x, w') \<Rightarrow> rs_at i (Send_unlock (unavailable (''send failed: '' @ x))) (rt_world w' s)
     | (Inr ch, w') \<Rightarrow> rs_at i (Send_declare n bm ch)
         (s\<lparr>rs_tr := (rs_tr s)\<lparr>rb_ptr := Some (st\<lparr>rb_send_ch := Some ch\<rparr>), rb_world := w'\<rparr>\<rparr>))"
| "rs_step am api i (Send_declare n bm ch) st w s = Some (case am_DeclareQueue am ch n False False False False w of
       (Inl x, w') \<Rightarrow> rs_at i (Send_unlock (unavailable (''send failed: '' @ x))) (rt_world w' s)
     | (Inr _, w') \<Rightarrow> rs_at i (Send_publish n bm ch) (rt_world w' s))"
| "rs_step am api i (Send_publish n bm ch) st w s = Some (case am_BasicPublish am ch [] n bm w of
       (Inl x, w') \<Rightarrow> rs_at i (Send_unlock (unavailable (''send failed: '' @ x))) (rt_world w' s)
     | (Inr _, w') \<Rightarrow> rs_at i (Send_unlock success) (rt_world w' s))"
| "rs_step am api i (Send_unlock r) st w s =
     Some (rs_at i (Outside (Some (Sent_answer r))) (s\<lparr>rs_send_mu := None\<rparr>))"
| "rs_step am api i (Recv_open n args) st w s = Some (case openChannel am (rb_opts st) w of
       (Inl x, w') \<Rightarrow> rs_at i (recv_failed x) (rt_world w' s)
     | (Inr ch, w') \<Rightarrow> rs_at i (Recv_declare n args ch) (rt_world w' s))"
| "rs_step am api i (Recv_declare n args ch) st w s = Some (case am_DeclareQueue am ch n False False False False w of
       (Inl x, w') \<Rightarrow> rs_at i (recv_failed x) (rt_world w' s)
     | (Inr _, w') \<Rightarrow> rs_at i
         (if recv_timeout args = Some 0 then Recv_get n args ch else Recv_consume n args ch) (rt_world w' s))"
| "rs_step am api i (Recv_get n args ch) st w s = Some (case am_BasicGet am ch n (ack_mode args = AckAuto) w of
       (Inl x, w') \<Rightarrow> rs_at i (recv_failed x) (rt_world w' s)
     | (Inr None, w') \<Rightarrow> rs_at i (Outside (Some (Received_answer (Inl (timeout ''no message received''))))) (rt_world w' s)
     | (Inr (Some d), w') \<Rightarrow> recv_deliver am api i args ch d (rt_world w' s))"
| "rs_step am api i (Recv_consume n args ch) st w s =
     Some (case am_BasicConsume am ch n [] True (ack_mode args = AckAuto) False 1 w of
       (Inl x, w') \<Rightarrow> rs_at i (recv_failed x) (rt_world w' s)
     | (Inr tag, w') \<Rightarrow> rs_at i (Recv_check args
         (map_option (\<lambda>ms. steady_now am w' + ms * 1000000) (recv_timeout args)) tag ch) (rt_world w' s))"
| "rs_step am api i (Recv_check args dl tag ch) st w s = Some (rs_at i
     (if rb_is_stopped am st w then Recv_cancel args WaitStopped tag ch
      else case dl of
          None \<Rightarrow> Recv_poll args dl 200 tag ch
        | Some deadline \<Rightarrow>
            if deadline \<le> steady_now am w then Recv_cancel args WaitTimedOut tag ch
            else Recv_poll args dl (wait_ms deadline (steady_now am w)) tag ch) s)"
| "rs_step am api i (Recv_poll args dl ms tag ch) st w s = Some (case am_BasicConsumeMessage am ch tag ms w of
       (Inl x, w') \<Rightarrow> rs_at i (recv_failed x) (rt_world w' s)
     | (Inr None, w') \<Rightarrow> rs_at i (Recv_check args dl tag ch) (rt_world w' s)
     | (Inr (Some d), w') \<Rightarrow> rs_at i (Recv_cancel args (WaitGot d) tag ch) (rt_world w' s))"
| "rs_step am api i (Recv_cancel args r tag ch) st w s =
     (let s' = rt_world (cancel_consumer am ch tag w) s in Some (case r of
        WaitGot d \<Rightarrow> recv_deliver am api i args ch d s'
      | WaitTimedOut \<Rightarrow> rs_at i (Outside (Some (Received_answer (Inl (timeout ''receive timed out''))))) s'
      | _ \<Rightarrow> rs_at i (Outside (Some (Received_answer (Inl (unavailable ''transport shut down''))))) s'))"
| "rs_step am api i (Settle_lock j q) st w s =
     (if rs_ack_mu s j = None then Some (rs_at i (Settle_check j q) (s\<lparr>rs_ack_mu := (rs_ack_mu s)(j := Some i)\<rparr>))
      else None)"
| "rs_step am api i (Settle_check j q) st w s = Some (rs_at i
     (if ack_completed (rb_acks (rs_tr s) ! j) then Settle_unlock j (internal ''message already acked/nacked'')
      else Settle_call j q) s)"
| "rs_step am api i (Settle_call j q) st w s = (case settle_call am j q (rs_tr s) of
     (r, t) \<Rightarrow> Some (rs_at i (Settle_unlock j r)
       (s\<lparr>rs_tr := t, rs_settled := (if ok r then j # rs_settled s else rs_settled s)\<rparr>)))"
| "rs_step am api i (Settle_unlock j r) st w s =
     Some (rs_at i (Outside (Some (Settled_answer r))) (s\<lparr>rs_ack_mu := (rs_ack_mu s)(j := None)\<rparr>))"

definition rs_move ::
  "('w, 'ch, 'bm, 'd) amqp \<Rightarrow> ('bm, 'tv) bm_api \<Rightarrow> nat \<Rightarrow> ('w, 'ch, 'bm, 'd) rt_system \<Rightarrow>
   ('w, 'ch, 'bm, 'd) rt_system option" where
  "rs_move am api i s = (case rb_ptr (rs_tr s) of
     None \<Rightarrow> None | Some st \<Rightarrow> rs_step am api i (rs_pc s i) st (rb_world (rs_tr s)) s)"

text \<open>
  The interleavings. A caller settles a delivery it was handed; \<open>others\<close> is what the rest of the world (the broker, the
  clock, other processes) may do between two steps.
\<close>

inductive rs_reachable ::
  "('w, 'ch, 'bm, 'd) amqp \<Rightarrow> ('bm, 'tv) bm_api \<Rightarrow> ('w \<Rightarrow> 'w \<Rightarrow> bool) \<Rightarrow> ('w, 'ch, 'bm, 'd) rt_system \<Rightarrow> bool"
  for am api others where
  Start: "rs_reachable am api others (rt_initial opts w)"
| Begin: "rs_reachable am api others s \<Longrightarrow> rs_pc s i = Outside a \<Longrightarrow>
    (\<forall>j q. call = Call_settle j q \<longrightarrow> j < length (rb_acks (rs_tr s))) \<Longrightarrow>
    rs_reachable am api others (rs_begin am api i call s)"
| Move: "rs_reachable am api others s \<Longrightarrow> rs_move am api i s = Some s' \<Longrightarrow> rs_reachable am api others s'"
| Shutdown: "rs_reachable am api others s \<Longrightarrow> rs_pc s i = Outside a \<Longrightarrow>
    rs_reachable am api others (s\<lparr>rs_tr := rb_shutdown (rs_tr s)\<rparr>)"
| Others: "rs_reachable am api others s \<Longrightarrow> others (rb_world (rs_tr s)) w \<Longrightarrow>
    rs_reachable am api others (rt_world w s)"

section \<open>Mutexes\<close>

fun holds_send :: "('w, 'ch, 'bm, 'd) rb_pc \<Rightarrow> bool" where
  "holds_send (Send_check n bm) \<longleftrightarrow> True"
| "holds_send (Send_open n bm) \<longleftrightarrow> True"
| "holds_send (Send_declare n bm ch) \<longleftrightarrow> True"
| "holds_send (Send_publish n bm ch) \<longleftrightarrow> True"
| "holds_send (Send_unlock r) \<longleftrightarrow> True"
| "holds_send _ \<longleftrightarrow> False"

fun holds_ack :: "('w, 'ch, 'bm, 'd) rb_pc \<Rightarrow> nat option" where
  "holds_ack (Settle_check j q) = Some j"
| "holds_ack (Settle_call j q) = Some j"
| "holds_ack (Settle_unlock j r) = Some j"
| "holds_ack _ = None"

definition mutexes_ok :: "('w, 'ch, 'bm, 'd) rt_system \<Rightarrow> bool" where
  "mutexes_ok s \<longleftrightarrow> (\<forall>i. holds_send (rs_pc s i) \<longleftrightarrow> rs_send_mu s = Some i) \<and>
     (\<forall>i j. holds_ack (rs_pc s i) = Some j \<longleftrightarrow> rs_ack_mu s j = Some i)"

lemma rs_at_simps [simp]:
  "rs_tr (rs_at i pc s) = rs_tr s" "rs_send_mu (rs_at i pc s) = rs_send_mu s"
  "rs_ack_mu (rs_at i pc s) = rs_ack_mu s" "rs_settled (rs_at i pc s) = rs_settled s"
  "rs_pc (rs_at i pc s) = (rs_pc s)(i := pc)"
  by (simp_all add: rs_at_def)

lemma rt_world_simps [simp]:
  "rs_tr (rt_world w s) = (rs_tr s)\<lparr>rb_world := w\<rparr>" "rs_send_mu (rt_world w s) = rs_send_mu s"
  "rs_ack_mu (rt_world w s) = rs_ack_mu s" "rs_settled (rt_world w s) = rs_settled s"
  "rs_pc (rt_world w s) = rs_pc s"
  by (simp_all add: rt_world_def)

lemma recv_failed_simps [simp]: "holds_send (recv_failed x) \<longleftrightarrow> False" "holds_ack (recv_failed x) = None"
  by (simp_all add: recv_failed_def)

lemma recv_deliver_simps [simp]:
  "rs_send_mu (recv_deliver am api i args ch d s) = rs_send_mu s"
  "rs_ack_mu (recv_deliver am api i args ch d s) = rs_ack_mu s"
  "rs_settled (recv_deliver am api i args ch d s) = rs_settled s"
  "rb_ptr (rs_tr (recv_deliver am api i args ch d s)) = rb_ptr (rs_tr s)"
  "rb_world (rs_tr (recv_deliver am api i args ch d s)) = rb_world (rs_tr s)"
  "rb_acks (rs_tr (recv_deliver am api i args ch d s)) = rb_acks (rs_tr s) @
     (if ack_mode args = AckManual then [\<lparr>ack_completed = False, ack_ch = ch, ack_delivery = d\<rparr>] else [])"
  "rs_pc (recv_deliver am api i args ch d s) = (rs_pc s)(i := Outside (Some (Received_answer (Inr
     (fst (makeMessageFromDelivery am api ch d (ack_mode args) (rs_tr s)))))))"
  by (auto simp: recv_deliver_def makeMessageFromDelivery_def Let_def)

text \<open>Where the step of a thread may leave the mutexes.\<close>

definition mutex_step ::
  "nat \<Rightarrow> ('w, 'ch, 'bm, 'd) rt_system \<Rightarrow> ('w, 'ch, 'bm, 'd) rt_system \<Rightarrow> bool" where
  "mutex_step i s s' \<longleftrightarrow> (\<forall>k. k \<noteq> i \<longrightarrow> rs_pc s' k = rs_pc s k) \<and>
     (rs_send_mu s' = rs_send_mu s \<and> holds_send (rs_pc s' i) = holds_send (rs_pc s i) \<or>
      rs_send_mu s = None \<and> rs_send_mu s' = Some i \<and> holds_send (rs_pc s' i) \<or>
      holds_send (rs_pc s i) \<and> rs_send_mu s' = None \<and> \<not> holds_send (rs_pc s' i)) \<and>
     (rs_ack_mu s' = rs_ack_mu s \<and> holds_ack (rs_pc s' i) = holds_ack (rs_pc s i) \<or>
      (\<exists>j. rs_ack_mu s j = None \<and> holds_ack (rs_pc s i) = None \<and> holds_ack (rs_pc s' i) = Some j \<and>
         rs_ack_mu s' = (rs_ack_mu s)(j := Some i)) \<or>
      (\<exists>j. holds_ack (rs_pc s i) = Some j \<and> holds_ack (rs_pc s' i) = None \<and> rs_ack_mu s' = (rs_ack_mu s)(j := None)))"

lemma mutex_step_ok: "mutex_step i s s' \<Longrightarrow> mutexes_ok s \<Longrightarrow> mutexes_ok s'"
  unfolding mutex_step_def mutexes_ok_def by (smt (verit) fun_upd_apply option.inject option.distinct(1))

lemma rs_move_mutex: "rs_move am api i s = Some s' \<Longrightarrow> mutex_step i s s'"
  by (cases "rs_pc s i")
    (auto simp: rs_move_def mutex_step_def Let_def split: option.splits if_splits prod.splits sum.splits wait_result.splits)

lemma rs_begin_at: "\<exists>pc. rs_begin am api i call s = rs_at i pc s \<and> \<not> holds_send pc \<and> holds_ack pc = None \<and>
    ((\<exists>a. pc = Outside a) \<or> (\<exists>n bm. pc = Send_lock n bm) \<or> (\<exists>n args. pc = Recv_open n args) \<or>
     (\<exists>j q. call = Call_settle j q \<and> pc = Settle_lock j q))"
  by (cases call) (auto simp: Let_def split: option.splits)

lemma rb_shutdown_simps [simp]:
  "rb_world (rb_shutdown t) = rb_world t" "rb_acks (rb_shutdown t) = rb_acks t"
  "rb_ptr (rb_shutdown t) = None \<longleftrightarrow> rb_ptr t = None"
  by (auto simp: rb_shutdown_def split: option.splits)

lemma reachable_mutexes: "rs_reachable am api others s \<Longrightarrow> mutexes_ok s"
proof (induction rule: rs_reachable.induct)
  case (Begin s i a call)
  obtain pc where "rs_begin am api i call s = rs_at i pc s" "\<not> holds_send pc" "holds_ack pc = None"
    using rs_begin_at by blast
  then have "mutex_step i s (rs_begin am api i call s)" using Begin(2) by (simp add: mutex_step_def)
  then show ?case using Begin(4) by (rule mutex_step_ok)
next
  case (Move s i s')
  then show ?case using rs_move_mutex mutex_step_ok by blast
qed (auto simp: mutexes_ok_def rt_initial_def)

section \<open>Channels\<close>

fun recv_channel :: "('w, 'ch, 'bm, 'd) rb_pc \<Rightarrow> 'ch option" where
  "recv_channel (Recv_declare n args ch) = Some ch"
| "recv_channel (Recv_get n args ch) = Some ch"
| "recv_channel (Recv_consume n args ch) = Some ch"
| "recv_channel (Recv_check args dl tag ch) = Some ch"
| "recv_channel (Recv_poll args dl ms tag ch) = Some ch"
| "recv_channel (Recv_cancel args r tag ch) = Some ch"
| "recv_channel _ = None"

fun send_channel :: "('w, 'ch, 'bm, 'd) rb_pc \<Rightarrow> 'ch option" where
  "send_channel (Send_declare n bm ch) = Some ch"
| "send_channel (Send_publish n bm ch) = Some ch"
| "send_channel _ = None"

text \<open>The channel of the library call that a thread is in.\<close>

definition channel_in_use :: "('w, 'ch, 'bm, 'd) rt_system \<Rightarrow> nat \<Rightarrow> 'ch option" where
  "channel_in_use s i = (case rs_pc s i of
       Settle_call j q \<Rightarrow> Some (ack_ch (rb_acks (rs_tr s) ! j))
     | pc \<Rightarrow> case send_channel pc of Some ch \<Rightarrow> Some ch | None \<Rightarrow> recv_channel pc)"

text \<open>Who refers to a channel: the transport, a receive that is under way, or the state of a delivery.\<close>

datatype channel_owner = Sender | Receiver nat | Delivered nat

fun owned :: "('w, 'ch, 'bm, 'd) rt_system \<Rightarrow> channel_owner \<Rightarrow> 'ch option" where
  "owned s Sender = (case rb_ptr (rs_tr s) of Some st \<Rightarrow> rb_send_ch st | None \<Rightarrow> None)"
| "owned s (Receiver i) = recv_channel (rs_pc s i)"
| "owned s (Delivered j) = (if j < length (rb_acks (rs_tr s)) then Some (ack_ch (rb_acks (rs_tr s) ! j)) else None)"

text \<open>
  What is asked of the library: \<^verbatim>\<open>Channel::Create\<close> makes a new channel, one that was not there before. \<open>live\<close> is
  the set of the channels that have been made.
\<close>

definition opens_fresh :: "('w, 'ch, 'bm, 'd) amqp \<Rightarrow> ('w \<Rightarrow> 'w \<Rightarrow> bool) \<Rightarrow> ('w \<Rightarrow> 'ch set) \<Rightarrow> bool" where
  "opens_fresh am others live \<longleftrightarrow>
     (\<forall>opts w. case am_Create am opts w of
        (Inl x, w') \<Rightarrow> live w' = live w | (Inr ch, w') \<Rightarrow> ch \<notin> live w \<and> live w' = insert ch (live w)) \<and>
     (\<forall>ch n a b c d w. live (snd (am_DeclareQueue am ch n a b c d w)) = live w) \<and>
     (\<forall>ch ex n bm w. live (snd (am_BasicPublish am ch ex n bm w)) = live w) \<and>
     (\<forall>ch n na w. live (snd (am_BasicGet am ch n na w)) = live w) \<and>
     (\<forall>ch n tag a b c k w. live (snd (am_BasicConsume am ch n tag a b c k w)) = live w) \<and>
     (\<forall>ch tag ms w. live (snd (am_BasicConsumeMessage am ch tag ms w)) = live w) \<and>
     (\<forall>ch tag w. live (snd (am_BasicCancel am ch tag w)) = live w) \<and>
     (\<forall>ch d w. live (snd (am_BasicAck am ch d w)) = live w) \<and>
     (\<forall>ch d q w. live (snd (am_BasicReject am ch d q w)) = live w) \<and>
     (\<forall>w w'. others w w' \<longrightarrow> live w' = live w)"

lemma opens_freshD:
  assumes "opens_fresh am others live"
  shows "am_Create am opts w = (Inl x, w') \<Longrightarrow> live w' = live w"
    "am_Create am opts w = (Inr ch, w') \<Longrightarrow> ch \<notin> live w \<and> live w' = insert ch (live w)"
    "am_DeclareQueue am ch n a b c d w = (r1, w') \<Longrightarrow> live w' = live w"
    "am_BasicPublish am ch ex n bm w = (r1, w') \<Longrightarrow> live w' = live w"
    "am_BasicGet am ch n a w = (r2, w') \<Longrightarrow> live w' = live w"
    "am_BasicConsume am ch n tag a b c k w = (r3, w') \<Longrightarrow> live w' = live w"
    "am_BasicConsumeMessage am ch tag ms w = (r2, w') \<Longrightarrow> live w' = live w"
    "live (cancel_consumer am ch tag w) = live w"
    "am_BasicAck am ch dl w = (r1, w') \<Longrightarrow> live w' = live w"
    "am_BasicReject am ch dl a w = (r1, w') \<Longrightarrow> live w' = live w"
    "others w w' \<Longrightarrow> live w' = live w"
  using assms unfolding opens_fresh_def cancel_consumer_def
  by (auto split: prod.splits sum.splits) (metis snd_conv)+

definition channels_ok :: "('w \<Rightarrow> 'ch set) \<Rightarrow> ('w, 'ch, 'bm, 'd) rt_system \<Rightarrow> bool" where
  "channels_ok live s \<longleftrightarrow> (\<forall>p c. owned s p = Some c \<longrightarrow> c \<in> live (rb_world (rs_tr s))) \<and>
     (\<forall>p q c. owned s p = Some c \<longrightarrow> owned s q = Some c \<longrightarrow> p = q)"

text \<open>The three ways a step deals with channels: nothing new, a new one, one handed on to a delivery.\<close>

definition owner_step ::
  "('w \<Rightarrow> 'ch set) \<Rightarrow> nat \<Rightarrow> ('w, 'ch, 'bm, 'd) rt_system \<Rightarrow> ('w, 'ch, 'bm, 'd) rt_system \<Rightarrow> bool" where
  "owner_step live i s s' \<longleftrightarrow> (let l = live (rb_world (rs_tr s)); l' = live (rb_world (rs_tr s')) in
     (l' = l \<and> (\<forall>p c. owned s' p = Some c \<longrightarrow> owned s p = Some c)) \<or>
     (\<exists>o' c. c \<notin> l \<and> l' = insert c l \<and> (\<forall>p. owned s' p = (if p = o' then Some c else owned s p))) \<or>
     (\<exists>n c. l' = l \<and> owned s (Receiver i) = Some c \<and> owned s (Delivered n) = None \<and>
        (\<forall>p. owned s' p = (if p = Delivered n then Some c else if p = Receiver i then None else owned s p))))"

lemma owner_step_ok:
  assumes "owner_step live i s s'" and "channels_ok live s"
  shows "channels_ok live s'"
proof -
  have a: "owned s p = Some c \<Longrightarrow> c \<in> live (rb_world (rs_tr s))"
    "owned s p = Some c \<Longrightarrow> owned s q = Some c \<Longrightarrow> p = q" for p q c
    using assms(2) unfolding channels_ok_def by blast+
  from assms(1) show ?thesis unfolding owner_step_def Let_def
  proof (elim disjE exE conjE)
    fix o' c
    assume c: "c \<notin> live (rb_world (rs_tr s))"
      "live (rb_world (rs_tr s')) = insert c (live (rb_world (rs_tr s)))"
      "\<forall>p. owned s' p = (if p = o' then Some c else owned s p)"
    then show ?thesis unfolding channels_ok_def using a by (auto split: if_splits)
  next
    fix n c
    assume c: "live (rb_world (rs_tr s')) = live (rb_world (rs_tr s))"
      "owned s (Receiver i) = Some c" "owned s (Delivered n) = None"
      "\<forall>p. owned s' p = (if p = Delivered n then Some c else if p = Receiver i then None else owned s p)"
    show ?thesis unfolding channels_ok_def c(1) c(4) [rule_format]
      using a c(2,3) by (metis option.inject option.distinct(1))
  next
    assume c: "live (rb_world (rs_tr s')) = live (rb_world (rs_tr s))"
      "\<forall>p c. owned s' p = Some c \<longrightarrow> owned s p = Some c"
    show ?thesis unfolding channels_ok_def c(1) using a c(2) by blast
  qed
qed

lemma owned_at [simp]:
  "owned (rs_at i pc s) p = (if p = Receiver i then recv_channel pc else owned s p)"
  by (cases p) auto

lemma owned_world [simp]: "owned (rt_world w s) p = owned s p"
  by (cases p) auto

lemma recv_failed_channel [simp]: "recv_channel (recv_failed x) = None" "send_channel (recv_failed x) = None"
  by (simp_all add: recv_failed_def)

lemma owned_locks [simp]:
  "owned (s\<lparr>rs_send_mu := m\<rparr>) p = owned s p" "owned (s\<lparr>rs_ack_mu := k\<rparr>) p = owned s p"
  "owned (s\<lparr>rs_settled := l\<rparr>) p = owned s p"
  by (cases p; simp)+

lemma owned_deliver:
  "owned (recv_deliver am api i args ch d s) p =
     (if p = Delivered (length (rb_acks (rs_tr s))) \<and> ack_mode args = AckManual then Some ch
      else if p = Receiver i then None else owned s p)"
  by (cases p) (auto simp: nth_append)

lemma deliver_owner_step:
  assumes "recv_channel (rs_pc s i) = Some ch" and "live w = live (rb_world (rs_tr s))"
  shows "owner_step live i s (recv_deliver am api i args ch d (rt_world w s))"
proof (cases "ack_mode args = AckManual")
  case True
  let ?n = "length (rb_acks (rs_tr s))"
  have "owned (recv_deliver am api i args ch d (rt_world w s)) p =
      (if p = Delivered ?n then Some ch else if p = Receiver i then None else owned s p)" for p
    using True by (simp add: owned_deliver del: owned.simps)
  moreover have "owned s (Receiver i) = Some ch" "owned s (Delivered ?n) = None" using assms(1) by simp_all
  ultimately show ?thesis unfolding owner_step_def Let_def using assms(2)
    by (intro disjI2 exI [of _ ?n] exI [of _ ch]) (simp del: owned.simps)
next
  case False
  then show ?thesis unfolding owner_step_def Let_def using assms(2)
    by (intro disjI1) (simp add: owned_deliver del: owned.simps)
qed

lemma list_update_nth: "xs[j := x] ! k = (if j = k \<and> j < length xs then x else xs ! k)"
  by (cases "j < length xs") (auto simp: nth_list_update list_update_beyond)

lemma settle_frame:
  assumes "settle_call am j q t = (r, t')"
  shows "rb_ptr t' = rb_ptr t" "length (rb_acks t') = length (rb_acks t)"
    "k < length (rb_acks t) \<Longrightarrow> ack_ch (rb_acks t' ! k) = ack_ch (rb_acks t ! k)"
    "opens_fresh am others live \<Longrightarrow> live (rb_world t') = live (rb_world t)"
  using assms opens_freshD(9,10) [of am others live]
  by (auto simp: settle_call_def Let_def list_update_nth split: option.splits if_splits prod.splits sum.splits)

lemma settle_owned:
  assumes "settle_call am j q (rs_tr s) = (r, t)"
  shows "owned (s\<lparr>rs_tr := t\<rparr>) p = owned s p"
  using settle_frame(1-3) [OF assms] by (cases p) auto

text \<open>Every step of a thread is one of the three.\<close>

lemma keeps_owners:
  assumes "live (rb_world (rs_tr s')) = live (rb_world (rs_tr s))"
    and "\<And>p. owned s' p = owned s p \<or> owned s' p = None"
  shows "owner_step live i s s'"
proof -
  have "owned s p = Some c" if "owned s' p = Some c" for p c using assms(2) [of p] that by auto
  then show ?thesis unfolding owner_step_def Let_def using assms(1) by blast
qed

lemma opens_owner:
  assumes "c \<notin> live (rb_world (rs_tr s))" and "live (rb_world (rs_tr s')) = insert c (live (rb_world (rs_tr s)))"
    and "\<And>p. owned s' p = (if p = r then Some c else owned s p)"
  shows "owner_step live i s s'"
  unfolding owner_step_def Let_def using assms by blast

lemma opened_send:
  "owned (s\<lparr>rs_tr := (rs_tr s)\<lparr>rb_ptr := Some (st\<lparr>rb_send_ch := Some ch\<rparr>), rb_world := w\<rparr>\<rparr>) p =
    (if p = Sender then Some ch else owned s p)"
  by (cases p) auto

lemma at_owner:
  assumes "live w = live (rb_world (rs_tr s))" and "recv_channel pc = recv_channel (rs_pc s i) \<or> recv_channel pc = None"
  shows "owner_step live i s (rs_at i pc (rt_world w s))"
proof (rule keeps_owners)
  show "owned (rs_at i pc (rt_world w s)) p = owned s p \<or> owned (rs_at i pc (rt_world w s)) p = None" for p
    using assms(2) by (cases "p = Receiver i") auto
qed (simp add: assms(1))

lemma lock_owner:
  assumes "\<And>p. owned s1 p = owned s p" and "live (rb_world (rs_tr s1)) = live (rb_world (rs_tr s))"
    and "recv_channel pc = recv_channel (rs_pc s i) \<or> recv_channel pc = None"
  shows "owner_step live i s (rs_at i pc s1)"
proof (rule keeps_owners)
  show "owned (rs_at i pc s1) p = owned s p \<or> owned (rs_at i pc s1) p = None" for p
    using assms(1,3) by (cases "p = Receiver i") auto
qed (simp add: assms(2))

lemma open_owner:
  assumes "c \<notin> live (rb_world (rs_tr s))" and "live w = insert c (live (rb_world (rs_tr s)))"
  shows "recv_channel (rs_pc s i) = None \<Longrightarrow> recv_channel pc = Some c \<Longrightarrow> owner_step live i s (rs_at i pc (rt_world w s))"
    and "recv_channel (rs_pc s i) = None \<Longrightarrow> recv_channel pc = None \<Longrightarrow> owner_step live i s
      (rs_at i pc (s\<lparr>rs_tr := (rs_tr s)\<lparr>rb_ptr := Some (st\<lparr>rb_send_ch := Some c\<rparr>), rb_world := w\<rparr>\<rparr>))"
proof -
  assume "recv_channel (rs_pc s i) = None" "recv_channel pc = Some c"
  then show "owner_step live i s (rs_at i pc (rt_world w s))"
    by (intro opens_owner [of c _ _ _ "Receiver i"]) (simp_all add: assms del: owned.simps)
next
  assume none: "recv_channel (rs_pc s i) = None" "recv_channel pc = None"
  let ?s = "s\<lparr>rs_tr := (rs_tr s)\<lparr>rb_ptr := Some (st\<lparr>rb_send_ch := Some c\<rparr>), rb_world := w\<rparr>\<rparr>"
  have "owned (rs_at i pc ?s) p = (if p = Sender then Some c else owned s p)" for p
    using none by (cases "p = Receiver i") (simp_all add: opened_send del: owned.simps, simp)
  then show "owner_step live i s (rs_at i pc ?s)"
    by (intro opens_owner [of c _ _ _ Sender]) (simp_all add: assms del: owned.simps)
qed

lemmas owner_steps = at_owner open_owner deliver_owner_step

lemma rs_step_owner:
  assumes fresh: "opens_fresh am others live" and pc: "rs_pc s i = pc" and w: "w = rb_world (rs_tr s)"
    and move: "rs_step am api i pc st w s = Some s'"
  shows "owner_step live i s s'"
proof (cases pc)
  case (Send_open n bm)
  then show ?thesis using move pc opens_freshD(1,2) [OF fresh, of "rb_opts st" w]
    by (auto simp: openChannel_def w intro: owner_steps simp del: owned.simps split: prod.splits sum.splits)
next
  case (Recv_open n args)
  then show ?thesis using move pc opens_freshD(1,2) [OF fresh, of "rb_opts st" w]
    by (auto simp: openChannel_def w intro: owner_steps simp del: owned.simps split: prod.splits sum.splits)
next
  case (Send_declare n bm ch)
  then show ?thesis using move pc opens_freshD(3) [OF fresh, of ch n False False False False w]
    by (auto simp: w intro!: owner_steps simp del: owned.simps split: prod.splits sum.splits)
next
  case (Recv_declare n args ch)
  then show ?thesis using move pc opens_freshD(3) [OF fresh, of ch n False False False False w]
    by (auto simp: w intro!: owner_steps simp del: owned.simps split: prod.splits sum.splits if_splits)
next
  case (Send_publish n bm ch)
  then show ?thesis using move pc opens_freshD(4) [OF fresh, of ch "[]" n bm w]
    by (auto simp: w intro!: owner_steps simp del: owned.simps split: prod.splits sum.splits)
next
  case (Recv_get n args ch)
  then show ?thesis using move pc opens_freshD(5) [OF fresh, of ch n "ack_mode args = AckAuto" w]
    by (auto simp: w intro!: owner_steps simp del: owned.simps split: prod.splits sum.splits option.splits)
next
  case (Recv_consume n args ch)
  then show ?thesis using move pc opens_freshD(6) [OF fresh, of ch n "[]" True "ack_mode args = AckAuto" False 1 w]
    by (auto simp: w intro!: owner_steps simp del: owned.simps split: prod.splits sum.splits)
next
  case (Recv_poll args dl ms tag ch)
  then show ?thesis using move pc opens_freshD(7) [OF fresh, of ch tag ms w]
    by (auto simp: w intro!: owner_steps simp del: owned.simps split: prod.splits sum.splits option.splits)
next
  case (Recv_cancel args r tag ch)
  then show ?thesis using move pc opens_freshD(8) [OF fresh, of ch tag w]
    by (auto simp: w Let_def intro!: owner_steps simp del: owned.simps split: wait_result.splits)
next
  case (Settle_call j q)
  obtain r t where t: "settle_call am j q (rs_tr s) = (r, t)" by (metis surj_pair)
  let ?s = "s\<lparr>rs_tr := t, rs_settled := (if ok r then j # rs_settled s else rs_settled s)\<rparr>"
  have "owned ?s p = owned s p" for p using settle_owned [OF t, of p] by (simp del: owned.simps)
  then have "owner_step live i s (rs_at i (Settle_unlock j r) ?s)"
    by (rule lock_owner) (simp_all add: settle_frame(4) [OF t fresh])
  then show ?thesis using Settle_call move t by simp
qed (use move pc in \<open>auto intro!: lock_owner simp del: owned.simps split: if_splits option.splits\<close>)

lemma rs_move_owner:
  "opens_fresh am others live \<Longrightarrow> rs_move am api i s = Some s' \<Longrightarrow> owner_step live i s s'"
  by (auto simp: rs_move_def split: option.splits intro: rs_step_owner)

lemma owned_shutdown [simp]: "owned (s\<lparr>rs_tr := rb_shutdown (rs_tr s)\<rparr>) p = owned s p"
  by (cases p) (auto simp: rb_shutdown_def split: option.splits)

lemma owned_initial: "owned (rt_initial opts w) p = None"
  by (cases p) (simp_all add: rt_initial_def createTransport_RabbitMq_def)

lemma reachable_channels:
  "rs_reachable am api others s \<Longrightarrow> opens_fresh am others live \<Longrightarrow> channels_ok live s"
proof (induction rule: rs_reachable.induct)
  case (Begin s i a call)
  obtain pc where "rs_begin am api i call s = rs_at i pc s" "recv_channel pc = None"
    using rs_begin_at [of am api i call s] by fastforce
  then have "owner_step live i s (rs_begin am api i call s)" by (auto intro!: lock_owner)
  then show ?case using Begin by (blast intro: owner_step_ok)
next
  case (Move s i s')
  then show ?case by (blast intro: rs_move_owner owner_step_ok)
next
  case (Others s w)
  then show ?case using opens_freshD(11) [OF Others(4,2)] by (simp add: channels_ok_def del: owned.simps)
qed (simp_all add: channels_ok_def owned_initial del: owned.simps)

text \<open>A thread in the section of the send mutex works on the shared channel, and opens it only if there is none.\<close>

definition senders_ok :: "('w, 'ch, 'bm, 'd) rt_system \<Rightarrow> bool" where
  "senders_ok s \<longleftrightarrow> (\<forall>i c. send_channel (rs_pc s i) = Some c \<longrightarrow> owned s Sender = Some c) \<and>
     (\<forall>i n bm. rs_pc s i = Send_open n bm \<longrightarrow> owned s Sender = None)"

lemma send_section: "send_channel pc = Some c \<Longrightarrow> holds_send pc" "holds_send (Send_open n bm)"
  by (cases pc) auto

lemma rs_move_sender:
  assumes "mutexes_ok s" and "rs_move am api i s = Some s'"
  shows "owned s' Sender = owned s Sender \<or> holds_send (rs_pc s i) \<and> (\<exists>n bm. rs_pc s i = Send_open n bm)"
  using assms settle_frame(1) [of am _ _ "rs_tr s"]
  by (cases "rs_pc s i")
    (auto simp: rs_move_def Let_def split: option.splits if_splits prod.splits sum.splits wait_result.splits)

lemma rs_move_own_sender:
  assumes "\<forall>c. send_channel (rs_pc s i) = Some c \<longrightarrow> owned s Sender = Some c" and "rs_move am api i s = Some s'"
  shows "(\<forall>c. send_channel (rs_pc s' i) = Some c \<longrightarrow> owned s' Sender = Some c) \<and>
    (\<forall>n bm. rs_pc s' i = Send_open n bm \<longrightarrow> owned s' Sender = None)"
  using assms
  by (cases "rs_pc s i")
    (auto simp: rs_move_def Let_def openChannel_def recv_failed_def
      split: option.splits if_splits prod.splits sum.splits wait_result.splits)

lemma rs_move_senders:
  assumes m: "mutexes_ok s" and so: "senders_ok s" and move: "rs_move am api i s = Some s'"
  shows "senders_ok s'"
proof -
  have same: "rs_pc s' k = rs_pc s k" if "k \<noteq> i" for k
    using rs_move_mutex [OF move] that by (simp add: mutex_step_def)
  have kept: "owned s' Sender = owned s Sender" if "k \<noteq> i" "holds_send (rs_pc s k)" for k
    using rs_move_sender [OF m move] m that by (auto simp: mutexes_ok_def simp del: owned.simps)
  have "\<forall>c. send_channel (rs_pc s i) = Some c \<longrightarrow> owned s Sender = Some c"
    using so unfolding senders_ok_def by blast
  from rs_move_own_sender [OF this move] show ?thesis
    using so same kept send_section unfolding senders_ok_def by metis
qed

lemma reachable_senders: "rs_reachable am api others s \<Longrightarrow> senders_ok s"
proof (induction rule: rs_reachable.induct)
  case (Begin s i a call)
  obtain pc where "rs_begin am api i call s = rs_at i pc s" "send_channel pc = None" "\<not> holds_send pc"
    using rs_begin_at [of am api i call s] by fastforce
  moreover from this have "pc \<noteq> Send_open n bm" for n bm by auto
  ultimately show ?case using Begin(4) by (auto simp: senders_ok_def simp del: owned.simps)
next
  case (Move s i s')
  then show ?case using rs_move_senders reachable_mutexes by blast
qed (simp_all add: senders_ok_def rt_initial_def del: owned.simps)

section \<open>Deliveries\<close>

fun settles :: "('w, 'ch, 'bm, 'd) rb_pc \<Rightarrow> nat option" where
  "settles (Settle_lock j q) = Some j"
| "settles (Settle_check j q) = Some j"
| "settles (Settle_call j q) = Some j"
| "settles _ = None"

definition deliveries_ok :: "('w, 'ch, 'bm, 'd) rt_system \<Rightarrow> bool" where
  "deliveries_ok s \<longleftrightarrow> (\<forall>i j. settles (rs_pc s i) = Some j \<longrightarrow> j < length (rb_acks (rs_tr s))) \<and>
     (\<forall>i j q. rs_pc s i = Settle_call j q \<longrightarrow> \<not> ack_completed (rb_acks (rs_tr s) ! j)) \<and> distinct (rs_settled s) \<and>
     set (rs_settled s) = {j. j < length (rb_acks (rs_tr s)) \<and> ack_completed (rb_acks (rs_tr s) ! j)}"

lemma settle_result:
  assumes "settle_call am j q t = (r, t')"
  shows "if ok r then rb_acks t' = (rb_acks t)[j := (rb_acks t ! j)\<lparr>ack_completed := True\<rparr>]
    else rb_acks t' = rb_acks t"
  using assms by (auto simp: settle_call_def Let_def split: option.splits prod.splits sum.splits)

lemma all_or_neq: "(\<forall>a. P a \<or> x \<noteq> a) \<longleftrightarrow> P x"
  by auto

text \<open>What a step does to the deliveries: nothing, a new one, or one of them settled.\<close>

lemma rs_move_deliveries:
  assumes "rs_move am api i s = Some s'"
  shows "(rb_acks (rs_tr s') = rb_acks (rs_tr s) \<and> rs_settled s' = rs_settled s) \<or>
    (\<exists>a. \<not> ack_completed a \<and> rb_acks (rs_tr s') = rb_acks (rs_tr s) @ [a] \<and> rs_settled s' = rs_settled s) \<or>
    (\<exists>j q. rs_pc s i = Settle_call j q \<and>
       rb_acks (rs_tr s') = (rb_acks (rs_tr s))[j := (rb_acks (rs_tr s) ! j)\<lparr>ack_completed := True\<rparr>] \<and>
       rs_settled s' = j # rs_settled s)"
proof (cases "rs_pc s i")
  case (Settle_call j q)
  obtain r t where t: "settle_call am j q (rs_tr s) = (r, t)" by (metis surj_pair)
  then show ?thesis using assms Settle_call settle_result [OF t]
    by (cases "ok r") (auto simp: rs_move_def split: option.splits)
qed (use assms in \<open>auto simp: rs_move_def Let_def all_or_neq
    split: option.splits if_splits prod.splits sum.splits wait_result.splits\<close>)

lemma rs_move_settles:
  assumes "rs_move am api i s = Some s'" and "settles (rs_pc s' k) = Some j"
  shows "settles (rs_pc s k) = Some j"
proof (cases "k = i")
  case True
  then show ?thesis using assms
    by (cases "rs_pc s i")
      (auto simp: rs_move_def Let_def recv_failed_def
        split: option.splits if_splits prod.splits sum.splits wait_result.splits)
next
  case False
  then show ?thesis using assms rs_move_mutex [OF assms(1)] by (simp add: mutex_step_def)
qed

text \<open>A thread comes to the call only after the check, and the step that brings it there changes no delivery.\<close>

lemma rs_move_checked:
  assumes "rs_move am api i s = Some s'" and "rs_pc s' i = Settle_call j q"
  shows "\<not> ack_completed (rb_acks (rs_tr s) ! j) \<and> rb_acks (rs_tr s') = rb_acks (rs_tr s)"
  using assms
  by (cases "rs_pc s i")
    (auto simp: rs_move_def Let_def recv_failed_def
      split: option.splits if_splits prod.splits sum.splits wait_result.splits)

lemma deliveries_kept:
  assumes "deliveries_ok s" and "\<And>k j. settles (rs_pc s' k) = Some j \<Longrightarrow> settles (rs_pc s k) = Some j"
    and "\<And>k j q. rs_pc s' k = Settle_call j q \<Longrightarrow> \<not> ack_completed (rb_acks (rs_tr s) ! j)"
    and "rb_acks (rs_tr s') = rb_acks (rs_tr s) \<or> (\<exists>a. \<not> ack_completed a \<and> rb_acks (rs_tr s') = rb_acks (rs_tr s) @ [a])"
    and "rs_settled s' = rs_settled s"
  shows "deliveries_ok s'"
proof -
  have len: "j < length (rb_acks (rs_tr s))" if "settles (rs_pc s' k) = Some j" for k j
    using assms(1,2) that unfolding deliveries_ok_def by blast
  have call: "\<not> ack_completed (rb_acks (rs_tr s) ! j)" "j < length (rb_acks (rs_tr s))"
    if "rs_pc s' k = Settle_call j q" for k j q
    using assms(3) [OF that] len [of k j] that by simp_all
  show ?thesis using assms(1,4,5) len call unfolding deliveries_ok_def
    by (auto simp: nth_append less_Suc_eq dest: len call)
qed

lemma deliveries_call:
  "deliveries_ok s \<Longrightarrow> rs_pc s i = Settle_call j q \<Longrightarrow> \<not> ack_completed (rb_acks (rs_tr s) ! j)"
  unfolding deliveries_ok_def by blast

lemma deliveries_settled:
  assumes "deliveries_ok s" and "\<And>k l. settles (rs_pc s' k) = Some l \<Longrightarrow> settles (rs_pc s k) = Some l"
    and "rs_pc s i = Settle_call j q" and "\<And>k l q. rs_pc s' k = Settle_call l q \<Longrightarrow> rs_pc s k = Settle_call l q \<and> l \<noteq> j"
    and "rb_acks (rs_tr s') = (rb_acks (rs_tr s))[j := (rb_acks (rs_tr s) ! j)\<lparr>ack_completed := True\<rparr>]"
    and "rs_settled s' = j # rs_settled s"
  shows "deliveries_ok s'"
proof -
  have "settles (rs_pc s i) = Some j" using assms(3) by simp
  then have j: "j < length (rb_acks (rs_tr s))" "\<not> ack_completed (rb_acks (rs_tr s) ! j)"
    using assms(1,3) unfolding deliveries_ok_def by blast+
  have "\<not> ack_completed (rb_acks (rs_tr s') ! l)" if "rs_pc s' k = Settle_call l p" for k l p
    using assms(4) [OF that] deliveries_call [OF assms(1), of k l p] unfolding assms(5) by simp
  moreover have "l < length (rb_acks (rs_tr s'))" if "settles (rs_pc s' k) = Some l" for k l
    using assms(1) assms(2) [OF that] unfolding deliveries_ok_def assms(5) by auto
  ultimately show ?thesis
    using assms(1) j unfolding deliveries_ok_def assms(5,6) by (auto simp: nth_list_update split: if_splits)
qed

lemma move_deliveries_ok:
  assumes ok: "deliveries_ok s" and m: "mutexes_ok s" and move: "rs_move am api i s = Some s'"
  shows "deliveries_ok s'"
proof -
  note keeps = rs_move_settles [OF move]
  have same: "rs_pc s' k = rs_pc s k" if "k \<noteq> i" for k
    using rs_move_mutex [OF move] that by (simp add: mutex_step_def)
  have calls: "\<not> ack_completed (rb_acks (rs_tr s) ! j)" if "rs_pc s' k = Settle_call j q" for k j q
    using deliveries_call [OF ok, of k j q] rs_move_checked [OF move, of j q] same [of k] that by (cases "k = i") auto
  show ?thesis
  proof (cases "rs_settled s' = rs_settled s")
    case True
    then show ?thesis using rs_move_deliveries [OF move]
      by (intro deliveries_kept [OF ok]) (auto dest: keeps calls)
  next
    case False
    with rs_move_deliveries [OF move] obtain j q where j: "rs_pc s i = Settle_call j q"
      "rb_acks (rs_tr s') = (rb_acks (rs_tr s))[j := (rb_acks (rs_tr s) ! j)\<lparr>ack_completed := True\<rparr>]"
      "rs_settled s' = j # rs_settled s" by auto
    have own: "rs_ack_mu s j = Some i" using m j(1) unfolding mutexes_ok_def by (metis holds_ack.simps(2))
    have left: "rs_pc s' i \<noteq> Settle_call l p" for l p
      using move j(1) by (auto simp: rs_move_def split: option.splits prod.splits)
    have "rs_pc s k = Settle_call l p \<and> l \<noteq> j" if "rs_pc s' k = Settle_call l p" for k l p
    proof -
      have "k \<noteq> i" using that left by auto
      then have pc: "rs_pc s k = Settle_call l p" using same that by simp
      then have "rs_ack_mu s l = Some k" using m unfolding mutexes_ok_def by (metis holds_ack.simps(2))
      then show ?thesis using pc own \<open>k \<noteq> i\<close> by auto
    qed
    from deliveries_settled [OF ok keeps j(1) this j(2,3)] show ?thesis by simp
  qed
qed

lemma reachable_deliveries: "rs_reachable am api others s \<Longrightarrow> deliveries_ok s"
proof (induction rule: rs_reachable.induct)
  case (Start opts w)
  then show ?case by (simp add: deliveries_ok_def rt_initial_def createTransport_RabbitMq_def)
next
  case (Begin s i a call)
  obtain pc where pc: "rs_begin am api i call s = rs_at i pc s" "\<And>j q. pc \<noteq> Settle_call j q"
    "\<And>j. settles pc = Some j \<Longrightarrow> j < length (rb_acks (rs_tr s))"
    using rs_begin_at [of am api i call s] Begin(3) by fastforce
  then show ?case using Begin(4) by (auto simp: deliveries_ok_def)
next
  case (Move s i s')
  then show ?case using move_deliveries_ok reachable_mutexes by blast
qed (auto simp: deliveries_ok_def)

text \<open>A channel in use is referred to by its user, or guarded by a mutex of its user.\<close>

lemma used_channel:
  assumes "rs_reachable am api others s" and "channel_in_use s i = Some c"
  shows "\<exists>p. owned s p = Some c \<and> (case p of Sender \<Rightarrow> rs_send_mu s = Some i | Receiver k \<Rightarrow> k = i
    | Delivered j \<Rightarrow> rs_ack_mu s j = Some i)"
proof -
  have m: "mutexes_ok s" and so: "senders_ok s"
    using reachable_mutexes reachable_senders assms(1) by blast+
  consider j q where "rs_pc s i = Settle_call j q" "c = ack_ch (rb_acks (rs_tr s) ! j)"
    | "send_channel (rs_pc s i) = Some c" | "recv_channel (rs_pc s i) = Some c"
    using assms(2) by (cases "rs_pc s i") (auto simp: channel_in_use_def)
  then show ?thesis
  proof cases
    case 1
    then have "holds_ack (rs_pc s i) = Some j" by simp
    then have "rs_ack_mu s j = Some i" using m unfolding mutexes_ok_def by blast
    moreover have "settles (rs_pc s i) = Some j" using 1 by simp
    then have "j < length (rb_acks (rs_tr s))"
      using reachable_deliveries [OF assms(1)] unfolding deliveries_ok_def by blast
    ultimately show ?thesis using 1 by (intro exI [of _ "Delivered j"]) simp
  next
    case 2
    have "owned s Sender = Some c" using so 2 unfolding senders_ok_def by blast
    moreover have "rs_send_mu s = Some i" using m send_section(1) [OF 2] unfolding mutexes_ok_def by blast
    ultimately show ?thesis by (intro exI [of _ Sender]) simp
  next
    case 3
    then show ?thesis by (intro exI [of _ "Receiver i"]) simp
  qed
qed

section \<open>Runs of one thread\<close>

fun rs_run ::
  "('w, 'ch, 'bm, 'd) amqp \<Rightarrow> ('bm, 'tv) bm_api \<Rightarrow> nat \<Rightarrow> nat \<Rightarrow> ('w, 'ch, 'bm, 'd) rt_system \<Rightarrow>
   ('w, 'ch, 'bm, 'd) rt_system option" where
  "rs_run am api i 0 s = Some s"
| "rs_run am api i (Suc n) s = (case rs_move am api i s of None \<Rightarrow> None | Some s' \<Rightarrow> rs_run am api i n s')"

section \<open>Waiting for a mutex\<close>

fun steps_left :: "('w, 'ch, 'bm, 'd) rb_pc \<Rightarrow> nat" where
  "steps_left (Send_check n bm) = 5"
| "steps_left (Send_open n bm) = 4"
| "steps_left (Send_declare n bm ch) = 3"
| "steps_left (Send_publish n bm ch) = 2"
| "steps_left (Send_unlock r) = 1"
| "steps_left (Settle_check j q) = 3"
| "steps_left (Settle_call j q) = 2"
| "steps_left (Settle_unlock j r) = 1"
| "steps_left _ = 0"

lemma send_owner_moves:
  assumes "rb_ptr (rs_tr s) = Some st" and "holds_send (rs_pc s k)"
  shows "\<exists>s'. rs_move am api k s = Some s' \<and> rb_ptr (rs_tr s') \<noteq> None \<and>
    (holds_send (rs_pc s' k) \<and> steps_left (rs_pc s' k) < steps_left (rs_pc s k) \<or> rs_send_mu s' = None)"
  using assms
  by (cases "rs_pc s k") (auto simp: rs_move_def split: prod.splits sum.splits option.splits if_splits)

lemma ack_owner_moves:
  assumes "rb_ptr (rs_tr s) = Some st" and "holds_ack (rs_pc s k) = Some j"
  shows "\<exists>s'. rs_move am api k s = Some s' \<and> rb_ptr (rs_tr s') \<noteq> None \<and>
    (holds_ack (rs_pc s' k) = Some j \<and> steps_left (rs_pc s' k) < steps_left (rs_pc s k) \<or> rs_ack_mu s' j = None)"
proof (cases "rs_pc s k")
  case (Settle_call l q)
  obtain r t where t: "settle_call am l q (rs_tr s) = (r, t)" by (metis surj_pair)
  then show ?thesis using assms Settle_call settle_frame(1) [OF t] by (simp add: rs_move_def)
qed (use assms in \<open>auto simp: rs_move_def\<close>)

text \<open>The owner of a mutex frees it by its own steps.\<close>

lemma owner_finishes:
  assumes "rb_ptr (rs_tr s) \<noteq> None" and "P s"
    and step: "\<And>s. rb_ptr (rs_tr s) \<noteq> None \<Longrightarrow> P s \<Longrightarrow> \<exists>s'. rs_move am api k s = Some s' \<and>
      rb_ptr (rs_tr s') \<noteq> None \<and> (P s' \<and> steps_left (rs_pc s' k) < steps_left (rs_pc s k) \<or> Q s')"
    and pos: "\<And>s. P s \<Longrightarrow> 0 < steps_left (rs_pc s k)"
  shows "\<exists>n s'. n \<le> steps_left (rs_pc s k) \<and> rs_run am api k n s = Some s' \<and> Q s' \<and>
    rb_ptr (rs_tr s') \<noteq> None \<and> (\<forall>i. i \<noteq> k \<longrightarrow> rs_pc s' i = rs_pc s i)"
  using assms(1,2)
proof (induction "steps_left (rs_pc s k)" arbitrary: s rule: less_induct)
  case less
  from step [OF less(2,3)] obtain s1 where s1: "rs_move am api k s = Some s1" "rb_ptr (rs_tr s1) \<noteq> None"
    "P s1 \<and> steps_left (rs_pc s1 k) < steps_left (rs_pc s k) \<or> Q s1" by blast
  have same: "rs_pc s1 i = rs_pc s i" if "i \<noteq> k" for i
    using rs_move_mutex [OF s1(1)] that by (simp add: mutex_step_def)
  show ?case
  proof (cases "Q s1")
    case True
    then show ?thesis using s1 same pos [OF less(3)] by (intro exI [of _ 1] exI [of _ s1]) simp
  next
    case False
    with s1(3) have d: "P s1" "steps_left (rs_pc s1 k) < steps_left (rs_pc s k)" by blast+
    from less(1) [OF d(2) s1(2) d(1)] obtain n s' where n: "n \<le> steps_left (rs_pc s1 k)"
      "rs_run am api k n s1 = Some s'" "Q s'" "rb_ptr (rs_tr s') \<noteq> None"
      "\<forall>i. i \<noteq> k \<longrightarrow> rs_pc s' i = rs_pc s1 i" by blast
    then show ?thesis using s1(1) same d(2) by (intro exI [of _ "Suc n"] exI [of _ s']) simp
  qed
qed

lemma reachable_ptr: "rs_reachable am api others s \<Longrightarrow> rb_ptr (rs_tr s) \<noteq> None"
proof (induction rule: rs_reachable.induct)
  case (Begin s i a call)
  obtain pc where "rs_begin am api i call s = rs_at i pc s" using rs_begin_at by blast
  with Begin show ?case by simp
next
  case (Move s i s')
  then show ?case using settle_frame(1) [of am _ _ "rs_tr s"]
    by (cases "rs_pc s i") (auto simp: rs_move_def Let_def
        split: option.splits if_splits prod.splits sum.splits wait_result.splits)
qed (simp_all add: rt_initial_def createTransport_RabbitMq_def)

lemma blocked_thread:
  assumes "rs_pc s i = pc" and "\<And>a. pc \<noteq> Outside a" and "rs_move am api i s = None" and "rb_ptr (rs_tr s) \<noteq> None"
  shows "(\<exists>n bm. pc = Send_lock n bm \<and> rs_send_mu s \<noteq> None) \<or> (\<exists>j q. pc = Settle_lock j q \<and> rs_ack_mu s j \<noteq> None)"
  using assms by (cases pc) (auto simp: rs_move_def Let_def split: option.splits if_splits prod.splits)

lemma steps_left_bound:
  "steps_left pc \<le> 5" "holds_send pc \<Longrightarrow> 0 < steps_left pc" "holds_ack pc = Some j \<Longrightarrow> 0 < steps_left pc"
  by (cases pc; simp)+

lemma blocked_ends:
  assumes s: "rs_reachable am api others s" and inside: "\<And>a. rs_pc s i \<noteq> Outside a" and "rs_move am api i s = None"
  shows "\<exists>k n s'. k \<noteq> i \<and> n \<le> 5 \<and> rs_run am api k n s = Some s' \<and> rs_move am api i s' \<noteq> None"
proof -
  have ptr: "rb_ptr (rs_tr s) \<noteq> None" and m: "mutexes_ok s"
    using reachable_ptr [OF s] reachable_mutexes [OF s] .
  from blocked_thread [OF refl inside assms(3) ptr] show ?thesis
  proof (elim disjE exE conjE)
    fix n bm assume n: "rs_pc s i = Send_lock n bm" "rs_send_mu s \<noteq> None"
    then obtain k where "rs_send_mu s = Some k" by blast
    then have k: "holds_send (rs_pc s k)" "k \<noteq> i" using m n(1) unfolding mutexes_ok_def by (metis, metis holds_send.simps(7))
    from owner_finishes [where P = "\<lambda>s. holds_send (rs_pc s k)" and Q = "\<lambda>s. rs_send_mu s = None", OF ptr k(1)]
      send_owner_moves steps_left_bound(2) obtain l s' where "l \<le> steps_left (rs_pc s k)" "rs_run am api k l s = Some s'"
      "rs_send_mu s' = None" "rb_ptr (rs_tr s') \<noteq> None" "\<forall>i. i \<noteq> k \<longrightarrow> rs_pc s' i = rs_pc s i" by blast
    then show ?thesis using k(2) n(1) steps_left_bound(1) [of "rs_pc s k"]
      by (intro exI [of _ k] exI [of _ l] exI [of _ s']) (auto simp: rs_move_def)
  next
    fix j q assume n: "rs_pc s i = Settle_lock j q" "rs_ack_mu s j \<noteq> None"
    then obtain k where "rs_ack_mu s j = Some k" by blast
    then have k: "holds_ack (rs_pc s k) = Some j" "k \<noteq> i" using m n(1) unfolding mutexes_ok_def by (metis, metis holds_ack.simps(18) option.distinct(1))
    from owner_finishes [where P = "\<lambda>s. holds_ack (rs_pc s k) = Some j" and Q = "\<lambda>s. rs_ack_mu s j = None", OF ptr k(1)]
      ack_owner_moves steps_left_bound(3) obtain l s' where "l \<le> steps_left (rs_pc s k)" "rs_run am api k l s = Some s'"
      "rs_ack_mu s' j = None" "rb_ptr (rs_tr s') \<noteq> None" "\<forall>i. i \<noteq> k \<longrightarrow> rs_pc s' i = rs_pc s i" by blast
    then show ?thesis using k(2) n(1) steps_left_bound(1) [of "rs_pc s k"]
      by (intro exI [of _ k] exI [of _ l] exI [of _ s']) (auto simp: rs_move_def)
  qed
qed

section \<open>Properties\<close>

text \<open>A library, for evaluation: it numbers its channels, and its broker has one queue.\<close>

definition counted_amqp :: "(nat \<times> plain_message list, nat, plain_message, plain_message) amqp" where
  "counted_amqp = \<lparr>
     am_Create = (\<lambda>_ (k, ms). (Inr k, (Suc k, ms))),
     am_DeclareQueue = (\<lambda>_ _ _ _ _ _ w. (Inr (), w)),
     am_BasicPublish = (\<lambda>_ _ _ m (k, ms). (Inr (), (k, ms @ [m]))),
     am_BasicGet = (\<lambda>_ _ _ (k, ms). case ms of [] \<Rightarrow> (Inr None, (k, ms)) | m # r \<Rightarrow> (Inr (Some m), (k, r))),
     am_BasicConsume = (\<lambda>_ _ _ _ _ _ _ w. (Inr ''tag'', w)),
     am_BasicConsumeMessage = (\<lambda>_ _ _ (k, ms). case ms of
         [] \<Rightarrow> (Inr None, (k, ms)) | m # r \<Rightarrow> (Inr (Some m), (k, r))),
     am_BasicCancel = (\<lambda>_ _ w. (Inr (), w)),
     am_BasicAck = (\<lambda>_ _ w. (Inr (), w)),
     am_BasicReject = (\<lambda>_ _ _ w. (Inr (), w)),
     am_Message = (\<lambda>d. d),
     steady_now = (\<lambda>_. 0),
     stop_seen = (\<lambda>_. False),
     wait_lock = (\<lambda>w. w)\<rparr>"

lemma counted_fresh: "opens_fresh counted_amqp (\<lambda>w w'. w' = w) (\<lambda>w. {..<fst w})"
  by (auto simp: opens_fresh_def counted_amqp_def split: list.splits)

lemma reachable_run: "rs_reachable am api others s \<Longrightarrow> rs_run am api i n s = Some s' \<Longrightarrow> rs_reachable am api others s'"
  by (induction n arbitrary: s) (auto split: option.splits intro: rs_reachable.Move)

text \<open>Runs of that library, for the witnesses: thread 0 sends, thread 1 receives for manual acknowledgement.\<close>

abbreviation demo_reachable :: "(nat \<times> plain_message list, nat, plain_message, plain_message) rt_system \<Rightarrow> bool" where
  "demo_reachable \<equiv> rs_reachable counted_amqp plain_api (\<lambda>w w'. w' = w)"

abbreviation demo_run where "demo_run \<equiv> rs_run counted_amqp plain_api"

abbreviation demo_begin where "demo_begin \<equiv> rs_begin counted_amqp plain_api"

abbreviation demo_send :: rb_call where
  "demo_send \<equiv> Call_send \<lparr>addr_name = ''q''\<rparr> empty_envelope \<lparr>confirm = False\<rparr>"

abbreviation demo_receive :: rb_call where
  "demo_receive \<equiv> Call_receive \<lparr>addr_name = ''q''\<rparr> \<lparr>recv_timeout = Some 0, ack_mode = AckManual\<rparr>"

abbreviation demo_start :: "(nat \<times> plain_message list, nat, plain_message, plain_message) rt_system" where
  "demo_start \<equiv> rt_initial RabbitMqSimple_default (0, [])"

lemmas demo_defs = rt_initial_def createTransport_RabbitMq_def counted_amqp_def rs_move_def rb_is_stopped_def
  openChannel_def Let_def

lemma demo_sending: "demo_reachable (demo_begin 0 demo_send demo_start)"
  by (rule rs_reachable.Begin [OF rs_reachable.Start]) (simp_all add: rt_initial_def)

text \<open>
  C14: no channel is used by two threads at once. The source claims it in its comment on concurrency, and it is what
  makes the use of a library without locks of its own right: whatever calls any number of threads make, in any
  interleaving, and whatever the library answers, two library calls that are in progress at the same time are
  made on different channels. All that is asked of the library is that \<^verbatim>\<open>Channel::Create\<close> makes new channels.
\<close>

theorem channels_not_shared:
  assumes "opens_fresh am others live" and "rs_reachable am api others s"
    and "channel_in_use s i = Some c" and "channel_in_use s k = Some c"
  shows "i = k"
proof -
  from used_channel [OF assms(2,3)] used_channel [OF assms(2,4)] obtain p r where
    "owned s p = Some c" "case p of Sender \<Rightarrow> rs_send_mu s = Some i | Receiver l \<Rightarrow> l = i | Delivered j \<Rightarrow> rs_ack_mu s j = Some i"
    "owned s r = Some c" "case r of Sender \<Rightarrow> rs_send_mu s = Some k | Receiver l \<Rightarrow> l = k | Delivered j \<Rightarrow> rs_ack_mu s j = Some k"
    by blast
  moreover from this have "p = r" using reachable_channels [OF assms(2,1)] unfolding channels_ok_def by blast
  ultimately show ?thesis by (cases p) auto
qed

theorem channels_not_shared_witness:
  "\<exists>s. demo_reachable s \<and> channel_in_use s 0 = Some 0 \<and>
     channel_in_use s 1 \<noteq> None \<and> channel_in_use s 1 \<noteq> Some 0"
proof -
  obtain s2 m where s2: "demo_run 0 3 (demo_begin 0 demo_send demo_start) = Some s2" "rs_pc s2 1 = Outside None"
    "rs_pc s2 0 = Send_declare ''q'' m 0" "rb_world (rs_tr s2) = (1, [])"
    "\<exists>st. rb_ptr (rs_tr s2) = Some st \<and> \<not> rb_stopped st"
    by (simp add: eval_nat_numeral demo_defs)
  have R2: "demo_reachable s2" using reachable_run [OF demo_sending s2(1)] .
  have R3: "demo_reachable (demo_begin 1 demo_receive s2)" by (rule rs_reachable.Begin [OF R2 s2(2)]) simp
  obtain s4 n args c where s4: "demo_run 1 1 (demo_begin 1 demo_receive s2) = Some s4" "rs_pc s4 1 = Recv_declare n args c"
    "rs_pc s4 0 = Send_declare ''q'' m 0"
    using s2 by (auto simp: demo_defs)
  then have in_use: "channel_in_use s4 0 = Some 0" "channel_in_use s4 1 = Some c"
    by (simp_all add: channel_in_use_def)
  have R4: "demo_reachable s4" using reachable_run [OF R3 s4(1)] .
  have "c \<noteq> 0" using channels_not_shared [OF counted_fresh R4 in_use(1), of 1] in_use(2) by auto
  with R4 in_use show ?thesis by auto
qed

text \<open>The shared channel is opened once: when there is one, it stays.\<close>

theorem send_channel_kept:
  assumes "rs_reachable am api others s" and "owned s Sender = Some c" and "rs_move am api i s = Some s'"
  shows "owned s' Sender = Some c"
proof -
  have "rs_pc s i \<noteq> Send_open n bm" for n bm
    using reachable_senders [OF assms(1)] assms(2) unfolding senders_ok_def by (metis option.distinct(1))
  then show ?thesis using rs_move_sender [OF reachable_mutexes [OF assms(1)] assms(3)] assms(2) by metis
qed

text \<open>
  C28: a delivery is settled at most once, by whatever threads. Any number of threads may call the ack and nack
  handlers of a message, at the same time or one after the other: at most one of the calls succeeds
  at the broker, and the flag \<^verbatim>\<open>completed\<close> is set exactly for the deliveries for which one has.
\<close>

theorem settled_once_by_threads:
  assumes "rs_reachable am api others s"
  shows "distinct (rs_settled s) \<and>
    set (rs_settled s) = {j. j < length (rb_acks (rs_tr s)) \<and> ack_completed (rb_acks (rs_tr s) ! j)}"
  using reachable_deliveries [OF assms] by (simp add: deliveries_ok_def)

lemma demo_delivered:
  "\<exists>s. demo_reachable s \<and> rs_pc s 2 = Outside None \<and> rs_pc s 3 = Outside None \<and> rb_ptr (rs_tr s) \<noteq> None \<and>
     rs_ack_mu s = (\<lambda>_. None) \<and> (\<exists>c d. rb_acks (rs_tr s) = [\<lparr>ack_completed = False, ack_ch = c, ack_delivery = d\<rparr>]) \<and>
     rs_settled s = []"
proof -
  obtain s1 m where s1: "demo_run 0 6 (demo_begin 0 demo_send demo_start) = Some s1"
    "\<forall>i. i \<noteq> 0 \<longrightarrow> rs_pc s1 i = Outside None" "rb_world (rs_tr s1) = (1, [m])"
    "\<exists>st. rb_ptr (rs_tr s1) = Some st \<and> \<not> rb_stopped st" "rb_acks (rs_tr s1) = []" "rs_settled s1 = []"
    "rs_ack_mu s1 = (\<lambda>_. None)"
    by (simp add: eval_nat_numeral demo_defs)
  have R1: "demo_reachable s1" using reachable_run [OF demo_sending s1(1)] .
  have R2: "demo_reachable (demo_begin 1 demo_receive s1)" by (rule rs_reachable.Begin [OF R1]) (use s1(2) in simp_all)
  obtain s2 where "demo_run 1 3 (demo_begin 1 demo_receive s1) = Some s2"
    "\<forall>i. i \<noteq> 0 \<longrightarrow> i \<noteq> 1 \<longrightarrow> rs_pc s2 i = Outside None" "rb_ptr (rs_tr s2) \<noteq> None" "rs_settled s2 = []"
    "rs_ack_mu s2 = (\<lambda>_. None)" "\<exists>c d. rb_acks (rs_tr s2) = [\<lparr>ack_completed = False, ack_ch = c, ack_delivery = d\<rparr>]"
    using s1 by (auto simp: eval_nat_numeral demo_defs recv_deliver_def makeMessageFromDelivery_def)
  then show ?thesis using reachable_run [OF R2] by (intro exI [of _ s2]) simp
qed

theorem settled_once_by_threads_witness:
  "\<exists>s. demo_reachable s \<and> rs_settled s = [0] \<and> length (rb_acks (rs_tr s)) = 1 \<and> ack_completed (rb_acks (rs_tr s) ! 0)"
proof -
  obtain s c d where s: "demo_reachable s" "rs_pc s 2 = Outside None" "rs_ack_mu s = (\<lambda>_. None)"
    "rb_ptr (rs_tr s) \<noteq> None" "rb_acks (rs_tr s) = [\<lparr>ack_completed = False, ack_ch = c, ack_delivery = d\<rparr>]"
    "rs_settled s = []" using demo_delivered by blast
  have R: "demo_reachable (demo_begin 2 (Call_settle 0 None) s)"
    by (rule rs_reachable.Begin [OF s(1,2)]) (simp add: s(5))
  obtain s' where s': "demo_run 2 4 (demo_begin 2 (Call_settle 0 None) s) = Some s'" "rs_settled s' = [0]"
    "length (rb_acks (rs_tr s')) = 1"
    using s by (auto simp: eval_nat_numeral demo_defs settle_call_def)
  have R': "demo_reachable s'" using reachable_run [OF R s'(1)] .
  from settled_once_by_threads [OF this] s'(2) have "ack_completed (rb_acks (rs_tr s') ! 0)" by auto
  with R' s' show ?thesis by blast
qed

text \<open>
  C24: no thread waits for a mutex for ever. In every reachable state, a thread that cannot move inside
  a call waits for a mutex, and the thread that owns it frees it by at most five steps of its own, whatever the library
  answers, so that the waiting thread can move. In particular there is no deadlock.
\<close>

theorem mutex_waits_end:
  assumes "rs_reachable am api others s" and "\<And>a. rs_pc s i \<noteq> Outside a" and "rs_move am api i s = None"
  shows "\<exists>k n s'. k \<noteq> i \<and> n \<le> 5 \<and> rs_run am api k n s = Some s' \<and> rs_move am api i s' \<noteq> None"
  using assms by (rule blocked_ends)

theorem mutex_waits_end_witness:
  "\<exists>s. demo_reachable s \<and> rs_move counted_amqp plain_api 1 s = None \<and>
     (\<exists>k n s'. n \<le> 5 \<and> demo_run k n s = Some s' \<and> rs_move counted_amqp plain_api 1 s' \<noteq> None)"
proof -
  obtain s1 where s1: "demo_run 0 2 (demo_begin 0 demo_send demo_start) = Some s1" "rs_pc s1 1 = Outside None"
    "\<exists>st. rb_ptr (rs_tr s1) = Some st \<and> \<not> rb_stopped st" "rs_send_mu s1 = Some 0"
    by (simp add: eval_nat_numeral demo_defs)
  let ?s = "demo_begin 1 demo_send s1"
  have R1: "demo_reachable s1" using reachable_run [OF demo_sending s1(1)] .
  have R2: "demo_reachable ?s" by (rule rs_reachable.Begin [OF R1 s1(2)]) simp
  obtain m where pc: "rs_pc ?s 1 = Send_lock ''q'' m"
    using s1(3) by (auto simp: rb_is_stopped_def counted_amqp_def)
  have stuck: "rs_move counted_amqp plain_api 1 ?s = None"
    using pc s1(3,4) by (auto simp: rs_move_def rb_is_stopped_def counted_amqp_def)
  have inside: "rs_pc ?s 1 \<noteq> Outside a" for a unfolding pc by simp
  from mutex_waits_end [OF R2 inside stuck] R2 stuck show ?thesis by blast
qed

end
