(* ===== verification/Rabbit_Calls.thy ===== *)
theory Rabbit_Calls
  imports Rabbit_Threads
begin

text \<open>
  The calls of the RabbitMQ transport as the steps of their thread: a call that no other thread interrupts does what the
  sequential definitions (\<open>rb_send\<close>, \<open>rb_receive\<close>, \<open>rb_ack\<close>, \<open>rb_nack\<close>) say. The wait loops are
  followed by the induction rules of their partial functions.
\<close>

section \<open>Steps of one thread\<close>

definition leads_to ::
  "('w, 'ch, 'bm, 'd) amqp \<Rightarrow> ('bm, 'tv) bm_api \<Rightarrow> nat \<Rightarrow> ('w, 'ch, 'bm, 'd) rt_system \<Rightarrow>
   ('w, 'ch, 'bm, 'd) rt_system \<Rightarrow> bool" where
  "leads_to am api i s s' \<longleftrightarrow> (\<exists>n. rs_run am api i n s = Some s')"

lemma leads_refl: "s = s' \<Longrightarrow> leads_to am api i s s'"
  unfolding leads_to_def by (rule exI [of _ 0]) simp

lemma leads_step:
  assumes "rs_move am api i s = Some s1" and "leads_to am api i s1 s2"
  shows "leads_to am api i s s2"
proof -
  from assms(2) obtain n where "rs_run am api i n s1 = Some s2" unfolding leads_to_def by blast
  with assms(1) have "rs_run am api i (Suc n) s = Some s2" by simp
  then show ?thesis unfolding leads_to_def by blast
qed

lemma rs_run_add: "rs_run am api i (m + n) s = Option.bind (rs_run am api i m s) (rs_run am api i n)"
  by (induction m arbitrary: s) (auto split: option.splits)

lemma leads_trans:
  assumes "leads_to am api i s s1" and "leads_to am api i s1 s2"
  shows "leads_to am api i s s2"
proof -
  from assms obtain m n where "rs_run am api i m s = Some s1" "rs_run am api i n s1 = Some s2"
    unfolding leads_to_def by blast
  then have "rs_run am api i (m + n) s = Some s2" by (simp add: rs_run_add)
  then show ?thesis unfolding leads_to_def by blast
qed

text \<open>A thread's own steps, as changes of its place and of the world.\<close>

lemma rs_normal [simp]:
  "rs_at i p (rs_at i q s) = rs_at i p s" "rt_world w (rs_at i p s) = rs_at i p (rt_world w s)"
  "rt_world w (rt_world v s) = rt_world w s" "rt_world (rb_world (rs_tr s)) s = s"
  "(rs_at i p s)\<lparr>rs_tr := t\<rparr> = rs_at i p (s\<lparr>rs_tr := t\<rparr>)"
  "(rs_at i p s)\<lparr>rs_send_mu := m\<rparr> = rs_at i p (s\<lparr>rs_send_mu := m\<rparr>)"
  "(rs_at i p s)\<lparr>rs_ack_mu := k\<rparr> = rs_at i p (s\<lparr>rs_ack_mu := k\<rparr>)"
  "(rs_at i p s)\<lparr>rs_settled := l\<rparr> = rs_at i p (s\<lparr>rs_settled := l\<rparr>)"
  by (simp_all add: rs_at_def rt_world_def)

lemma rs_move_at:
  "rb_ptr (rs_tr s) = Some st \<Longrightarrow>
   rs_move am api i (rs_at i pc (rt_world w s)) = rs_step am api i pc st w (rs_at i pc (rt_world w s))"
  by (simp add: rs_move_def)

definition after_wait :: "ReceiveArgs \<Rightarrow> string \<Rightarrow> 'ch \<Rightarrow> 'd wait_result \<Rightarrow> ('w, 'ch, 'bm, 'd) rb_pc" where
  "after_wait args tag ch r = (case r of WaitThrew x \<Rightarrow> recv_failed x | _ \<Rightarrow> Recv_cancel args r tag ch)"

lemma leads_at:
  assumes "rb_ptr (rs_tr s) = Some st" and "rs_step am api i pc st w (rs_at i pc (rt_world w s)) = Some s1"
    and "leads_to am api i s1 s2"
  shows "leads_to am api i (rs_at i pc (rt_world w s)) s2"
  by (rule leads_step [OF _ assms(3)]) (simp add: rs_move_at [OF assms(1)] assms(2))

lemma wait_alone:
  "rb_wait am ch tag st w = Some res \<Longrightarrow> rb_ptr (rs_tr s) = Some st \<Longrightarrow>
   leads_to am api i (rs_at i (Recv_check args None tag ch) (rt_world w s))
     (rs_at i (after_wait args tag ch (fst res)) (rt_world (snd res) s))"
proof (induction rule: rb_wait.raw_induct [rotated 1, consumes 1])
  case (1 wait am ch tag st w res)
  show ?case
  proof (cases "rb_is_stopped am st w")
    case True
    then show ?thesis using 1(2)
      by (auto intro: leads_refl simp: after_wait_def intro!: leads_at [OF 1(3) rs_step.simps(12)])
  next
    case False
    obtain q v where poll: "am_BasicConsumeMessage am ch tag 200 w = (q, v)" by (metis surj_pair)
    have "leads_to am api i (rs_at i (Recv_poll args None 200 tag ch) (rt_world w s))
      (rs_at i (after_wait args tag ch (fst res)) (rt_world (snd res) s))"
      using 1(2) False poll 1(1) [of am ch tag st v res, OF _ 1(3)]
      by (intro leads_at [OF 1(3) rs_step.simps(13)])
        (auto intro: leads_refl simp: after_wait_def split: sum.splits option.splits)
    then show ?thesis using False by (intro leads_at [OF 1(3) rs_step.simps(12)]) simp
  qed
qed

lemma wait_until_alone:
  "rb_wait_until am ch tag st deadline w = Some res \<Longrightarrow> rb_ptr (rs_tr s) = Some st \<Longrightarrow>
   leads_to am api i (rs_at i (Recv_check args (Some deadline) tag ch) (rt_world w s))
     (rs_at i (after_wait args tag ch (fst res)) (rt_world (snd res) s))"
proof (induction rule: rb_wait_until.raw_induct [rotated 1, consumes 1])
  case (1 wait am ch tag st deadline w res)
  show ?case
  proof (cases "rb_is_stopped am st w \<or> deadline \<le> steady_now am w")
    case True
    then show ?thesis using 1(2)
      by (auto intro: leads_refl simp: after_wait_def intro!: leads_at [OF 1(3) rs_step.simps(12)] split: if_splits)
  next
    case False
    let ?ms = "wait_ms deadline (steady_now am w)"
    obtain q v where poll: "am_BasicConsumeMessage am ch tag ?ms w = (q, v)" by (metis surj_pair)
    have "leads_to am api i (rs_at i (Recv_poll args (Some deadline) ?ms tag ch) (rt_world w s))
      (rs_at i (after_wait args tag ch (fst res)) (rt_world (snd res) s))"
      using 1(2) False poll 1(1) [of am ch tag st deadline v res, OF _ 1(3)]
      by (intro leads_at [OF 1(3) rs_step.simps(13)])
        (auto intro: leads_refl simp: after_wait_def split: sum.splits option.splits)
    then show ?thesis using False by (intro leads_at [OF 1(3) rs_step.simps(12)]) simp
  qed
qed

text \<open>A consume, from its start to the answer; then the receive as a whole.\<close>

definition recv_end ::
  "('w, 'ch, 'bm, 'd) amqp \<Rightarrow> ('bm, 'tv) bm_api \<Rightarrow> nat \<Rightarrow> ReceiveArgs \<Rightarrow> 'ch \<Rightarrow> 'd wait_result \<Rightarrow>
   ('w, 'ch, 'bm, 'd) rt_system \<Rightarrow> ('w, 'ch, 'bm, 'd) rt_system" where
  "recv_end am api i args ch r s = (case r of
       WaitThrew x \<Rightarrow> rs_at i (recv_failed x) s
     | WaitGot d \<Rightarrow> recv_deliver am api i args ch d s
     | WaitTimedOut \<Rightarrow> rs_at i (Outside (Some (Received_answer (Inl (timeout ''receive timed out''))))) s
     | WaitStopped \<Rightarrow> rs_at i (Outside (Some (Received_answer (Inl (unavailable ''transport shut down''))))) s)"

lemma deliver_at [simp]: "recv_deliver am api i args ch d (rs_at i pc s) = recv_deliver am api i args ch d s"
  by (simp add: recv_deliver_def split: prod.splits)

lemma cancel_alone:
  assumes "rb_ptr (rs_tr s) = Some st"
  shows "leads_to am api i (rs_at i (after_wait args tag ch r) (rt_world w s))
    (recv_end am api i args ch r (rt_world (if \<exists>x. r = WaitThrew x then w else cancel_consumer am ch tag w) s))"
proof (cases "\<exists>x. r = WaitThrew x")
  case True
  then show ?thesis by (auto intro: leads_refl simp: after_wait_def recv_end_def)
next
  case False
  then have "rs_at i (after_wait args tag ch r) (rt_world w s) = rs_at i (Recv_cancel args r tag ch) (rt_world w s)"
    by (simp add: after_wait_def split: wait_result.splits)
  moreover have "leads_to am api i (rs_at i (Recv_cancel args r tag ch) (rt_world w s))
      (recv_end am api i args ch r (rt_world (cancel_consumer am ch tag w) s))"
    by (rule leads_at [OF assms rs_step.simps(14) [unfolded Let_def]], rule leads_refl)
      (use False in \<open>auto simp: recv_end_def split: wait_result.splits\<close>)
  ultimately show ?thesis unfolding if_not_P [OF False] by simp
qed

lemma consume_alone:
  assumes ptr: "rb_ptr (rs_tr s) = Some st" and "rb_consume am st ch n args w = Some (r, w')"
  shows "leads_to am api i (rs_at i (Recv_consume n args ch) (rt_world w s))
    (recv_end am api i args ch r (rt_world w' s))"
proof (rule leads_at [OF ptr rs_step.simps(11)])
  obtain c w1 where c: "am_BasicConsume am ch n [] True (ack_mode args = AckAuto) False 1 w = (c, w1)"
    by (metis surj_pair)
  show "leads_to am api i
     (case am_BasicConsume am ch n [] True (ack_mode args = AckAuto) False 1 w of
       (Inl x, w') \<Rightarrow> rs_at i (recv_failed x) (rt_world w' (rs_at i (Recv_consume n args ch) (rt_world w s)))
     | (Inr tag, w') \<Rightarrow> rs_at i (Recv_check args
         (map_option (\<lambda>ms. steady_now am w' + ms * 1000000) (recv_timeout args)) tag ch)
         (rt_world w' (rs_at i (Recv_consume n args ch) (rt_world w s))))
     (recv_end am api i args ch r (rt_world w' s))"
  proof (cases c)
    case (Inl x)
    then show ?thesis using assms(2) c by (auto intro: leads_refl simp: rb_consume_def recv_end_def)
  next
    case (Inr tag)
    define waited where "waited = (case recv_timeout args of
        None \<Rightarrow> rb_wait am ch tag st w1
      | Some ms \<Rightarrow> rb_wait_until am ch tag st (steady_now am w1 + ms * 1000000) w1)"
    obtain res w2 where w2: "waited = Some (res, w2)"
      and fin: "r = res" "w' = (if \<exists>x. res = WaitThrew x then w2 else cancel_consumer am ch tag w2)"
      using assms(2) c Inr
      by (auto simp: rb_consume_def waited_def split: option.splits wait_result.splits)
    have "leads_to am api i
       (rs_at i (Recv_check args (map_option (\<lambda>ms. steady_now am w1 + ms * 1000000) (recv_timeout args)) tag ch)
         (rt_world w1 s))
       (rs_at i (after_wait args tag ch res) (rt_world w2 s))"
      using w2 wait_alone [OF _ ptr] wait_until_alone [OF _ ptr]
      by (fastforce simp: waited_def split: option.splits)
    from leads_trans [OF this cancel_alone [OF ptr]] show ?thesis using c Inr fin by simp
  qed
qed

text \<open>The answer \<open>r\<close> and the transport \<open>t\<close> that the receive makes of the end of a wait, or of a poll.\<close>

definition wait_answers ::
  "('w, 'ch, 'bm, 'd) amqp \<Rightarrow> ('bm, 'tv) bm_api \<Rightarrow> ReceiveArgs \<Rightarrow> 'ch \<Rightarrow> ('w, 'ch, 'd) RabbitMqSimpleTransport \<Rightarrow>
   'd wait_result \<times> 'w \<Rightarrow>
   ('w, 'ch, 'd) RabbitMqSimpleTransport Message Result \<times> ('w, 'ch, 'd) RabbitMqSimpleTransport" where
  "wait_answers am api args ch t0 res = (case res of
       (WaitThrew x, w) \<Rightarrow> (Inl (unavailable (''receive failed: '' @ x)), t0\<lparr>rb_world := w\<rparr>)
     | (WaitStopped, w) \<Rightarrow> (Inl (unavailable ''transport shut down''), t0\<lparr>rb_world := w\<rparr>)
     | (WaitTimedOut, w) \<Rightarrow> (Inl (timeout ''receive timed out''), t0\<lparr>rb_world := w\<rparr>)
     | (WaitGot d, w) \<Rightarrow> map_prod Inr id (makeMessageFromDelivery am api ch d (ack_mode args) (t0\<lparr>rb_world := w\<rparr>)))"

definition poll_answers ::
  "('w, 'ch, 'bm, 'd) amqp \<Rightarrow> ('bm, 'tv) bm_api \<Rightarrow> ReceiveArgs \<Rightarrow> 'ch \<Rightarrow> ('w, 'ch, 'd) RabbitMqSimpleTransport \<Rightarrow>
   (string + 'd option) \<times> 'w \<Rightarrow>
   ('w, 'ch, 'd) RabbitMqSimpleTransport Message Result \<times> ('w, 'ch, 'd) RabbitMqSimpleTransport" where
  "poll_answers am api args ch t0 res = (case res of
       (Inl x, w) \<Rightarrow> (Inl (unavailable (''receive failed: '' @ x)), t0\<lparr>rb_world := w\<rparr>)
     | (Inr None, w) \<Rightarrow> (Inl (timeout ''no message received''), t0\<lparr>rb_world := w\<rparr>)
     | (Inr (Some d), w) \<Rightarrow> map_prod Inr id (makeMessageFromDelivery am api ch d (ack_mode args) (t0\<lparr>rb_world := w\<rparr>)))"

abbreviation received ::
  "nat \<Rightarrow> ('w, 'ch, 'd) RabbitMqSimpleTransport Message Result \<times> ('w, 'ch, 'd) RabbitMqSimpleTransport \<Rightarrow>
   ('w, 'ch, 'bm, 'd) rt_system \<Rightarrow> ('w, 'ch, 'bm, 'd) rt_system" where
  "received i res s \<equiv> rs_at i (Outside (Some (Received_answer (fst res)))) (s\<lparr>rs_tr := snd res\<rparr>)"

lemma recv_end_received:
  "recv_end am api i args ch r (rt_world w s) = received i (wait_answers am api args ch (rs_tr s) (r, w)) s"
  by (cases r) (simp_all add: recv_end_def wait_answers_def recv_failed_def recv_deliver_def rt_world_def
      split: prod.splits)

lemma get_alone:
  assumes ptr: "rb_ptr (rs_tr s) = Some st"
  shows "leads_to am api i (rs_at i (Recv_get n args ch) (rt_world w s))
    (received i (poll_answers am api args ch (rs_tr s) (am_BasicGet am ch n (ack_mode args = AckAuto) w)) s)"
  by (rule leads_at [OF ptr rs_step.simps(10)], rule leads_refl)
    (simp add: poll_answers_def recv_failed_def recv_deliver_def rt_world_def
      split: prod.splits sum.splits option.splits)

lemma declared_alone:
  assumes ptr: "rb_ptr (rs_tr s) = Some st"
    and q: "am_DeclareQueue am ch n False False False False w1 = (Inr u, w2)"
    and res: "if recv_timeout args = Some 0
      then res = poll_answers am api args ch (rs_tr s) (am_BasicGet am ch n (ack_mode args = AckAuto) w2)
      else \<exists>g w3. rb_consume am st ch n args w2 = Some (g, w3) \<and> res = wait_answers am api args ch (rs_tr s) (g, w3)"
  shows "leads_to am api i (rs_at i (Recv_declare n args ch) (rt_world w1 s)) (received i res s)"
proof -
  have "leads_to am api i (rs_at i (if recv_timeout args = Some 0 then Recv_get n args ch
      else Recv_consume n args ch) (rt_world w2 s)) (received i res s)"
  proof (cases "recv_timeout args = Some 0")
    case True
    then show ?thesis using res get_alone [OF ptr, of am api i n args ch w2] by simp
  next
    case False
    then obtain g w3 where g: "rb_consume am st ch n args w2 = Some (g, w3)"
      "res = wait_answers am api args ch (rs_tr s) (g, w3)" using res by auto
    from consume_alone [OF ptr g(1), of api i] show ?thesis
      using False by (simp add: recv_end_received g(2))
  qed
  then show ?thesis using q by (intro leads_at [OF ptr rs_step.simps(9)]) simp
qed

lemma receive_alone:
  assumes ptr: "rb_ptr (rs_tr s) = Some st" and rcv: "rb_receive am api src args (rs_tr s) = Some (r, t)"
  shows "leads_to am api i (rs_begin am api i (Call_receive src args) s) (received i (r, t) s)"
proof (cases "addr_name src = [] \<or> rb_is_stopped am st (rb_world (rs_tr s))")
  case True
  then show ?thesis using assms by (auto intro!: leads_refl simp: rb_receive_def)
next
  case False
  let ?n = "addr_name src" and ?w = "rb_world (rs_tr s)"
  obtain c w1 where c: "openChannel am (rb_opts st) ?w = (c, w1)" by (metis surj_pair)
  have "leads_to am api i (rs_at i (Recv_open ?n args) (rt_world ?w s)) (received i (r, t) s)"
  proof (cases c)
    case (Inl x)
    then have "rs_at i (recv_failed x) (rt_world w1 s) = received i (r, t) s"
      using rcv False c ptr by (auto simp: rb_receive_def recv_failed_def rt_world_def)
    then show ?thesis using c Inl by (intro leads_at [OF ptr rs_step.simps(8)] leads_refl) simp
  next
    case (Inr ch)
    note open_ok = c [unfolded Inr]
    obtain q w2 where q: "am_DeclareQueue am ch ?n False False False False w1 = (q, w2)" by (metis surj_pair)
    have "leads_to am api i (rs_at i (Recv_declare ?n args ch) (rt_world w1 s)) (received i (r, t) s)"
    proof (cases q)
      case (Inl x)
      then have "rs_at i (recv_failed x) (rt_world w2 s) = received i (r, t) s"
        using rcv False open_ok ptr q by (auto simp: rb_receive_def recv_failed_def rt_world_def)
      then show ?thesis using q Inl by (intro leads_at [OF ptr rs_step.simps(9)] leads_refl) simp
    next
      case (Inr u)
      show ?thesis
        by (rule declared_alone [OF ptr q [unfolded Inr]])
          (use rcv False open_ok ptr q Inr in \<open>auto simp: rb_receive_def Let_def poll_answers_def wait_answers_def
            split: if_splits prod.splits sum.splits option.splits wait_result.splits\<close>)
    qed
    then show ?thesis using open_ok by (intro leads_at [OF ptr rs_step.simps(8)]) simp
  qed
  then show ?thesis using False ptr by simp
qed

text \<open>The send: with the mutex free, and nobody else changing the world while it is taken.\<close>

lemma unlock_alone:
  assumes "rb_ptr (rs_tr s) = Some st" and "(rt_world w s)\<lparr>rs_send_mu := None\<rparr> = s'"
  shows "leads_to am api i (rs_at i (Send_unlock r) (rt_world w s)) (rs_at i (Outside (Some (Sent_answer r))) s')"
  by (rule leads_at [OF assms(1) rs_step.simps(7)], rule leads_refl) (simp add: assms(2))

lemma declare_alone:
  assumes ptr: "rb_ptr (rs_tr s) = Some st"
    and r: "(r, w') = (case am_DeclareQueue am ch n False False False False w of
        (Inl x, w2) \<Rightarrow> (unavailable (''send failed: '' @ x), w2)
      | (Inr _, w2) \<Rightarrow> (case am_BasicPublish am ch [] n bm w2 of
            (Inl x, w3) \<Rightarrow> (unavailable (''send failed: '' @ x), w3)
          | (Inr _, w3) \<Rightarrow> (success, w3)))"
  shows "leads_to am api i (rs_at i (Send_declare n bm ch) (rt_world w s)) (rs_at i (Send_unlock r) (rt_world w' s))"
proof -
  obtain q w2 where q: "am_DeclareQueue am ch n False False False False w = (q, w2)" by (metis surj_pair)
  show ?thesis
  proof (cases q)
    case (Inl x)
    then show ?thesis using q r by (intro leads_at [OF ptr rs_step.simps(5)] leads_refl) simp
  next
    case (Inr u)
    obtain p w3 where p: "am_BasicPublish am ch [] n bm w2 = (p, w3)" by (metis surj_pair)
    have "leads_to am api i (rs_at i (Send_publish n bm ch) (rt_world w2 s)) (rs_at i (Send_unlock r) (rt_world w' s))"
      by (rule leads_at [OF ptr rs_step.simps(6)], rule leads_refl, cases p) (use q r Inr p in simp_all)
    then show ?thesis using q Inr by (intro leads_at [OF ptr rs_step.simps(5)]) simp
  qed
qed

text \<open>From the check under the mutex to the answer.\<close>

definition send_result ::
  "('w, 'ch, 'bm, 'd) amqp \<Rightarrow> string \<Rightarrow> 'bm \<Rightarrow> 'ch \<Rightarrow> 'w \<Rightarrow> Status \<times> 'w" where
  "send_result am n bm ch w = (case am_DeclareQueue am ch n False False False False w of
        (Inl x, w2) \<Rightarrow> (unavailable (''send failed: '' @ x), w2)
      | (Inr _, w2) \<Rightarrow> (case am_BasicPublish am ch [] n bm w2 of
            (Inl x, w3) \<Rightarrow> (unavailable (''send failed: '' @ x), w3)
          | (Inr _, w3) \<Rightarrow> (success, w3)))"

lemma checked_alone:
  assumes ptr: "rb_ptr (rs_tr s) = Some st" and up: "\<not> rb_is_stopped am st w" and free: "rs_send_mu s0 = None"
    and s: "s = s0\<lparr>rs_send_mu := Some i\<rparr>"
    and res: "(r, t) = (case (case rb_send_ch st of Some ch \<Rightarrow> (Inr ch, w) | None \<Rightarrow> openChannel am (rb_opts st) w) of
        (Inl x, w1) \<Rightarrow> (unavailable (''send failed: '' @ x), (rs_tr s0)\<lparr>rb_world := w1\<rparr>)
      | (Inr ch, w1) \<Rightarrow> (case send_result am n bm ch w1 of (r, w') \<Rightarrow>
          (r, (rs_tr s0)\<lparr>rb_ptr := Some (st\<lparr>rb_send_ch := Some ch\<rparr>), rb_world := w'\<rparr>)))"
  shows "leads_to am api i (rs_at i (Send_check n bm) (rt_world w s))
    (rs_at i (Outside (Some (Sent_answer r))) (s0\<lparr>rs_tr := t\<rparr>))"
proof (cases "rb_send_ch st")
  case (Some ch)
  obtain r' w' where r': "send_result am n bm ch w = (r', w')" by (metis surj_pair)
  have same: "(rs_tr s0)\<lparr>rb_ptr := Some (st\<lparr>rb_send_ch := Some ch\<rparr>), rb_world := w'\<rparr> = (rs_tr s0)\<lparr>rb_world := w'\<rparr>"
    using ptr s Some by (cases "rs_tr s0", cases st) simp
  have "leads_to am api i (rs_at i (Send_declare n bm ch) (rt_world w s)) (rs_at i (Send_unlock r') (rt_world w' s))"
    by (rule declare_alone [OF ptr]) (simp add: r' [symmetric] send_result_def)
  moreover have "leads_to am api i (rs_at i (Send_unlock r') (rt_world w' s))
      (rs_at i (Outside (Some (Sent_answer r'))) (s0\<lparr>rs_tr := t\<rparr>))"
    by (rule unlock_alone [OF ptr]) (use res Some r' same free s in \<open>simp add: rt_world_def\<close>)
  ultimately have "leads_to am api i (rs_at i (Send_declare n bm ch) (rt_world w s))
      (rs_at i (Outside (Some (Sent_answer r))) (s0\<lparr>rs_tr := t\<rparr>))"
    using res Some r' by (auto intro: leads_trans)
  then show ?thesis using up Some by (intro leads_at [OF ptr rs_step.simps(3)]) simp
next
  case None
  obtain c w1 where c: "openChannel am (rb_opts st) w = (c, w1)" by (metis surj_pair)
  have "leads_to am api i (rs_at i (Send_open n bm) (rt_world w s))
      (rs_at i (Outside (Some (Sent_answer r))) (s0\<lparr>rs_tr := t\<rparr>))"
  proof (cases c)
    case (Inl x)
    have "leads_to am api i (rs_at i (Send_unlock r) (rt_world w1 s))
        (rs_at i (Outside (Some (Sent_answer r))) (s0\<lparr>rs_tr := t\<rparr>))"
      by (rule unlock_alone [OF ptr]) (use res None c Inl free s in \<open>simp add: rt_world_def\<close>)
    then show ?thesis using c Inl res None by (intro leads_at [OF ptr rs_step.simps(4)]) simp
  next
    case (Inr ch)
    let ?s = "s\<lparr>rs_tr := (rs_tr s)\<lparr>rb_ptr := Some (st\<lparr>rb_send_ch := Some ch\<rparr>)\<rparr>\<rparr>"
    obtain r' w' where r': "send_result am n bm ch w1 = (r', w')" by (metis surj_pair)
    have ptr': "rb_ptr (rs_tr ?s) = Some (st\<lparr>rb_send_ch := Some ch\<rparr>)" by simp
    have "leads_to am api i (rs_at i (Send_declare n bm ch) (rt_world w1 ?s)) (rs_at i (Send_unlock r') (rt_world w' ?s))"
      by (rule declare_alone [OF ptr']) (simp add: r' [symmetric] send_result_def)
    moreover have "leads_to am api i (rs_at i (Send_unlock r') (rt_world w' ?s))
        (rs_at i (Outside (Some (Sent_answer r'))) (s0\<lparr>rs_tr := t\<rparr>))"
      by (rule unlock_alone [OF ptr']) (use res None c Inr r' free s in \<open>simp add: rt_world_def\<close>)
    ultimately have "leads_to am api i (rs_at i (Send_declare n bm ch) (rt_world w1 ?s))
        (rs_at i (Outside (Some (Sent_answer r))) (s0\<lparr>rs_tr := t\<rparr>))"
      using res None c Inr r' by (auto intro: leads_trans)
    then show ?thesis using c Inr by (intro leads_at [OF ptr rs_step.simps(4)]) (simp add: rt_world_def)
  qed
  then show ?thesis using up None by (intro leads_at [OF ptr rs_step.simps(3)]) simp
qed

lemma send_alone:
  assumes ptr: "rb_ptr (rs_tr s) = Some st" and free: "rs_send_mu s = None"
    and wait: "wait_lock am (rb_world (rs_tr s)) = rb_world (rs_tr s)"
    and snd: "rb_send am api dest e args (rs_tr s) = (r, t)"
  shows "leads_to am api i (rs_begin am api i (Call_send dest e args) s)
    (rs_at i (Outside (Some (Sent_answer r))) (s\<lparr>rs_tr := t\<rparr>))"
proof (cases "addr_name dest = [] \<or> confirm args \<or> rb_is_stopped am st (rb_world (rs_tr s))")
  case True
  then show ?thesis using assms by (auto intro!: leads_refl simp: rb_send_def)
next
  case False
  let ?n = "addr_name dest" and ?bm = "toBasicMessage api e" and ?w = "rb_world (rs_tr s)"
  let ?s1 = "s\<lparr>rs_send_mu := Some i\<rparr>"
  have "leads_to am api i (rs_at i (Send_check ?n ?bm) (rt_world ?w ?s1))
      (rs_at i (Outside (Some (Sent_answer r))) (s\<lparr>rs_tr := t\<rparr>))"
    by (rule checked_alone [OF _ _ free refl, where st = st])
      (use ptr False snd wait in \<open>auto simp: rb_send_def send_result_def Let_def
        split: prod.splits sum.splits option.splits\<close>)
  then have "leads_to am api i (rs_at i (Send_lock ?n ?bm) (rt_world ?w s))
      (rs_at i (Outside (Some (Sent_answer r))) (s\<lparr>rs_tr := t\<rparr>))"
    by (intro leads_at [OF ptr]) (simp_all add: free rt_world_def)
  then show ?thesis using False ptr by simp
qed

text \<open>The handlers of a delivery, as the sequential definitions have them.\<close>

definition settle ::
  "('w, 'ch, 'bm, 'd) amqp \<Rightarrow> nat \<Rightarrow> bool option \<Rightarrow> ('w, 'ch, 'd) RabbitMqSimpleTransport \<Rightarrow>
   Status \<times> ('w, 'ch, 'd) RabbitMqSimpleTransport" where
  "settle am j q = (case q of None \<Rightarrow> rb_ack am j | Some requeue \<Rightarrow> rb_nack am j requeue)"

lemma settle_parts:
  "settle am j q t = (if ack_completed (rb_acks t ! j) then (internal ''message already acked/nacked'', t)
    else settle_call am j q t)"
  by (cases q) (simp_all add: settle_def rb_ack_def rb_nack_def rb_complete_def settle_call_def Let_def
      split: prod.splits sum.splits)

lemma settle_alone:
  assumes ptr: "rb_ptr (rs_tr s) = Some st" and free: "rs_ack_mu s j = None"
    and call: "settle am j q (rs_tr s) = (r, t)"
  shows "\<exists>l. leads_to am api i (rs_begin am api i (Call_settle j q) s)
    (rs_at i (Outside (Some (Settled_answer r))) (s\<lparr>rs_tr := t, rs_settled := l\<rparr>))"
proof -
  let ?done = "ack_completed (rb_acks (rs_tr s) ! j)"
  let ?l = "if \<not> ?done \<and> ok r then j # rs_settled s else rs_settled s"
  let ?fin = "rs_at i (Outside (Some (Settled_answer r))) (s\<lparr>rs_tr := t, rs_settled := ?l\<rparr>)"
  let ?s1 = "s\<lparr>rs_ack_mu := (rs_ack_mu s)(j := Some i)\<rparr>"
  have p: "rb_ptr t = Some st" using settle_frame(1) [of am j q "rs_tr s" r t] call ptr
    by (auto simp: settle_parts split: if_splits)
  have "leads_to am api i (rs_at i (Settle_unlock j r) (?s1\<lparr>rs_tr := t, rs_settled := ?l\<rparr>)) ?fin"
    by (rule leads_step [OF _ leads_refl [OF refl]]) (use free in \<open>simp add: rs_move_def p fun_upd_idem\<close>)
  moreover have "leads_to am api i (rs_at i (Settle_check j q) ?s1)
      (rs_at i (Settle_unlock j r) (?s1\<lparr>rs_tr := t, rs_settled := ?l\<rparr>))"
  proof (cases ?done)
    case True
    then show ?thesis using call by (intro leads_step [OF _ leads_refl]) (auto simp: rs_move_def ptr settle_parts)
  next
    case False
    then have "leads_to am api i (rs_at i (Settle_call j q) ?s1)
        (rs_at i (Settle_unlock j r) (?s1\<lparr>rs_tr := t, rs_settled := ?l\<rparr>))"
      using call by (intro leads_step [OF _ leads_refl]) (auto simp: rs_move_def ptr settle_parts)
    then show ?thesis by (rule leads_step [rotated]) (use False in \<open>simp add: rs_move_def ptr\<close>)
  qed
  ultimately have "leads_to am api i (rs_at i (Settle_check j q) ?s1) ?fin" by (rule leads_trans [rotated])
  then have "leads_to am api i (rs_at i (Settle_lock j q) s) ?fin"
    by (rule leads_step [rotated]) (simp add: rs_move_def ptr free)
  then show ?thesis by (intro exI [of _ ?l]) simp
qed

section \<open>Properties\<close>

text \<open>A call by the sequential definitions: the answer and the transport afterwards.\<close>

fun call_result ::
  "('w, 'ch, 'bm, 'd) amqp \<Rightarrow> ('bm, 'tv) bm_api \<Rightarrow> rb_call \<Rightarrow> ('w, 'ch, 'd) RabbitMqSimpleTransport \<Rightarrow>
   (('w, 'ch, 'd) rb_answer \<times> ('w, 'ch, 'd) RabbitMqSimpleTransport) option" where
  "call_result am api (Call_send dest e args) t = Some (map_prod Sent_answer id (rb_send am api dest e args t))"
| "call_result am api (Call_receive src args) t = map_option (map_prod Received_answer id) (rb_receive am api src args t)"
| "call_result am api (Call_settle j q) t = Some (map_prod Settled_answer id (settle am j q t))"

lemma call_leads:
  assumes "rb_ptr (rs_tr s) \<noteq> None" and "rs_send_mu s = None" and "rs_ack_mu s = (\<lambda>_. None)"
    and "wait_lock am (rb_world (rs_tr s)) = rb_world (rs_tr s)"
    and "call_result am api call (rs_tr s) = Some (a, t)"
  shows "\<exists>l. leads_to am api i (rs_begin am api i call s)
    (rs_at i (Outside (Some a)) (s\<lparr>rs_tr := t, rs_settled := l\<rparr>))"
proof -
  obtain st where ptr: "rb_ptr (rs_tr s) = Some st" using assms(1) by blast
  have same: "s\<lparr>rs_tr := t, rs_settled := rs_settled s\<rparr> = s\<lparr>rs_tr := t\<rparr>" by simp
  show ?thesis
  proof (cases call)
    case (Call_send dest e args)
    then show ?thesis using assms(5) send_alone [OF ptr assms(2,4), of api dest e args _ _ i]
      by (intro exI [of _ "rs_settled s"]) (cases "rb_send am api dest e args (rs_tr s)", simp)
  next
    case (Call_receive src args)
    then obtain r where r: "rb_receive am api src args (rs_tr s) = Some (r, t)" "a = Received_answer r"
      using assms(5) by auto
    then show ?thesis using Call_receive receive_alone [OF ptr r(1), of i]
      by (intro exI [of _ "rs_settled s"]) simp
  next
    case (Call_settle j q)
    then show ?thesis using assms(3,5) settle_alone [OF ptr, of j am q _ t api i]
      by (cases "settle am j q (rs_tr s)") auto
  qed
qed

text \<open>
  C29: a call that is not interrupted is the sequential one. If no mutex is taken, a thread that begins a send, a
  receive or the settling of a delivery, and whose sequential definition returns, comes by its own steps to that
  answer; the transport is then the one the definition gives, no other thread has moved, and no mutex is held.
\<close>

theorem uninterrupted_call:
  assumes "rb_ptr (rs_tr s) \<noteq> None" and "rs_send_mu s = None" and "rs_ack_mu s = (\<lambda>_. None)"
    and "wait_lock am (rb_world (rs_tr s)) = rb_world (rs_tr s)"
    and "call_result am api call (rs_tr s) = Some (a, t)"
  shows "\<exists>n s'. rs_run am api i n (rs_begin am api i call s) = Some s' \<and> rs_tr s' = t \<and>
    rs_pc s' = (rs_pc s)(i := Outside (Some a)) \<and> rs_send_mu s' = None \<and> rs_ack_mu s' = (\<lambda>_. None)"
proof -
  from call_leads [OF assms, of i] obtain l n where
    "rs_run am api i n (rs_begin am api i call s) =
      Some (rs_at i (Outside (Some a)) (s\<lparr>rs_tr := t, rs_settled := l\<rparr>))" unfolding leads_to_def by blast
  then show ?thesis using assms(2,3) by (intro exI [of _ n]) simp
qed

theorem uninterrupted_call_witness:
  "\<exists>n s'. demo_run 3 n (demo_begin 3 demo_send demo_start) = Some s' \<and>
    rs_pc s' 3 = Outside (Some (Sent_answer success)) \<and> snd (rb_world (rs_tr s')) = [toBasicMessage plain_api empty_envelope]"
proof -
  obtain t where t: "call_result counted_amqp plain_api demo_send (rs_tr demo_start) = Some (Sent_answer success, t)"
    "snd (rb_world t) = [toBasicMessage plain_api empty_envelope]"
    by (simp add: demo_defs rb_send_def)
  have "rb_ptr (rs_tr demo_start) \<noteq> None" "rs_send_mu demo_start = None" "rs_ack_mu demo_start = (\<lambda>_. None)"
    "wait_lock counted_amqp (rb_world (rs_tr demo_start)) = rb_world (rs_tr demo_start)"
    by (simp_all add: demo_defs)
  from uninterrupted_call [OF this t(1), of 3] obtain n s' where
    run: "demo_run 3 n (demo_begin 3 demo_send demo_start) = Some s'" and end_tr: "rs_tr s' = t"
      and "rs_pc s' = (rs_pc demo_start)(3 := Outside (Some (Sent_answer success)))" by blast
  then have "rs_pc s' 3 = Outside (Some (Sent_answer success))" by simp
  with run t(2) show ?thesis unfolding end_tr [symmetric] by blast
qed

end
