(* ===== verification/Qdmi_Common.thy ===== *)
theory Qdmi_Common
  imports Qrm_Config
begin

text \<open>
  The QDMI helpers of the workflow (\<^verbatim>\<open>examples/qrm_workflow/include/common.hpp\<close>): the property
  macros with which a device answers a query (a value, a string or a list written to the caller's
  buffer), the range check of property numbers, the leaked singleton, and the texts of the
  enumerators. The enumerations are QDMI's; their constructors here are the enumerators that the
  switches list.

  A buffer is the block of memory the caller passed, as the list of its bytes; a null pointer is
  \<open>None\<close>. A write beyond the block is \<open>Undefined\<close>. A macro returns from its function only when the
  property matches: \<open>None\<close> stands for falling through.
\<close>

section \<open>Enumerations\<close>

datatype QDMI_STATUS =
    QDMI_WARN_GENERAL
  | QDMI_SUCCESS
  | QDMI_ERROR_FATAL
  | QDMI_ERROR_OUTOFMEM
  | QDMI_ERROR_NOTIMPLEMENTED
  | QDMI_ERROR_LIBNOTFOUND
  | QDMI_ERROR_NOTFOUND
  | QDMI_ERROR_OUTOFRANGE
  | QDMI_ERROR_INVALIDARGUMENT
  | QDMI_ERROR_PERMISSIONDENIED
  | QDMI_ERROR_NOTSUPPORTED
  | QDMI_ERROR_BADSTATE
  | QDMI_ERROR_TIMEOUT

fun toString_QDMI_STATUS :: "QDMI_STATUS \<Rightarrow> string" where
  "toString_QDMI_STATUS QDMI_WARN_GENERAL = ''General warning''"
| "toString_QDMI_STATUS QDMI_SUCCESS = ''Success''"
| "toString_QDMI_STATUS QDMI_ERROR_FATAL = ''A fatal error''"
| "toString_QDMI_STATUS QDMI_ERROR_OUTOFMEM = ''Out of memory''"
| "toString_QDMI_STATUS QDMI_ERROR_NOTIMPLEMENTED = ''Not implemented''"
| "toString_QDMI_STATUS QDMI_ERROR_LIBNOTFOUND = ''Library not found''"
| "toString_QDMI_STATUS QDMI_ERROR_NOTFOUND = ''Element not found''"
| "toString_QDMI_STATUS QDMI_ERROR_OUTOFRANGE = ''Out of range''"
| "toString_QDMI_STATUS QDMI_ERROR_INVALIDARGUMENT = ''Invalid argument''"
| "toString_QDMI_STATUS QDMI_ERROR_PERMISSIONDENIED = ''Permission denied''"
| "toString_QDMI_STATUS QDMI_ERROR_NOTSUPPORTED = ''Not supported''"
| "toString_QDMI_STATUS QDMI_ERROR_BADSTATE = ''Bad state''"
| "toString_QDMI_STATUS QDMI_ERROR_TIMEOUT = ''Timeout''"

datatype QDMI_Session_Parameter =
    QDMI_SESSION_PARAMETER_TOKEN
  | QDMI_SESSION_PARAMETER_AUTHFILE
  | QDMI_SESSION_PARAMETER_AUTHURL
  | QDMI_SESSION_PARAMETER_USERNAME
  | QDMI_SESSION_PARAMETER_PASSWORD
  | QDMI_SESSION_PARAMETER_PROJECTID
  | QDMI_SESSION_PARAMETER_MAX
  | QDMI_SESSION_PARAMETER_CUSTOM1
  | QDMI_SESSION_PARAMETER_CUSTOM2
  | QDMI_SESSION_PARAMETER_CUSTOM3
  | QDMI_SESSION_PARAMETER_CUSTOM4
  | QDMI_SESSION_PARAMETER_CUSTOM5

fun toString_QDMI_Session_Parameter :: "QDMI_Session_Parameter \<Rightarrow> string" where
  "toString_QDMI_Session_Parameter QDMI_SESSION_PARAMETER_TOKEN = ''TOKEN''"
| "toString_QDMI_Session_Parameter QDMI_SESSION_PARAMETER_AUTHFILE = ''AUTH FILE''"
| "toString_QDMI_Session_Parameter QDMI_SESSION_PARAMETER_AUTHURL = ''AUTH URL''"
| "toString_QDMI_Session_Parameter QDMI_SESSION_PARAMETER_USERNAME = ''USERNAME''"
| "toString_QDMI_Session_Parameter QDMI_SESSION_PARAMETER_PASSWORD = ''PASSWORD''"
| "toString_QDMI_Session_Parameter QDMI_SESSION_PARAMETER_PROJECTID = ''PROJECT ID''"
| "toString_QDMI_Session_Parameter QDMI_SESSION_PARAMETER_MAX = ''MAX''"
| "toString_QDMI_Session_Parameter QDMI_SESSION_PARAMETER_CUSTOM1 = ''CUSTOM1''"
| "toString_QDMI_Session_Parameter QDMI_SESSION_PARAMETER_CUSTOM2 = ''CUSTOM2''"
| "toString_QDMI_Session_Parameter QDMI_SESSION_PARAMETER_CUSTOM3 = ''CUSTOM3''"
| "toString_QDMI_Session_Parameter QDMI_SESSION_PARAMETER_CUSTOM4 = ''CUSTOM4''"
| "toString_QDMI_Session_Parameter QDMI_SESSION_PARAMETER_CUSTOM5 = ''CUSTOM5''"

datatype QDMI_Session_Property =
    QDMI_SESSION_PROPERTY_DEVICES
  | QDMI_SESSION_PROPERTY_MAX
  | QDMI_SESSION_PROPERTY_CUSTOM1
  | QDMI_SESSION_PROPERTY_CUSTOM2
  | QDMI_SESSION_PROPERTY_CUSTOM3
  | QDMI_SESSION_PROPERTY_CUSTOM4
  | QDMI_SESSION_PROPERTY_CUSTOM5

fun toString_QDMI_Session_Property :: "QDMI_Session_Property \<Rightarrow> string" where
  "toString_QDMI_Session_Property QDMI_SESSION_PROPERTY_DEVICES = ''DEVICES''"
| "toString_QDMI_Session_Property QDMI_SESSION_PROPERTY_MAX = ''MAX''"
| "toString_QDMI_Session_Property QDMI_SESSION_PROPERTY_CUSTOM1 = ''CUSTOM1''"
| "toString_QDMI_Session_Property QDMI_SESSION_PROPERTY_CUSTOM2 = ''CUSTOM2''"
| "toString_QDMI_Session_Property QDMI_SESSION_PROPERTY_CUSTOM3 = ''CUSTOM3''"
| "toString_QDMI_Session_Property QDMI_SESSION_PROPERTY_CUSTOM4 = ''CUSTOM4''"
| "toString_QDMI_Session_Property QDMI_SESSION_PROPERTY_CUSTOM5 = ''CUSTOM5''"

datatype QDMI_Device_Session_Parameter =
    QDMI_DEVICE_SESSION_PARAMETER_BASEURL
  | QDMI_DEVICE_SESSION_PARAMETER_TOKEN
  | QDMI_DEVICE_SESSION_PARAMETER_AUTHFILE
  | QDMI_DEVICE_SESSION_PARAMETER_AUTHURL
  | QDMI_DEVICE_SESSION_PARAMETER_USERNAME
  | QDMI_DEVICE_SESSION_PARAMETER_PASSWORD
  | QDMI_DEVICE_SESSION_PARAMETER_MAX
  | QDMI_DEVICE_SESSION_PARAMETER_CUSTOM1
  | QDMI_DEVICE_SESSION_PARAMETER_CUSTOM2
  | QDMI_DEVICE_SESSION_PARAMETER_CUSTOM3
  | QDMI_DEVICE_SESSION_PARAMETER_CUSTOM4
  | QDMI_DEVICE_SESSION_PARAMETER_CUSTOM5

fun toString_QDMI_Device_Session_Parameter :: "QDMI_Device_Session_Parameter \<Rightarrow> string" where
  "toString_QDMI_Device_Session_Parameter QDMI_DEVICE_SESSION_PARAMETER_BASEURL = ''BASE URL''"
| "toString_QDMI_Device_Session_Parameter QDMI_DEVICE_SESSION_PARAMETER_TOKEN = ''TOKEN''"
| "toString_QDMI_Device_Session_Parameter QDMI_DEVICE_SESSION_PARAMETER_AUTHFILE = ''AUTH FILE''"
| "toString_QDMI_Device_Session_Parameter QDMI_DEVICE_SESSION_PARAMETER_AUTHURL = ''AUTH URL''"
| "toString_QDMI_Device_Session_Parameter QDMI_DEVICE_SESSION_PARAMETER_USERNAME = ''USERNAME''"
| "toString_QDMI_Device_Session_Parameter QDMI_DEVICE_SESSION_PARAMETER_PASSWORD = ''PASSWORD''"
| "toString_QDMI_Device_Session_Parameter QDMI_DEVICE_SESSION_PARAMETER_MAX = ''MAX''"
| "toString_QDMI_Device_Session_Parameter QDMI_DEVICE_SESSION_PARAMETER_CUSTOM1 = ''CUSTOM1''"
| "toString_QDMI_Device_Session_Parameter QDMI_DEVICE_SESSION_PARAMETER_CUSTOM2 = ''CUSTOM2''"
| "toString_QDMI_Device_Session_Parameter QDMI_DEVICE_SESSION_PARAMETER_CUSTOM3 = ''CUSTOM3''"
| "toString_QDMI_Device_Session_Parameter QDMI_DEVICE_SESSION_PARAMETER_CUSTOM4 = ''CUSTOM4''"
| "toString_QDMI_Device_Session_Parameter QDMI_DEVICE_SESSION_PARAMETER_CUSTOM5 = ''CUSTOM5''"

datatype QDMI_Site_Property =
    QDMI_SITE_PROPERTY_INDEX
  | QDMI_SITE_PROPERTY_T1
  | QDMI_SITE_PROPERTY_T2
  | QDMI_SITE_PROPERTY_NAME
  | QDMI_SITE_PROPERTY_XCOORDINATE
  | QDMI_SITE_PROPERTY_YCOORDINATE
  | QDMI_SITE_PROPERTY_ZCOORDINATE
  | QDMI_SITE_PROPERTY_ISZONE
  | QDMI_SITE_PROPERTY_XEXTENT
  | QDMI_SITE_PROPERTY_YEXTENT
  | QDMI_SITE_PROPERTY_ZEXTENT
  | QDMI_SITE_PROPERTY_MODULEINDEX
  | QDMI_SITE_PROPERTY_SUBMODULEINDEX
  | QDMI_SITE_PROPERTY_MAX
  | QDMI_SITE_PROPERTY_CUSTOM1
  | QDMI_SITE_PROPERTY_CUSTOM2
  | QDMI_SITE_PROPERTY_CUSTOM3
  | QDMI_SITE_PROPERTY_CUSTOM4
  | QDMI_SITE_PROPERTY_CUSTOM5

fun toString_QDMI_Site_Property :: "QDMI_Site_Property \<Rightarrow> string" where
  "toString_QDMI_Site_Property QDMI_SITE_PROPERTY_INDEX = ''INDEX''"
| "toString_QDMI_Site_Property QDMI_SITE_PROPERTY_T1 = ''T1''"
| "toString_QDMI_Site_Property QDMI_SITE_PROPERTY_T2 = ''T2''"
| "toString_QDMI_Site_Property QDMI_SITE_PROPERTY_NAME = ''NAME''"
| "toString_QDMI_Site_Property QDMI_SITE_PROPERTY_XCOORDINATE = ''X COORDINATE''"
| "toString_QDMI_Site_Property QDMI_SITE_PROPERTY_YCOORDINATE = ''Y COORDINATE''"
| "toString_QDMI_Site_Property QDMI_SITE_PROPERTY_ZCOORDINATE = ''Z COORDINATE''"
| "toString_QDMI_Site_Property QDMI_SITE_PROPERTY_ISZONE = ''IS ZONE''"
| "toString_QDMI_Site_Property QDMI_SITE_PROPERTY_XEXTENT = ''X EXTENT''"
| "toString_QDMI_Site_Property QDMI_SITE_PROPERTY_YEXTENT = ''Y EXTENT''"
| "toString_QDMI_Site_Property QDMI_SITE_PROPERTY_ZEXTENT = ''Z EXTENT''"
| "toString_QDMI_Site_Property QDMI_SITE_PROPERTY_MODULEINDEX = ''MODULE INDEX''"
| "toString_QDMI_Site_Property QDMI_SITE_PROPERTY_SUBMODULEINDEX = ''SUBMODULE INDEX''"
| "toString_QDMI_Site_Property QDMI_SITE_PROPERTY_MAX = ''MAX''"
| "toString_QDMI_Site_Property QDMI_SITE_PROPERTY_CUSTOM1 = ''CUSTOM1''"
| "toString_QDMI_Site_Property QDMI_SITE_PROPERTY_CUSTOM2 = ''CUSTOM2''"
| "toString_QDMI_Site_Property QDMI_SITE_PROPERTY_CUSTOM3 = ''CUSTOM3''"
| "toString_QDMI_Site_Property QDMI_SITE_PROPERTY_CUSTOM4 = ''CUSTOM4''"
| "toString_QDMI_Site_Property QDMI_SITE_PROPERTY_CUSTOM5 = ''CUSTOM5''"

datatype QDMI_Operation_Property =
    QDMI_OPERATION_PROPERTY_NAME
  | QDMI_OPERATION_PROPERTY_QUBITSNUM
  | QDMI_OPERATION_PROPERTY_PARAMETERSNUM
  | QDMI_OPERATION_PROPERTY_DURATION
  | QDMI_OPERATION_PROPERTY_FIDELITY
  | QDMI_OPERATION_PROPERTY_INTERACTIONRADIUS
  | QDMI_OPERATION_PROPERTY_BLOCKINGRADIUS
  | QDMI_OPERATION_PROPERTY_IDLINGFIDELITY
  | QDMI_OPERATION_PROPERTY_ISZONED
  | QDMI_OPERATION_PROPERTY_SITES
  | QDMI_OPERATION_PROPERTY_MEANSHUTTLINGSPEED
  | QDMI_OPERATION_PROPERTY_MAX
  | QDMI_OPERATION_PROPERTY_CUSTOM1
  | QDMI_OPERATION_PROPERTY_CUSTOM2
  | QDMI_OPERATION_PROPERTY_CUSTOM3
  | QDMI_OPERATION_PROPERTY_CUSTOM4
  | QDMI_OPERATION_PROPERTY_CUSTOM5

fun toString_QDMI_Operation_Property :: "QDMI_Operation_Property \<Rightarrow> string" where
  "toString_QDMI_Operation_Property QDMI_OPERATION_PROPERTY_NAME = ''NAME''"
| "toString_QDMI_Operation_Property QDMI_OPERATION_PROPERTY_QUBITSNUM = ''QUBITS NUM''"
| "toString_QDMI_Operation_Property QDMI_OPERATION_PROPERTY_PARAMETERSNUM = ''PARAMETERS NUM''"
| "toString_QDMI_Operation_Property QDMI_OPERATION_PROPERTY_DURATION = ''DURATION''"
| "toString_QDMI_Operation_Property QDMI_OPERATION_PROPERTY_FIDELITY = ''FIDELITY''"
| "toString_QDMI_Operation_Property QDMI_OPERATION_PROPERTY_INTERACTIONRADIUS = ''INTERACTION RADIUS''"
| "toString_QDMI_Operation_Property QDMI_OPERATION_PROPERTY_BLOCKINGRADIUS = ''BLOCKING RADIUS''"
| "toString_QDMI_Operation_Property QDMI_OPERATION_PROPERTY_IDLINGFIDELITY = ''IDLING FIDELITY''"
| "toString_QDMI_Operation_Property QDMI_OPERATION_PROPERTY_ISZONED = ''IS ZONED''"
| "toString_QDMI_Operation_Property QDMI_OPERATION_PROPERTY_SITES = ''SITES''"
| "toString_QDMI_Operation_Property QDMI_OPERATION_PROPERTY_MEANSHUTTLINGSPEED = ''MEAN SHUTTLING SPEED''"
| "toString_QDMI_Operation_Property QDMI_OPERATION_PROPERTY_MAX = ''MAX''"
| "toString_QDMI_Operation_Property QDMI_OPERATION_PROPERTY_CUSTOM1 = ''CUSTOM1''"
| "toString_QDMI_Operation_Property QDMI_OPERATION_PROPERTY_CUSTOM2 = ''CUSTOM2''"
| "toString_QDMI_Operation_Property QDMI_OPERATION_PROPERTY_CUSTOM3 = ''CUSTOM3''"
| "toString_QDMI_Operation_Property QDMI_OPERATION_PROPERTY_CUSTOM4 = ''CUSTOM4''"
| "toString_QDMI_Operation_Property QDMI_OPERATION_PROPERTY_CUSTOM5 = ''CUSTOM5''"

datatype QDMI_Device_Property =
    QDMI_DEVICE_PROPERTY_NAME
  | QDMI_DEVICE_PROPERTY_VERSION
  | QDMI_DEVICE_PROPERTY_STATUS
  | QDMI_DEVICE_PROPERTY_LIBRARYVERSION
  | QDMI_DEVICE_PROPERTY_QUBITSNUM
  | QDMI_DEVICE_PROPERTY_SITES
  | QDMI_DEVICE_PROPERTY_OPERATIONS
  | QDMI_DEVICE_PROPERTY_COUPLINGMAP
  | QDMI_DEVICE_PROPERTY_NEEDSCALIBRATION
  | QDMI_DEVICE_PROPERTY_LENGTHUNIT
  | QDMI_DEVICE_PROPERTY_LENGTHSCALEFACTOR
  | QDMI_DEVICE_PROPERTY_DURATIONUNIT
  | QDMI_DEVICE_PROPERTY_DURATIONSCALEFACTOR
  | QDMI_DEVICE_PROPERTY_MINATOMDISTANCE
  | QDMI_DEVICE_PROPERTY_PULSESUPPORT
  | QDMI_DEVICE_PROPERTY_SUPPORTEDPROGRAMFORMATS
  | QDMI_DEVICE_PROPERTY_MAX
  | QDMI_DEVICE_PROPERTY_CUSTOM1
  | QDMI_DEVICE_PROPERTY_CUSTOM2
  | QDMI_DEVICE_PROPERTY_CUSTOM3
  | QDMI_DEVICE_PROPERTY_CUSTOM4
  | QDMI_DEVICE_PROPERTY_CUSTOM5

fun toString_QDMI_Device_Property :: "QDMI_Device_Property \<Rightarrow> string" where
  "toString_QDMI_Device_Property QDMI_DEVICE_PROPERTY_NAME = ''NAME''"
| "toString_QDMI_Device_Property QDMI_DEVICE_PROPERTY_VERSION = ''VERSION''"
| "toString_QDMI_Device_Property QDMI_DEVICE_PROPERTY_STATUS = ''STATUS''"
| "toString_QDMI_Device_Property QDMI_DEVICE_PROPERTY_LIBRARYVERSION = ''LIBRARY VERSION''"
| "toString_QDMI_Device_Property QDMI_DEVICE_PROPERTY_QUBITSNUM = ''QUBITS NUM''"
| "toString_QDMI_Device_Property QDMI_DEVICE_PROPERTY_SITES = ''SITES''"
| "toString_QDMI_Device_Property QDMI_DEVICE_PROPERTY_OPERATIONS = ''OPERATIONS''"
| "toString_QDMI_Device_Property QDMI_DEVICE_PROPERTY_COUPLINGMAP = ''COUPLING MAP''"
| "toString_QDMI_Device_Property QDMI_DEVICE_PROPERTY_NEEDSCALIBRATION = ''NEEDS CALIBRATION''"
| "toString_QDMI_Device_Property QDMI_DEVICE_PROPERTY_LENGTHUNIT = ''LENGTH UNIT''"
| "toString_QDMI_Device_Property QDMI_DEVICE_PROPERTY_LENGTHSCALEFACTOR = ''LENGTH SCALE FACTOR''"
| "toString_QDMI_Device_Property QDMI_DEVICE_PROPERTY_DURATIONUNIT = ''DURATION UNIT''"
| "toString_QDMI_Device_Property QDMI_DEVICE_PROPERTY_DURATIONSCALEFACTOR = ''DURATION SCALE FACTOR''"
| "toString_QDMI_Device_Property QDMI_DEVICE_PROPERTY_MINATOMDISTANCE = ''MIN ATOM DISTANCE''"
| "toString_QDMI_Device_Property QDMI_DEVICE_PROPERTY_PULSESUPPORT = ''PULSE SUPPORT''"
| "toString_QDMI_Device_Property QDMI_DEVICE_PROPERTY_SUPPORTEDPROGRAMFORMATS = ''SUPPORTED PROGRAM FORMATS''"
| "toString_QDMI_Device_Property QDMI_DEVICE_PROPERTY_MAX = ''MAX''"
| "toString_QDMI_Device_Property QDMI_DEVICE_PROPERTY_CUSTOM1 = ''CUSTOM1''"
| "toString_QDMI_Device_Property QDMI_DEVICE_PROPERTY_CUSTOM2 = ''CUSTOM2''"
| "toString_QDMI_Device_Property QDMI_DEVICE_PROPERTY_CUSTOM3 = ''CUSTOM3''"
| "toString_QDMI_Device_Property QDMI_DEVICE_PROPERTY_CUSTOM4 = ''CUSTOM4''"
| "toString_QDMI_Device_Property QDMI_DEVICE_PROPERTY_CUSTOM5 = ''CUSTOM5''"
section \<open>Properties of a device\<close>

text \<open>
  The answer to a query: the status, the caller's buffer, and the size written through
  \<^verbatim>\<open>size_ret\<close>, if that pointer is not null.
\<close>

type_synonym 'b answer = "(QDMI_STATUS \<times> 'b list option \<times> nat option) outcome"

text \<open>Copying bytes to the start of a block of memory.\<close>

definition mem_write :: "'b list \<Rightarrow> 'b list \<Rightarrow> 'b list outcome" where
  "mem_write bytes block =
     (if length bytes \<le> length block then Returns (bytes @ drop (length bytes) block) else Undefined)"

definition strlen :: "string \<Rightarrow> nat" where
  "strlen s = length (takeWhile (\<lambda>c. c \<noteq> CHR 0x00) s)"

text \<open>\<^verbatim>\<open>strncpy\<close> writes exactly \<open>n\<close> characters: the string cut to \<open>n\<close>, then zeros.\<close>

definition strncpy :: "string \<Rightarrow> string \<Rightarrow> nat \<Rightarrow> string outcome" where
  "strncpy block s n =
     (let c = take n (takeWhile (\<lambda>c. c \<noteq> CHR 0x00) s)
      in mem_write (c @ replicate (n - length c) (CHR 0x00)) block)"

definition ADD_SINGLE_VALUE_PROPERTY ::
  "'p \<Rightarrow> 'b list \<Rightarrow> 'p \<Rightarrow> nat \<Rightarrow> 'b list option \<Rightarrow> nat option \<Rightarrow> 'b answer option" where
  "ADD_SINGLE_VALUE_PROPERTY prop_name prop_value prop size_arg value size_ret =
     (if prop \<noteq> prop_name then None
      else case value of
        None \<Rightarrow> Some (Returns (QDMI_SUCCESS, None, map_option (\<lambda>_. length prop_value) size_ret))
      | Some block \<Rightarrow>
          if size_arg < length prop_value
          then Some (Returns (QDMI_ERROR_INVALIDARGUMENT, Some block, size_ret))
          else Some (bind_outcome (mem_write prop_value block) (\<lambda>block'.
            Returns (QDMI_SUCCESS, Some block', map_option (\<lambda>_. length prop_value) size_ret))))"

text \<open>
  The string macro, with \<^verbatim>\<open>strncpy\<close> as its \<^verbatim>\<open>STRNCPY\<close>; the branch for Windows, with \<^verbatim>\<open>strncpy_s\<close>, is not modelled.
\<close>

definition ADD_STRING_PROPERTY ::
  "'p \<Rightarrow> string \<Rightarrow> 'p \<Rightarrow> nat \<Rightarrow> string option \<Rightarrow> nat option \<Rightarrow> char answer option" where
  "ADD_STRING_PROPERTY prop_name prop_value prop size_arg value size_ret =
     (if prop \<noteq> prop_name then None
      else case value of
        None \<Rightarrow> Some (Returns (QDMI_SUCCESS, None, map_option (\<lambda>_. strlen prop_value + 1) size_ret))
      | Some block \<Rightarrow>
          if size_arg < strlen prop_value + 1
          then Some (Returns (QDMI_ERROR_INVALIDARGUMENT, Some block, size_ret))
          else Some (bind_outcome (strncpy block prop_value size_arg) (\<lambda>block'.
            bind_outcome (if size_arg - 1 < length block' then Returns (block'[size_arg - 1 := CHR 0x00])
                          else Undefined) (\<lambda>block''.
            Returns (QDMI_SUCCESS, Some block'', map_option (\<lambda>_. strlen prop_value + 1) size_ret)))))"

text \<open>The elements of a list property are given by their bytes, each \<open>width\<close> long.\<close>

definition ADD_LIST_PROPERTY ::
  "'p \<Rightarrow> nat \<Rightarrow> 'b list list \<Rightarrow> 'p \<Rightarrow> nat \<Rightarrow> 'b list option \<Rightarrow> nat option \<Rightarrow> 'b answer option" where
  "ADD_LIST_PROPERTY prop_name width prop_values prop size_arg value size_ret =
     (if prop \<noteq> prop_name then None
      else case value of
        None \<Rightarrow> Some (Returns (QDMI_SUCCESS, None, map_option (\<lambda>_. length prop_values * width) size_ret))
      | Some block \<Rightarrow>
          if size_arg < length prop_values * width
          then Some (Returns (QDMI_ERROR_INVALIDARGUMENT, Some block, size_ret))
          else Some (bind_outcome (mem_write (take (length prop_values * width) (concat prop_values)) block)
            (\<lambda>block'. Returns (QDMI_SUCCESS, Some block', map_option (\<lambda>_. length prop_values * width) size_ret))))"

text \<open>The numbers of the enumerators are QDMI's: \<open>max_no\<close> and the five custom ones.\<close>

definition IS_INVALID_ARGUMENT :: "int \<Rightarrow> int \<Rightarrow> int list \<Rightarrow> bool" where
  "IS_INVALID_ARGUMENT prop max_no customs \<longleftrightarrow> max_no \<le> prop \<and>
     prop \<noteq> customs ! 0 \<and> prop \<noteq> customs ! 1 \<and> prop \<noteq> customs ! 2 \<and> prop \<noteq> customs ! 3 \<and> prop \<noteq> customs ! 4"

text \<open>The function-local static of the singleton: created at the first call, never again.\<close>

definition Singleton_get :: "('s \<Rightarrow> 'c \<times> 's) \<Rightarrow> 'c option \<times> 's \<Rightarrow> 'c \<times> 'c option \<times> 's" where
  "Singleton_get new_concrete st =
     (case fst st of
        Some c \<Rightarrow> (c, st)
      | None \<Rightarrow> (let (c, s) = new_concrete (snd st) in (c, Some c, s)))"

section \<open>Lemmas\<close>

lemma mem_write_returns:
  "length bytes \<le> length block \<Longrightarrow> mem_write bytes block = Returns (bytes @ drop (length bytes) block)"
  by (simp add: mem_write_def)

lemma takeWhile_no_nul [simp]: "CHR 0x00 \<notin> set s \<Longrightarrow> takeWhile (\<lambda>c. c \<noteq> CHR 0x00) s = s"
  by (auto simp: takeWhile_eq_all_conv)

lemma strlen_no_nul [simp]: "CHR 0x00 \<notin> set s \<Longrightarrow> strlen s = length s"
  by (simp add: strlen_def)

lemma strncpy_fits:
  assumes "CHR 0x00 \<notin> set s" and "length s < n" and "n \<le> length block"
  shows "strncpy block s n = Returns (s @ replicate (n - length s) (CHR 0x00) @ drop n block)"
  using assms by (simp add: strncpy_def mem_write_returns Let_def)

lemma string_property_answer:
  assumes "CHR 0x00 \<notin> set s" and "n \<le> length block"
  shows "ADD_STRING_PROPERTY p s p n (Some block) z =
    Some (Returns (if n \<le> length s then (QDMI_ERROR_INVALIDARGUMENT, Some block, z)
      else (QDMI_SUCCESS, Some (s @ replicate (n - length s) (CHR 0x00) @ drop n block),
            map_option (\<lambda>_. length s + 1) z)))"
proof (cases "length s < n")
  case True
  let ?b = "s @ replicate (n - length s) (CHR 0x00) @ drop n block"
  from True have len: "n - 1 < length ?b" and nul: "?b ! (n - 1) = CHR 0x00"
    using assms(2) by (auto simp: nth_append)
  have "?b[n - 1 := CHR 0x00] = ?b" by (metis list_update_id nul)
  with True len show ?thesis
    by (simp add: ADD_STRING_PROPERTY_def strncpy_fits [OF assms(1) True assms(2)] assms(1))
qed (simp add: ADD_STRING_PROPERTY_def assms(1))

text \<open>Every call of the singleton returns the object of the first one, and only that one constructs.\<close>

lemma singleton_once:
  "Singleton_get new_concrete st = (c, st') \<Longrightarrow> Singleton_get new_concrete' st' = (c, st')"
  by (auto simp: Singleton_get_def split: option.splits prod.splits)

text \<open>A property number is rejected exactly when it is neither below the maximum nor a custom one.\<close>

lemma invalid_argument_iff:
  "length customs = 5 \<Longrightarrow> IS_INVALID_ARGUMENT prop max_no customs \<longleftrightarrow> \<not> (prop < max_no \<or> prop \<in> set customs)"
proof -
  assume "length customs = 5"
  then obtain a b c d e where "customs = [a, b, c, d, e]"
    by (auto simp: length_Suc_conv numeral_eq_Suc)
  then show ?thesis by (auto simp: IS_INVALID_ARGUMENT_def)
qed

text \<open>The texts of each enumeration.\<close>

lemma texts_STATUS: "inj toString_QDMI_STATUS"
proof (rule injI)
  fix x y
  assume "toString_QDMI_STATUS x = toString_QDMI_STATUS y"
  then show "x = y" by (cases x; cases y) simp_all
qed

lemma texts_Session_Parameter: "inj toString_QDMI_Session_Parameter"
proof (rule injI)
  fix x y
  assume "toString_QDMI_Session_Parameter x = toString_QDMI_Session_Parameter y"
  then show "x = y" by (cases x; cases y) simp_all
qed

lemma texts_Session_Property: "inj toString_QDMI_Session_Property"
proof (rule injI)
  fix x y
  assume "toString_QDMI_Session_Property x = toString_QDMI_Session_Property y"
  then show "x = y" by (cases x; cases y) simp_all
qed

lemma texts_Device_Session_Parameter: "inj toString_QDMI_Device_Session_Parameter"
proof (rule injI)
  fix x y
  assume "toString_QDMI_Device_Session_Parameter x = toString_QDMI_Device_Session_Parameter y"
  then show "x = y" by (cases x; cases y) simp_all
qed

lemma texts_Site_Property: "inj toString_QDMI_Site_Property"
proof (rule injI)
  fix x y
  assume "toString_QDMI_Site_Property x = toString_QDMI_Site_Property y"
  then show "x = y" by (cases x; cases y) simp_all
qed

lemma texts_Operation_Property: "inj toString_QDMI_Operation_Property"
proof (rule injI)
  fix x y
  assume "toString_QDMI_Operation_Property x = toString_QDMI_Operation_Property y"
  then show "x = y" by (cases x; cases y) simp_all
qed

lemma texts_Device_Property: "inj toString_QDMI_Device_Property"
proof (rule injI)
  fix x y
  assume "toString_QDMI_Device_Property x = toString_QDMI_Device_Property y"
  then show "x = y" by (cases x; cases y) simp_all
qed

section \<open>Properties\<close>

text \<open>
  C34: the two calls with which a client reads a string property. Asked without a buffer, the device
  returns the length of the string plus one; asked again with a buffer of that size, it fills it with
  the string and a terminating zero, so that dropping the last byte gives the string back. A
  buffer that is larger is filled with zeros up to its stated size and is not written beyond it;
  one that is too small is left alone and reported as an invalid argument. No call writes beyond the
  stated size if the buffer has it.
\<close>

theorem string_property_two_calls:
  assumes "CHR 0x00 \<notin> set s"
  shows "ADD_STRING_PROPERTY p s p 0 None (Some z) = Some (Returns (QDMI_SUCCESS, None, Some (length s + 1))) \<and>
    (\<exists>block'. ADD_STRING_PROPERTY p s p (length s + 1) (Some (replicate (length s + 1) b)) None =
       Some (Returns (QDMI_SUCCESS, Some block', None)) \<and> butlast block' = s) \<and>
    (\<forall>n block. n \<le> length block \<longrightarrow>
       (\<exists>st block' r. ADD_STRING_PROPERTY p s p n (Some block) None = Some (Returns (st, Some block', r)) \<and>
          length block' = length block \<and> drop n block' = drop n block \<and>
          (if length s < n then st = QDMI_SUCCESS \<and> take n block' = s @ replicate (n - length s) (CHR 0x00)
           else st = QDMI_ERROR_INVALIDARGUMENT \<and> block' = block)))"
proof (intro conjI allI impI)
  show "ADD_STRING_PROPERTY p s p 0 None (Some z) = Some (Returns (QDMI_SUCCESS, None, Some (length s + 1)))"
    using assms by (simp add: ADD_STRING_PROPERTY_def)
  show "\<exists>block'. ADD_STRING_PROPERTY p s p (length s + 1) (Some (replicate (length s + 1) b)) None =
       Some (Returns (QDMI_SUCCESS, Some block', None)) \<and> butlast block' = s"
    using string_property_answer [OF assms, of "length s + 1" "replicate (length s + 1) b" p None]
    by (simp add: butlast_append)
next
  fix n and block :: string
  assume "n \<le> length block"
  then show "\<exists>st block' r. ADD_STRING_PROPERTY p s p n (Some block) None = Some (Returns (st, Some block', r)) \<and>
          length block' = length block \<and> drop n block' = drop n block \<and>
          (if length s < n then st = QDMI_SUCCESS \<and> take n block' = s @ replicate (n - length s) (CHR 0x00)
           else st = QDMI_ERROR_INVALIDARGUMENT \<and> block' = block)"
    using string_property_answer [OF assms, of n block p None] by auto
qed

theorem string_property_two_calls_witness:
  "ADD_STRING_PROPERTY QDMI_DEVICE_PROPERTY_NAME ''SC'' QDMI_DEVICE_PROPERTY_NAME 0 None (Some 0) =
     Some (Returns (QDMI_SUCCESS, None, Some 3))"
  using string_property_two_calls [of "''SC''" QDMI_DEVICE_PROPERTY_NAME 0 "CHR ''x''"] by simp

text \<open>
  The same protocol for lists, as the submitter uses it for devices and counts. The first call
  gives the size in bytes, a multiple of the width of an element; the second fills a buffer of this
  size with the elements, which dividing the size by the width counts.
\<close>

theorem list_property_two_calls:
  assumes "list_all (\<lambda>x. length x = width) xs" and "0 < width"
  shows "\<exists>size. ADD_LIST_PROPERTY p width xs p 0 None (Some z) = Some (Returns (QDMI_SUCCESS, None, Some size)) \<and>
    size div width = length xs \<and>
    ADD_LIST_PROPERTY p width xs p size (Some (replicate size b)) None =
      Some (Returns (QDMI_SUCCESS, Some (concat xs), None))"
proof -
  have "length (concat xs) = length xs * width"
    using assms(1) by (induction xs) (auto simp: list_all_iff)
  with assms(2) show ?thesis by (simp add: ADD_LIST_PROPERTY_def mem_write_def)
qed

theorem list_property_two_calls_witness:
  "ADD_LIST_PROPERTY QDMI_SESSION_PROPERTY_DEVICES 2 [''ab'', ''cd''] QDMI_SESSION_PROPERTY_DEVICES 4
     (Some (replicate 4 (CHR ''x''))) None = Some (Returns (QDMI_SUCCESS, Some ''abcd'', None))"
  using list_property_two_calls [of 2 "[''ab'', ''cd'']" QDMI_SESSION_PROPERTY_DEVICES 0 "CHR ''x''"]
  by (simp add: ADD_LIST_PROPERTY_def)

text \<open>
  The texts of the enumerators identify them. Within each of the seven enumerations no two
  enumerators have the same text.
\<close>

theorem enumerator_texts_distinct:
  "inj toString_QDMI_STATUS \<and> inj toString_QDMI_Session_Parameter \<and> inj toString_QDMI_Session_Property \<and>
   inj toString_QDMI_Device_Session_Parameter \<and> inj toString_QDMI_Site_Property \<and>
   inj toString_QDMI_Operation_Property \<and> inj toString_QDMI_Device_Property"
  by (intro conjI texts_STATUS
      texts_Session_Parameter
      texts_Session_Property
      texts_Device_Session_Parameter
      texts_Site_Property
      texts_Operation_Property
      texts_Device_Property)

end
