(* ===== verification/Mqss_Consumer.thy ===== *)
theory Mqss_Consumer
  imports Messenger Proto_Messages
begin

text \<open>
  The consumer example (\<^verbatim>\<open>examples/mqss_consumer/main.cpp\<close>): a task sent and received in one
  process over the in-memory transport with the binary codec. The protobuf serializer and parser
  are parameters. The outcome is the exit code and what is written to the two output streams;
  \<open>None\<close> means that the receive does not return.
\<close>

record console =
  cons_exit :: int
  cons_out :: "string list"
  cons_err :: "string list"

definition consumer_task :: QuantumTask where
  "consumer_task = QuantumTask_default
     \<lparr>qt_task_id := 119, qt_n_qbits := 5, qt_n_shots := 1024, qt_result_destination := ''results.queue''\<rparr>"

definition consumer_main ::
  "(QuantumTask \<Rightarrow> string option) \<Rightarrow> (string \<Rightarrow> QuantumTask option) \<Rightarrow> (im_state \<Rightarrow> im_state) \<Rightarrow>
   console option" where
  "consumer_main ser par others =
     (let (send_st, t) = messenger_send (ProtoBinary_encode ser) im_send \<lparr>addr_name = ''tasks''\<rparr> consumer_task
            default_send_args createTransport_InMemory
      in if \<not> ok send_st
         then Some \<lparr>cons_exit = 1, cons_out = [], cons_err = [''send failed: '' @ reason send_st @ [CHR 0x0A]]\<rparr>
         else case messenger_receive (ProtoBinary_decode par) (im_receive others) \<lparr>addr_name = ''tasks''\<rparr>
                \<lparr>recv_timeout = Some 0, ack_mode = AckAuto\<rparr> t of
           None \<Rightarrow> None
         | Some (Inl e, t') \<Rightarrow>
             Some \<lparr>cons_exit = 1, cons_out = [], cons_err = [''receive failed: '' @ reason e @ [CHR 0x0A]]\<rparr>
         | Some (Inr decoded, t') \<Rightarrow>
             if qt_task_id decoded \<noteq> 119 \<or> qt_n_qbits decoded \<noteq> 5 \<or> qt_n_shots decoded \<noteq> 1024 \<or>
                qt_result_destination decoded \<noteq> ''results.queue''
             then Some \<lparr>cons_exit = 1, cons_out = [], cons_err = [''roundtrip verification failed'' @ [CHR 0x0A]]\<rparr>
             else Some \<lparr>cons_exit = 0, cons_out = [''MQSS in-memory roundtrip succeeded'' @ [CHR 0x0A]],
                        cons_err = []\<rparr>)"

section \<open>Properties\<close>

text \<open>
  The consumer example ends by what the serializer does, and always ends. Its transport is its
  own and idle, so the send and the receive themselves cannot fail: the exit code is 0 exactly when
  the task can be serialized and parsing the text gives the four values that were set; every
  other case exits with 1 and one line on the error stream.
\<close>

theorem consumer_main_outcome:
  "consumer_main ser par others =
     Some (case ser consumer_task of
       None \<Rightarrow> \<lparr>cons_exit = 1, cons_out = [],
         cons_err = [''send failed: protobuf binary serialization failed'' @ [CHR 0x0A]]\<rparr>
     | Some p \<Rightarrow>
         (case par p of
            None \<Rightarrow> \<lparr>cons_exit = 1, cons_out = [],
              cons_err = [''receive failed: protobuf binary parse failed'' @ [CHR 0x0A]]\<rparr>
          | Some d \<Rightarrow>
              if qt_task_id d = 119 \<and> qt_n_qbits d = 5 \<and> qt_n_shots d = 1024 \<and>
                 qt_result_destination d = ''results.queue''
              then \<lparr>cons_exit = 0, cons_out = [''MQSS in-memory roundtrip succeeded'' @ [CHR 0x0A]], cons_err = []\<rparr>
              else \<lparr>cons_exit = 1, cons_out = [], cons_err = [''roundtrip verification failed'' @ [CHR 0x0A]]\<rparr>))"
proof (cases "ser consumer_task")
  case None
  then show ?thesis by (simp add: consumer_main_def messenger_send_def ProtoBinary_encode_def)
next
  case (Some p)
  let ?e = "empty_envelope\<lparr>payload := p, content_type := ''application/x-protobuf''\<rparr>"
  let ?d = "\<lparr>addr_name = ''tasks''\<rparr>"
  have "ProtoBinary_encode ser consumer_task = Inr ?e" using Some by (simp add: ProtoBinary_encode_def)
  from im_binary.one_value [OF this, of ?d default_send_args createTransport_InMemory par others
      "\<lparr>recv_timeout = Some 0, ack_mode = AckAuto\<rparr>"] idle_initial
  obtain t1 t2 where "messenger_send (ProtoBinary_encode ser) im_send ?d consumer_task default_send_args
      createTransport_InMemory = (success, t1)"
    "messenger_receive (ProtoBinary_decode par) (im_receive others) ?d
      \<lparr>recv_timeout = Some 0, ack_mode = AckAuto\<rparr> t1 = Some (ProtoBinary_decode par ?e, t2)"
    by (auto simp: idle_def default_send_args_def)
  with Some show ?thesis by (auto simp: consumer_main_def ProtoBinary_decode_def split: option.split)
qed

end
