(* ===== verification/Spec2Isabelle.thy ===== *)
theory Spec2Isabelle
  imports Worker_Rounds Session Full_Rabbit Rabbit_Calls Qdmi_Common Mqss_Consumer
begin

text \<open>
  \<^bold>\<open>The MQSS integration and deployment framework.\<close> The framework is a typed messaging library
  (\<^verbatim>\<open>include/mqss\<close>) with two transports, and three programs built on it: QOffload
  (\<^verbatim>\<open>examples/qoffload_service\<close>), which stands between the clients of an HPC centre and the quantum
  resource manager; the QRM workflow (\<^verbatim>\<open>examples/qrm_workflow\<close>), four processes that play the
  resource manager; and a consumer example. This development models all of them. Every definition
  is a translation of the function or type it is named after, with the branches of the source,
  failures included; libraries that are not part of the repository (protobuf, SimpleAmqpClient and
  the broker, spdlog's sinks, MLIR, QDMI, the clock) are parameters.

  \<^bold>\<open>Conventions.\<close> A \<^verbatim>\<open>Result<T>\<close> is a sum with the \<open>Status\<close> on the left; a C++ exception is a sum with
  its text, or the value \<open>Throws\<close> of the type \<open>outcome\<close>, whose other values are a normal return, a
  failed assertion, and undefined behaviour. A blocking call is a function to \<open>option\<close>, where
  \<open>None\<close> means that it does not return. Integers have their C++ width; an implicit conversion is
  written out (\<open>to_int32\<close>, \<open>to_uint64\<close>). A hash map is a list of pairs with distinct keys in an
  unspecified order. An operation that the source runs under a mutex is one step.

  \<^bold>\<open>The library.\<close>
  \<^item> \<open>Mqss_Prelude\<close>: widths, decimal text, lines, paths, doubles. \<open>Hash_Map\<close>: the interface
    \<open>unordered_map\<close> and its interpretation.
  \<^item> \<open>Status\<close>, \<open>Message\<close>, \<open>Transport\<close>: \<^verbatim>\<open>Status.hpp\<close>, \<^verbatim>\<open>Message.hpp\<close>, \<^verbatim>\<open>Transport.hpp\<close>; the last has the
    contracts of a transport as the locales \<open>transport_contract\<close> and \<open>fifo_transport\<close>.
  \<^item> \<open>InMemory_Transport\<close>: \<^verbatim>\<open>InMemoryTransport.cpp\<close>, once as the calls of one thread and once as a step
    relation of any number of threads with their condition variable: messages are delivered in
    order and once, no wake-up is lost, and a shutdown ends every wait.
  \<^item> \<open>Amqp_Message\<close>, \<open>Rabbit_Transport\<close>: \<^verbatim>\<open>RabbitMqSimpleTransport.cpp\<close>. The wait loops are partial
    functions; a receive with a timeout is shown to return if time passes during empty polls.
    \<open>Rabbit_Threads\<close>: any number of threads on one such transport, a step for each library call and each
    mutex: no channel is used by two threads at once, which is what the source's comment on concurrency claims,
    a delivery is settled at most once, and every wait for a mutex ends. \<open>Rabbit_Calls\<close>: a call that is not
    interrupted does what the sequential definition says.
  \<^item> \<open>Codec\<close>, \<open>Messenger\<close>: \<^verbatim>\<open>ProtoCodec.hpp\<close>, \<^verbatim>\<open>Messenger.hpp\<close>; the locale \<open>messenger\<close> joins the contracts
    of a codec and a transport and is interpreted for both codecs over the in-memory transport.
    \<open>Typed_Queue\<close>: what any send and receive of a messenger does to the queues, failures included,
    over a transport that loses nothing and over one that may.
  \<^item> \<open>Rabbit_Queues\<close>: what the RabbitMQ backend does to the broker's queues, from the documented laws of
    broker and client library (\<open>broker_laws\<close>): order is kept, nothing is duplicated, and a receive that waits
    with automatic acknowledgement loses the messages that the broker had sent ahead behind the one it returns.
  \<^item> \<open>Proto_Messages\<close>: the messages of \<^verbatim>\<open>messages.proto\<close>.
  \<^item> \<open>App_Config\<close>: \<^verbatim>\<open>mqss/Config.hpp\<close>, with the locale \<open>config_hooks\<close> for what an application supplies.

  \<^bold>\<open>QOffload.\<close>
  \<^item> \<open>QOffload_Config\<close>, \<open>QOffload_Logger\<close>: \<^verbatim>\<open>qoffload/Config.hpp\<close>, \<^verbatim>\<open>qoffload/Logger.hpp\<close>.
  \<^item> \<open>Task_Store\<close>: \<^verbatim>\<open>TaskStore.cpp\<close>, refined to a pair of partial maps. \<open>Resource_Registry\<close>:
    \<^verbatim>\<open>ResourceRegistry.hpp\<close>.
  \<^item> \<open>Forward\<close>: \<^verbatim>\<open>Forward.cpp\<close>; results find their way back while identifiers stay below \<open>2 ^ 31\<close>, and
    are lost from there on.
  \<^item> \<open>Control_Protocol\<close>, \<open>Typed_Protocol\<close>, \<open>Rest_Protocol\<close>, \<open>Control\<close>: \<^verbatim>\<open>control/\<close> and \<^verbatim>\<open>Control.cpp\<close>; the two
    protocols are equivalent, every request is answered, and errors are exactly those listed.
  \<^item> \<open>Worker_System\<close>: the three workers of \<^verbatim>\<open>QOffload.cpp\<close> as interleaved atomic steps with an arbitrary
    resource manager; \<open>QOffload_Service\<close>: one undisturbed round of each worker, the life cycle
    (\<^verbatim>\<open>QOffload.hpp\<close>) and \<^verbatim>\<open>main.cpp\<close> with its signals and its log.
  \<^item> \<open>Worker_Rounds\<close>: rounds of the workers in any order on recorded messengers. They refine the steps of
    \<open>Worker_System\<close>, so that what holds of the interleaved steps holds of the code's rounds: no client
    gets an answer that is not its own, nor two.

  \<^bold>\<open>The QRM workflow and the consumer.\<close>
  \<^item> \<open>Qrm_Config\<close>: \<^verbatim>\<open>Config.cpp\<close>, \<^verbatim>\<open>Logger.hpp\<close>. \<open>Qrm_Workflow\<close>: \<^verbatim>\<open>Scheduler.cpp\<close>, \<^verbatim>\<open>Daemon.cpp\<close>.
  \<^item> \<open>Qrm_Compiler\<close>: \<^verbatim>\<open>Compiler.cpp\<close>; the removal of gate definitions is total and exact on programs
    whose blocks are closed on a line of their own.
  \<^item> \<open>Qrm_Submitter\<close>: \<^verbatim>\<open>Submitter.cpp\<close>, as a sequence of the calls of the QDMI library, with a state, a log and
    assertions; what a failed call becomes with and without the assertions.
  \<^item> \<open>Qrm_Programs\<close>: the four \<^verbatim>\<open>main\<close> functions, set-up and polling loop; exactly when the compiler ends.
  \<^item> \<open>Qrm_Pipeline\<close>: the programs and their clients as interleaved rounds on one transport, each of which
    may fail, related by a simulation to a pipeline of typed lists. \<open>Qrm_Batch\<close>: the properties that follow
    (tasks stay in order, results are those of tasks sent), and the run of a whole batch of tasks, both over the
    in-memory transport.
    \<open>Qrm_Rabbit\<close>: the same concurrent workflow as it is deployed, processes with a RabbitMQ transport each and
    one broker; it implements a pipeline that may lose tasks, and the order holds.
  \<^item> \<open>Qdmi_Common\<close>: \<^verbatim>\<open>common.hpp\<close>, the property macros on byte buffers. \<open>Mqss_Consumer\<close>: the example.

  \<^bold>\<open>Together.\<close> \<open>Delivery\<close>: the locales \<open>carrier_workflow\<close> and \<open>carrier_stack\<close>, what the programs ask of whatever carries
  their messages, and from them the passage of a task and of any number of tasks one after another (\<open>workflow_serves\<close>).
  \<open>Session\<close>: the same for QOffload and the workflow together, with the state of all programs (\<open>session\<close>).
  \<open>Full_Rabbit\<close>: RabbitMQ fulfils the contracts, with a broker that does not fail. This theory composes the parts: QOffload around an arbitrary resource manager, the QRM workflow
  by itself, and the two together, over the in-memory transport and as they are deployed over RabbitMQ.

  \<^bold>\<open>Bounds.\<close> The loops of the source that may not end inside a call (the wait loops of the RabbitMQ
  transport) are partial functions, without fuel. The polling loops of the programs have no exit; a
  program is its set-up followed by a given number of rounds (\<open>poll_loop\<close>, \<open>worker_rounds\<close>), and the properties
  hold for every number, the one of a batch for as many rounds as there are tasks. \<open>fits_int32\<close> and \<open>ids_fit\<close> bound
  the identifiers issued so that their 32-bit images are distinct, which is what the correlation of
  results needs; identifiers are 10000 apart and a round issues at most one, hence the bound on the
  number of rounds in the theory \<open>Worker_Rounds\<close>.

  \<^bold>\<open>Not modelled.\<close> Generated protobuf code; the tests, the build files and the documentation. The workflow's
  enumerations of QDMI are those its switches list. A log is the list of its lines with their levels;
  the time stamps and colours of spdlog's pattern are left out. Of the string macro of \<^verbatim>\<open>common.hpp\<close>, the branch for
  Windows is not modelled.
\<close>

section \<open>The in-memory transport as a carrier\<close>

text \<open>
  All programs on one in-memory transport, whatever the other threads do while one of them waits. The repository builds
  its programs with RabbitMQ; this is the same code with the other backend, without a broker.
\<close>

definition im_stack_ops ::
  "(QuantumTask \<Rightarrow> string option) \<Rightarrow> (string \<Rightarrow> QuantumTask option) \<Rightarrow> (QuantumResult \<Rightarrow> string option) \<Rightarrow>
   (string \<Rightarrow> QuantumResult option) \<Rightarrow> (im_state \<Rightarrow> im_state) \<Rightarrow> InMemoryTransport stack_ops" where
  "im_stack_ops ser par rser rpar others = \<lparr>po_submit = im_json_send ser,
     po_scheduler_receive = im_json_receive par others, po_scheduler_send = im_json_send ser,
     po_compiler_receive = im_json_receive par others, po_compiler_send = im_json_send ser,
     po_submitter_receive = im_json_receive par others, po_submitter_send = im_json_send rser,
     po_fetch = im_json_receive rpar others,
     so_request = im_json_send ser, so_task_receive = im_json_receive par others, so_task_send = im_json_send ser,
     so_result_receive = im_json_receive rpar others, so_result_send = im_json_send rser,
     so_answer = im_json_receive rpar others\<rparr>"

lemma im_carries:
  assumes "wire_faithful ser par v"
  shows "carries idle (im_json_send ser) (im_json_receive par others) v"
  unfolding carries_def
proof (intro allI impI)
  fix n :: string and t
  assume "n \<noteq> []" "idle t"
  obtain e where e: "ProtoJson_encode ser v = Inr e" "ProtoJson_decode par e = Inr v"
    using json.encode_faithful [OF assms] by blast
  have sent: "\<exists>t1 t2. im_json_send ser \<lparr>addr_name = n\<rparr> v default_send_args t = (success, t1) \<and>
      im_json_receive par others \<lparr>addr_name = n\<rparr> ra t1 = Some (Inr v, t2) \<and> idle t2" for ra
    using im_json.one_value [OF e(1), of "\<lparr>addr_name = n\<rparr>" default_send_args t par others ra] \<open>n \<noteq> []\<close> \<open>idle t\<close>
    by (simp add: e(2) idle_def default_send_args_def)
  then obtain t1 where "im_json_send ser \<lparr>addr_name = n\<rparr> v default_send_args t = (success, t1)" by blast
  then show "\<exists>t'. im_json_send ser \<lparr>addr_name = n\<rparr> v default_send_args t = (success, t') \<and>
      brings idle (im_json_receive par others) n v t'"
    unfolding brings_def using sent by (metis prod.inject)
qed

interpretation im_stack: carrier_stack idle "im_stack_ops ser par rser rpar others"
    "wire_faithful ser par" "wire_faithful rser rpar" for ser par rser rpar others
  by unfold_locales (simp_all add: im_stack_ops_def im_carries)

lemmas im_ops = im_stack_ops_def stack_ops.simps qrm_ops.simps

section \<open>QOffload over the in-memory transport\<close>

text \<open>
  A direct task makes the whole round trip through QOffload. Over the in-memory transport with
  the JSON codec: the client sends a task; a round of the task worker forwards it; the resource
  manager receives it with its circuits and shots, addressed back to QOffload, and answers it; a
  round of the result worker passes the answer on; and the client receives the result under its
  own task id on its own queue, with all queues empty again. The queues are assumed to
  be empty at the start and their names not to be, the messages to serialize faithfully, and the
  assigned identifier to be below \<open>2 ^ 31\<close>.
\<close>

theorem direct_task_end_to_end:
  assumes names: "[] \<notin> {queue_request (queue_names config), queue_qrm_task (queue_names config),
        queue_result (queue_names config), qt_result_destination request}"
    and idle: "idle w0"
    and fits: "fits_int32 (fst (nextTaskId (sv_forwarder s)))"
    and fwd: "fwd = fst (forwardDirectTask request (forward_config_of config) (sv_forwarder s) (sv_tasks s))"
    and answer: "qr_task_id result = qt_task_id fwd"
      "r' = result\<lparr>qr_task_id := qt_task_id request, qr_destination := qt_result_destination request\<rparr>"
    and faithful: "wire_faithful ser par request" "wire_faithful ser par fwd"
      "wire_faithful rser rpar result" "wire_faithful rser rpar r'"
  shows "\<exists>w1 s2 w3 w4 s5 w6.
      im_json_send ser \<lparr>addr_name = queue_request (queue_names config)\<rparr> request default_send_args w0 =
        (success, w1) \<and>
      task_worker_round (im_json_receive par others) (im_json_send ser) config (s\<lparr>sv_world := w1\<rparr>) =
        Some s2 \<and>
      im_json_receive par others \<lparr>addr_name = queue_qrm_task (queue_names config)\<rparr> worker_args
        (sv_world s2) = Some (Inr fwd, w3) \<and>
      im_json_send rser \<lparr>addr_name = qt_result_destination fwd\<rparr> result default_send_args w3 = (success, w4) \<and>
      result_worker_round (im_json_receive rpar others) (im_json_send rser) config
        (s2\<lparr>sv_world := w4\<rparr>) = Some s5 \<and>
      im_json_receive rpar others \<lparr>addr_name = qt_result_destination request\<rparr> worker_args (sv_world s5) =
        Some (Inr r', w6) \<and>
      idle w6 \<and> sv_log s5 = sv_log s \<and>
      qt_circuit_files fwd = qt_circuit_files request \<and> qt_n_shots fwd = qt_n_shots request"
proof -
  obtain f tasks where F: "forwardDirectTask request (forward_config_of config) (sv_forwarder s)
      (sv_tasks s) = (fwd, f, tasks)" using fwd by (metis prod.exhaust_sel)
  have dest: "qt_result_destination fwd = queue_result (queue_names config)"
    "qt_circuit_files fwd = qt_circuit_files request" "qt_n_shots fwd = qt_n_shots request"
    using forwardDirectTask_eqs(2) [OF F] by (simp_all add: forward_config_of_def)
  from names have ne: "queue_request (queue_names config) \<noteq> []" "queue_qrm_task (queue_names config) \<noteq> []"
    "queue_result (queue_names config) \<noteq> []" "qt_result_destination request \<noteq> []" by auto
  let ?ops = "im_stack_ops ser par rser rpar others"
  have "carries idle (so_task_send ?ops) (im_json_receive par others) fwd"
    by (simp add: im_ops im_carries faithful(2))
  from im_stack.client_to_qrm [OF faithful(1) this idle ne(1,2) F, unfolded im_ops] obtain w1 s2 where
    1: "im_json_send ser \<lparr>addr_name = queue_request (queue_names config)\<rparr> request default_send_args w0 = (success, w1)"
    "task_worker_round (im_json_receive par others) (im_json_send ser) config (s\<lparr>sv_world := w1\<rparr>) = Some s2"
    "brings idle (im_json_receive par others) (queue_qrm_task (queue_names config)) fwd (sv_world s2)"
    "sv_log s2 = sv_log s" "sv_tasks s2 = tasks" by blast
  obtain w3 where 3: "im_json_receive par others \<lparr>addr_name = queue_qrm_task (queue_names config)\<rparr> worker_args
      (sv_world s2) = Some (Inr fwd, w3)" "idle w3" by (rule brought [OF 1(3) waits_args(1)])
  obtain w4 where 4: "im_json_send rser \<lparr>addr_name = queue_result (queue_names config)\<rparr> result default_send_args w3 =
      (success, w4)" "brings idle (im_json_receive rpar others) (queue_result (queue_names config)) result w4"
    by (rule carried [OF im_carries [OF faithful(3)] ne(3) 3(2)])
  have "brings idle (so_result_receive ?ops) (queue_result (queue_names config)) result w4"
    using 4(2) by (simp add: im_ops)
  from im_stack.qrm_to_client [OF fits F answer this 1(5) faithful(4) ne(4), unfolded im_ops]
  show ?thesis using 1(1,2,4) 3(1) 4(1) dest by metis
qed

text \<open>A serializer for two messages, for evaluation.\<close>

lemma two_messages:
  "wire_faithful (\<lambda>t. Some (if t = a then ''a'' else ''b'')) (\<lambda>p. Some (if p = ''a'' then a else b)) a"
  "wire_faithful (\<lambda>t. Some (if t = a then ''a'' else ''b'')) (\<lambda>p. Some (if p = ''a'' then a else b)) b"
  by (simp_all add: wire_faithful_def)

theorem direct_task_end_to_end_witness:
  "\<exists>ser par rser rpar s s5 w6.
     im_json_receive rpar id \<lparr>addr_name = ''client''\<rparr> worker_args (sv_world s5) =
       Some (Inr (QuantumResult_default\<lparr>qr_task_id := 7, qr_destination := ''client''\<rparr>), w6) \<and>
     result_worker_round (im_json_receive rpar id) (im_json_send rser)
       (makeDefaultConfig \<lparr>path_runtime_dir = [], path_log_dir = [], path_state_file = []\<rparr>) s = Some s5 \<and>
     wire_faithful ser par run_request"
proof -
  let ?config = "makeDefaultConfig \<lparr>path_runtime_dir = [], path_log_dir = [], path_state_file = []\<rparr>"
  let ?s = "\<lparr>sv_forwarder = Forward_init 11, sv_tasks = TaskStore_empty,
    sv_world = createTransport_InMemory, sv_log = []\<rparr>"
  let ?fwd = "fst (forwardDirectTask run_request (forward_config_of ?config) (sv_forwarder ?s) (sv_tasks ?s))"
  let ?r = "QuantumResult_default\<lparr>qr_task_id := 11\<rparr>"
  let ?r' = "?r\<lparr>qr_task_id := qt_task_id run_request, qr_destination := qt_result_destination run_request\<rparr>"
  have names: "[] \<notin> {queue_request (queue_names ?config), queue_qrm_task (queue_names ?config),
      queue_result (queue_names ?config), qt_result_destination run_request}"
    by (simp add: makeDefaultConfig_def run_request_def)
  have fits: "fits_int32 (fst (nextTaskId (sv_forwarder ?s)))"
    by (simp add: Forward_init_def fits_int32_def)
  have ans: "qr_task_id ?r = qt_task_id ?fwd"
    by (simp add: forwardDirectTask_steps Forward_init_def to_int32_def)
  have r': "?r' = QuantumResult_default\<lparr>qr_task_id := 7, qr_destination := ''client''\<rparr>"
    by (simp add: run_request_def)
  note E = direct_task_end_to_end [where others = id, OF names idle_initial fits refl ans refl
      two_messages two_messages]
  have out: "qt_result_destination run_request = ''client''" by (simp add: run_request_def)
  show ?thesis using E unfolding r' unfolding out
    by (elim exE conjE) (rule exI conjI two_messages(1) | assumption)+
qed

section \<open>The QRM workflow over the in-memory transport\<close>

text \<open>
  A task makes the whole way through the QRM workflow. Over the in-memory transport with the
  JSON codec: the daemon sends its task to the scheduler, which forwards it to the compiler, which
  replaces the circuit by its translation and sends it to the submitter, which runs it and sends
  the histogram to the queue the daemon named; the daemon receives it, exits with 0, and logs every
  count; and all queues are empty again. The compiler's and the submitter's libraries are assumed to
  work (a temporary file, a program that parses, QDMI calls that succeed, a complete histogram), the
  queues to be named and empty at the start, and the messages to serialize faithfully.
\<close>

theorem qrm_workflow_end_to_end:
  assumes names: "[] \<notin> {queue_scheduler (qrm_queues config), queue_compiler (qrm_queues config),
        queue_submitter (qrm_queues config), queue_results (qrm_queues config)}"
    and idle: "idle w0"
    and tasks: "task = daemon_task config" "task' = compiled mlir m task"
      "r = histogram_result task' (hd (qt_circuit_files task')) ks cs"
    and works: "compiler_works mlir m task"
      "device_works qdmi beyond sq (hd (qt_circuit_files task')) 0 ks cs"
    and faithful: "wire_faithful ser par task" "wire_faithful ser par task'" "wire_faithful rser rpar r"
  shows "\<exists>w1 p2 p3 p4 p5.
      im_json_send ser \<lparr>addr_name = queue_scheduler (qrm_queues config)\<rparr> task default_send_args w0 = (success, w1) \<and>
      scheduler_round (im_json_receive par others) (im_json_send ser) config \<lparr>qp_world = w1, qp_log = []\<rparr> =
        Some p2 \<and>
      compiler_round mlir (\<lambda>_. sc) (\<lambda>_ w. w) (im_json_receive par others) (im_json_send ser) config
        \<lparr>qp_world = qp_world p2, qp_log = []\<rparr> = Some (Returns p3) \<and>
      submitter_round qdmi ndebug beyond (\<lambda>_. sq) (\<lambda>_ w. w) (im_json_receive par others) (im_json_send rser)
        config \<lparr>qp_world = qp_world p3, qp_log = []\<rparr> = Some (Returns p4) \<and>
      daemon_main (im_json_receive rpar others) (im_json_send ser) (\<lambda>_. qp_world p4) config
        \<lparr>qp_world = w0, qp_log = []\<rparr> = Some (Returns 0, p5) \<and>
      idle (qp_world p5) \<and>
      (\<exists>earlier. qp_log p5 = earlier @ map (\<lambda>(key, count). (SpdInfo, ''count['' @ key @ ''] : '' @ int_text count))
         (counts (hd (qr_results r))))"
proof -
  from im_stack.daemon_passage [OF names idle tasks works faithful, where others = others, unfolded im_ops]
  show ?thesis by blast
qed

theorem qrm_workflow_end_to_end_witness:
  "\<exists>ser rpar w p5 earlier.
     daemon_main (im_json_receive rpar id) (im_json_send ser) (\<lambda>_. w)
       (qrm_loadConfig \<lparr>build_log_dir = ''log'', build_benchmark_dir = ''bench''\<rparr> (\<lambda>_. None) [])
       \<lparr>qp_world = createTransport_InMemory, qp_log = []\<rparr> = Some (Returns 0, p5) \<and>
     qp_log p5 = earlier @ [(SpdInfo, ''count[00] : 3''), (SpdInfo, ''count[11] : 5'')]"
proof -
  let ?config = "qrm_loadConfig \<lparr>build_log_dir = ''log'', build_benchmark_dir = ''bench''\<rparr> (\<lambda>_. None) []"
  let ?t = "compiled echo_mlir id (daemon_task ?config)"
  let ?r = "histogram_result ?t (hd (qt_circuit_files ?t)) [''00'', ''11''] [3, 5]"
  have names: "[] \<notin> {queue_scheduler (qrm_queues ?config), queue_compiler (qrm_queues ?config),
      queue_submitter (qrm_queues ?config), queue_results (qrm_queues ?config)}"
    by (simp add: qrm_loadConfig_def qrm_getEnvOr_def Let_def)
  have comp: "compiler_works echo_mlir id (daemon_task ?config)"
    by (simp add: compiler_works_def echo_mlir_def daemon_task_def)
  have counts: "map (\<lambda>(key, count). (SpdInfo, ''count['' @ key @ ''] : '' @ int_text count))
      (counts (hd (qr_results ?r))) = [(SpdInfo, ''count[00] : 3''), (SpdInfo, ''count[11] : 5'')]"
    by (simp add: histogram_result_def um_insert_or_assign_def to_int32_def int_text_def to_string.simps
        digit_char_def char_of_def bit_0)
  have r: "wire_faithful (\<lambda>_. Some ''r'') (\<lambda>_. Some ?r) ?r" by (simp add: wire_faithful_def)
  have "\<exists>w p5 earlier. daemon_main (im_json_receive (\<lambda>_. Some ?r) id)
      (im_json_send (\<lambda>t. Some (if t = daemon_task ?config then ''a'' else ''b''))) (\<lambda>_. w) ?config
      \<lparr>qp_world = createTransport_InMemory, qp_log = []\<rparr> = Some (Returns 0, p5) \<and>
      qp_log p5 = earlier @ map (\<lambda>(key, count). (SpdInfo, ''count['' @ key @ ''] : '' @ int_text count))
        (counts (hd (qr_results ?r)))"
    using qrm_workflow_end_to_end [where others = id and sc = "()" and ndebug = False and
        rser = "\<lambda>_. Some ''r''" and rpar = "\<lambda>_. Some ?r",
        OF names idle_initial refl refl refl comp demo_works [where sq = "[]"] two_messages r]
    by blast
  then show ?thesis unfolding counts by blast
qed

section \<open>QOffload in front of the QRM workflow\<close>

text \<open>
  C2: the two systems together. When QOffload's queue for the resource manager is the queue of the
  workflow's scheduler, a direct task passes through six programs: the client's send, QOffload's task
  worker, scheduler, compiler, submitter, QOffload's result worker; and the client receives, on its
  own queue and under its own task id, the histogram the device found for the task's first circuit
  with the client's number of shots. The assumptions are those of the two halves. Here one in-memory transport
  carries all messages; the programs are deployed over RabbitMQ, for which the last section says the same.
\<close>

theorem full_stack_direct_task:
  assumes names: "[] \<notin> {queue_request (queue_names qc), queue_qrm_task (queue_names qc),
        queue_result (queue_names qc), qt_result_destination request,
        queue_compiler (qrm_queues rc), queue_submitter (qrm_queues rc)}"
    and wired: "queue_qrm_task (queue_names qc) = queue_scheduler (qrm_queues rc)"
    and idle: "idle w0" and fits: "fits_int32 (fst (nextTaskId (sv_forwarder s)))"
    and fwd: "fwd = fst (forwardDirectTask request (forward_config_of qc) (sv_forwarder s) (sv_tasks s))"
      "fwd' = compiled mlir m fwd"
    and works: "compiler_works mlir m fwd"
      "device_works qdmi beyond sq (hd (qt_circuit_files fwd')) (qt_n_shots request) ks cs"
    and r: "r = histogram_result fwd' (hd (qt_circuit_files fwd')) ks cs"
      "r' = r\<lparr>qr_task_id := qt_task_id request, qr_destination := qt_result_destination request\<rparr>"
    and faithful: "wire_faithful ser par request" "wire_faithful ser par fwd" "wire_faithful ser par fwd'"
      "wire_faithful rser rpar r" "wire_faithful rser rpar r'"
  shows "\<exists>w1 s2 p3 p4 p5 s6 w7.
      im_json_send ser \<lparr>addr_name = queue_request (queue_names qc)\<rparr> request default_send_args w0 = (success, w1) \<and>
      task_worker_round (im_json_receive par others) (im_json_send ser) qc (s\<lparr>sv_world := w1\<rparr>) = Some s2 \<and>
      scheduler_round (im_json_receive par others) (im_json_send ser) rc \<lparr>qp_world = sv_world s2, qp_log = []\<rparr> =
        Some p3 \<and>
      compiler_round mlir (\<lambda>_. sc) (\<lambda>_ w. w) (im_json_receive par others) (im_json_send ser) rc
        \<lparr>qp_world = qp_world p3, qp_log = []\<rparr> = Some (Returns p4) \<and>
      submitter_round qdmi ndebug beyond (\<lambda>_. sq) (\<lambda>_ w. w) (im_json_receive par others) (im_json_send rser) rc
        \<lparr>qp_world = qp_world p4, qp_log = []\<rparr> = Some (Returns p5) \<and>
      result_worker_round (im_json_receive rpar others) (im_json_send rser) qc (s2\<lparr>sv_world := qp_world p5\<rparr>) =
        Some s6 \<and>
      im_json_receive rpar others \<lparr>addr_name = qt_result_destination request\<rparr> worker_args (sv_world s6) =
        Some (Inr r', w7) \<and>
      idle w7 \<and> sv_log s6 = sv_log s \<and> qr_results r' = qr_results r"
proof -
  from im_stack.stack_passage [OF names wired idle fits fwd works r faithful, where others = others, unfolded im_ops]
  show ?thesis by blast
qed

text \<open>A serializer for three messages, for evaluation.\<close>

lemma three_messages:
  fixes a b c
  defines "ser \<equiv> \<lambda>t. Some (if t = a then ''a'' else if t = b then ''b'' else ''c'')"
    and "par \<equiv> \<lambda>p :: string. Some (if p = ''a'' then a else if p = ''b'' then b else c)"
  shows "wire_faithful ser par a" "wire_faithful ser par b" "wire_faithful ser par c"
  by (simp_all add: wire_faithful_def ser_def par_def)

text \<open>The example of both witnesses: the default queues, a task with one program, and the simulated device.\<close>

abbreviation stack_qc :: Config where
  "stack_qc \<equiv> makeDefaultConfig \<lparr>path_runtime_dir = [], path_log_dir = [], path_state_file = []\<rparr>"

abbreviation stack_rc :: qrm_Config where
  "stack_rc \<equiv> qrm_loadConfig \<lparr>build_log_dir = ''log'', build_benchmark_dir = ''bench''\<rparr>
    (\<lambda>n. if n = ''QRM_SCHEDULER_QUEUE'' then Some (queue_qrm_task (queue_names stack_qc)) else None) []"

abbreviation stack_request :: QuantumTask where
  "stack_request \<equiv> run_request\<lparr>qt_circuit_files := [''bell.mlir'']\<rparr>"

abbreviation stack_service :: "'w \<Rightarrow> 'w service" where
  "stack_service w \<equiv> \<lparr>sv_forwarder = Forward_init 11, sv_tasks = TaskStore_empty, sv_world = w, sv_log = []\<rparr>"

abbreviation stack_fwd :: QuantumTask where
  "stack_fwd \<equiv> fst (forwardDirectTask stack_request (forward_config_of stack_qc) (Forward_init 11) TaskStore_empty)"

abbreviation stack_result :: QuantumResult where
  "stack_result \<equiv> histogram_result (compiled echo_mlir id stack_fwd)
     (hd (qt_circuit_files (compiled echo_mlir id stack_fwd))) [''00'', ''11''] [3, 5]"

abbreviation stack_answer :: QuantumResult where
  "stack_answer \<equiv> stack_result\<lparr>qr_task_id := qt_task_id stack_request, qr_destination := qt_result_destination stack_request\<rparr>"

lemma stack_example:
  "[] \<notin> {queue_request (queue_names stack_qc), queue_qrm_task (queue_names stack_qc),
      queue_result (queue_names stack_qc), qt_result_destination stack_request, queue_compiler (qrm_queues stack_rc),
      queue_submitter (qrm_queues stack_rc)}"
  "queue_qrm_task (queue_names stack_qc) = queue_scheduler (qrm_queues stack_rc)"
  "fits_int32 (fst (nextTaskId (Forward_init 11)))"
  "compiler_works echo_mlir id stack_fwd"
  by (simp_all add: makeDefaultConfig_def run_request_def qrm_loadConfig_def qrm_getEnvOr_def Let_def Forward_init_def
      fits_int32_def compiler_works_def echo_mlir_def forwardDirectTask_steps outgoing_task_def)

lemma stack_answered:
  "qt_result_destination stack_request = ''client''" "qr_task_id stack_answer = 7"
  "um_find (counts (hd (qr_results stack_answer))) ''11'' = Some 5"
  by (simp_all add: run_request_def histogram_result_def um_insert_or_assign_def um_find_def to_int32_def)

theorem full_stack_direct_task_witness:
  "\<exists>rpar w (r :: QuantumResult) w7.
     im_json_receive rpar id \<lparr>addr_name = ''client''\<rparr> worker_args w = Some (Inr r, w7) \<and>
     qr_task_id r = 7 \<and> um_find (counts (hd (qr_results r))) ''11'' = Some 5"
proof -
  note E = full_stack_direct_task [where others = id and sc = "()" and ndebug = False and s = "stack_service createTransport_InMemory",
      unfolded service.simps, OF stack_example(1,2) idle_initial stack_example(3) refl refl stack_example(4)
      demo_works [where sq = "[]"] refl refl three_messages two_messages]
  have "\<exists>rpar w w7. im_json_receive rpar id \<lparr>addr_name = ''client''\<rparr> worker_args w = Some (Inr stack_answer, w7)"
    using E unfolding stack_answered(1) by (elim exE conjE) (rule exI | assumption)+
  then show ?thesis by (elim exE) (rule exI conjI stack_answered | assumption)+
qed

section \<open>The deployed system\<close>

text \<open>
  C3: the two systems together as they are deployed, over RabbitMQ. Every program has a transport of its own to one
  broker. If the broker and the client library do what is documented and do not fail, and no message waits at the
  start, then a direct task passes through the same six programs as over the in-memory transport, and the
  client receives, on its own queue and under its own task id, the histogram the device found; no
  message waits at the end. The waits of the receives end with the first message, and as at most one message is
  in a queue at a time, none is lost with a cancelled consumer.
\<close>

theorem full_stack_over_rabbitmq:
  assumes broker: "broker_laws am v" "reliable_broker am v" "bm_laws api"
    and names: "[] \<notin> {queue_request (queue_names qc), queue_qrm_task (queue_names qc),
        queue_result (queue_names qc), qt_result_destination request,
        queue_compiler (qrm_queues rc), queue_submitter (qrm_queues rc)}"
    and wired: "queue_qrm_task (queue_names qc) = queue_scheduler (qrm_queues rc)"
    and quiet: "rs_quiet v w0" and fits: "fits_int32 (fst (nextTaskId (sv_forwarder s)))"
    and fwd: "fwd = fst (forwardDirectTask request (forward_config_of qc) (sv_forwarder s) (sv_tasks s))"
      "fwd' = compiled mlir m fwd"
    and works: "compiler_works mlir m fwd"
      "device_works qdmi beyond sq (hd (qt_circuit_files fwd')) (qt_n_shots request) ks cs"
    and r: "r = histogram_result fwd' (hd (qt_circuit_files fwd')) ks cs"
      "r' = r\<lparr>qr_task_id := qt_task_id request, qr_destination := qt_result_destination request\<rparr>"
    and faithful: "wire_faithful ser par request" "wire_faithful ser par fwd" "wire_faithful ser par fwd'"
      "wire_faithful rser rpar r" "wire_faithful rser rpar r'"
  shows "\<exists>w1 s2 p3 p4 p5 s6 w7.
      rs_send am api ser ClientParty \<lparr>addr_name = queue_request (queue_names qc)\<rparr> request default_send_args w0 =
        (success, w1) \<and>
      task_worker_round (rs_receive am api par TaskLocalParty) (rs_send am api ser TaskQrmParty) qc
        (s\<lparr>sv_world := w1\<rparr>) = Some s2 \<and>
      scheduler_round (rs_receive am api par SchedulerParty) (rs_send am api ser SchedulerParty) rc
        \<lparr>qp_world = sv_world s2, qp_log = []\<rparr> = Some p3 \<and>
      compiler_round mlir (\<lambda>_. sc) (\<lambda>_ w. w) (rs_receive am api par CompilerParty) (rs_send am api ser CompilerParty) rc
        \<lparr>qp_world = qp_world p3, qp_log = []\<rparr> = Some (Returns p4) \<and>
      submitter_round qdmi ndebug beyond (\<lambda>_. sq) (\<lambda>_ w. w) (rs_receive am api par SubmitterParty)
        (rs_send am api rser SubmitterParty) rc \<lparr>qp_world = qp_world p4, qp_log = []\<rparr> = Some (Returns p5) \<and>
      result_worker_round (rs_receive am api rpar ResultLocalParty) (rs_send am api rser ResultLocalParty) qc
        (s2\<lparr>sv_world := qp_world p5\<rparr>) = Some s6 \<and>
      rs_receive am api rpar ClientParty \<lparr>addr_name = qt_result_destination request\<rparr> worker_args (sv_world s6) =
        Some (Inr r', w7) \<and>
      rs_quiet v w7 \<and> sv_log s6 = sv_log s \<and> qr_results r' = qr_results r"
proof -
  from carrier_stack.stack_passage [OF rs_stack [OF broker] names wired quiet fits fwd works r faithful, unfolded rs_ops]
  show ?thesis by blast
qed

theorem full_stack_over_rabbitmq_witness:
  "\<exists>rpar w (r :: QuantumResult) w7.
     rs_receive model_amqp plain_api rpar ClientParty \<lparr>addr_name = ''client''\<rparr> worker_args w = Some (Inr r, w7) \<and>
     rs_quiet model_view w7 \<and> qr_task_id r = 7 \<and> um_find (counts (hd (qr_results r))) ''11'' = Some 5"
proof -
  note E = full_stack_over_rabbitmq [where sc = "()" and ndebug = False and s = "stack_service rs_demo_start",
      unfolded service.simps, OF model_laws model_reliable plain_api_laws stack_example(1,2) rs_quiet_start
      stack_example(3) refl refl stack_example(4) demo_works [where sq = "[]"] refl refl three_messages two_messages]
  have "\<exists>rpar w w7. rs_receive model_amqp plain_api rpar ClientParty \<lparr>addr_name = ''client''\<rparr> worker_args w =
      Some (Inr stack_answer, w7) \<and> rs_quiet model_view w7"
    using E unfolding stack_answered(1) by (elim exE conjE) (rule exI conjI | assumption)+
  then show ?thesis by (elim exE conjE) (rule exI conjI stack_answered | assumption)+
qed


text \<open>Two clients, one after the other.\<close>

abbreviation session_requests :: "QuantumTask list" where
  "session_requests \<equiv> [stack_request, stack_request\<lparr>qt_task_id := 8\<rparr>]"

definition session_tasks :: "(string \<times> QuantumTask) list" where
  "session_tasks = (let fc = forward_config_of stack_qc; ys = map2 (outgoing_task fc) [11, 10011] session_requests
     in zip [''a'', ''b'', ''c'', ''d'', ''e'', ''f''] (session_requests @ ys @ map (compiled echo_mlir id) ys))"

definition session_results :: "(string \<times> QuantumResult) list" where
  "session_results = (let fc = forward_config_of stack_qc; ys = map2 (outgoing_task fc) [11, 10011] session_requests
     in zip [''a'', ''b'', ''c'', ''d''] (map (result_of echo_mlir id demo_hist) ys @
       map (answer_to echo_mlir id demo_hist) session_requests))"

lemma table_faithful:
  assumes "distinct (map fst tab)" and "v \<in> snd ` set tab"
  shows "wire_faithful (table_ser tab) (map_of tab) v"
  using sound_faithful [OF table_sound [OF assms(1)] table_known [OF assms(2)]] .

lemma session_messages:
  assumes "(k, x) \<in> {(11, stack_request), (10011, stack_request\<lparr>qt_task_id := 8\<rparr>)}"
  defines "fc \<equiv> forward_config_of stack_qc"
  shows "wire_faithful (table_ser session_tasks) (map_of session_tasks) x"
    "wire_faithful (table_ser session_tasks) (map_of session_tasks) (outgoing_task fc k x)"
    "wire_faithful (table_ser session_tasks) (map_of session_tasks) (compiled echo_mlir id (outgoing_task fc k x))"
    "wire_faithful (table_ser session_results) (map_of session_results) (result_of echo_mlir id demo_hist (outgoing_task fc k x))"
    "wire_faithful (table_ser session_results) (map_of session_results) (answer_to echo_mlir id demo_hist x)"
proof -
  have t: "x \<in> snd ` set session_tasks" "outgoing_task fc k x \<in> snd ` set session_tasks"
    "compiled echo_mlir id (outgoing_task fc k x) \<in> snd ` set session_tasks"
    "result_of echo_mlir id demo_hist (outgoing_task fc k x) \<in> snd ` set session_results"
    "answer_to echo_mlir id demo_hist x \<in> snd ` set session_results"
    using assms(1) unfolding fc_def by (auto simp: session_tasks_def session_results_def Let_def)
  have d: "distinct (map fst session_tasks)" "distinct (map fst session_results)"
    by (simp_all add: session_tasks_def session_results_def Let_def)
  show "wire_faithful (table_ser session_tasks) (map_of session_tasks) x"
    "wire_faithful (table_ser session_tasks) (map_of session_tasks) (outgoing_task fc k x)"
    "wire_faithful (table_ser session_tasks) (map_of session_tasks) (compiled echo_mlir id (outgoing_task fc k x))"
    "wire_faithful (table_ser session_results) (map_of session_results) (result_of echo_mlir id demo_hist (outgoing_task fc k x))"
    "wire_faithful (table_ser session_results) (map_of session_results) (answer_to echo_mlir id demo_hist x)"
    using table_faithful [OF d(1)] table_faithful [OF d(2)] t by blast+
qed

lemma session_works:
  "requests_work (wire_faithful (table_ser session_tasks) (map_of session_tasks))
     (wire_faithful (table_ser session_results) (map_of session_results)) echo_mlir id demo_qdmi 0 demo_hist
     (forward_config_of stack_qc) (Forward_init 11) session_requests"
proof -
  have "request_works (wire_faithful (table_ser session_tasks) (map_of session_tasks))
      (wire_faithful (table_ser session_results) (map_of session_results)) echo_mlir id demo_qdmi 0 demo_hist
      (forward_config_of stack_qc) k x"
    if "(k, x) \<in> {(11, stack_request), (10011, stack_request\<lparr>qt_task_id := 8\<rparr>)}" for k :: uint64 and x
  proof -
    have "compiler_works echo_mlir id x" "qt_result_destination x \<noteq> []" "fits_int32 k" "qt_circuit_files x \<noteq> []"
      using that by (auto simp: compiler_works_def echo_mlir_def run_request_def fits_int32_def)
    moreover from this have "device_runs demo_qdmi 0 demo_hist (compiled echo_mlir id x)"
      by (simp add: device_runs_def demo_hist_def demo_works) (simp add: compiled_def)
    ultimately show ?thesis unfolding request_works_def using session_messages [OF that] by blast
  qed
  then show ?thesis by (simp add: Forward_init_def)
qed


end
